(* ===== verification/Velox_Prelude.thy ===== *)
theory Velox_Prelude
  imports "HOL-Library.Word"
begin

unbundle bit_operations_syntax

section \<open>Shared types and lemmas of the Velox development\<close>

text \<open>
  What every component theory uses: the machine integers of the sources, the faults a C or
  C++ statement of the program can end in, sequencing of fallible steps, and the view of a
  byte buffer as little-endian 16 and 32 bit fields (the byte order of the hosts the program is
  built for; \<open>htons\<close>, \<open>ntohs\<close>, \<open>__cpu_to_be16\<close> and their kin swap bytes there).
  The collection \<open>layout_simps\<close> holds the read-over-write equations of buffers; the
  collection \<open>fault_simps\<close> the equations of fallible sequencing.
\<close>

named_theorems layout_simps
named_theorems fault_simps

type_synonym byte = "8 word"
type_synonym u16 = "16 word"
type_synonym u32 = "32 word"

subsection \<open>Faults\<close>

text \<open>
  How a call can fail to return a value: a failed \<open>assert\<close>, a null pointer or an
  indeterminate value being read, an access outside an array or to an object that has been
  destroyed, \<open>exit\<close>, waiting for
  something that is not there, (\<open>NoReturn\<close>) a loop that was still running when the
  steps it was given were used up, or a use of a library that its documentation leaves undefined.
\<close>

datatype fault =
    AssertFailed
  | NullDeref
  | UninitRead
  | OutOfBounds
  | UseAfterFree
  | ProcessExit
  | WouldBlock
  | NoReturn
  | Undefined

type_synonym 'a res = "fault + 'a"

definition bindr :: "'a res \<Rightarrow> ('a \<Rightarrow> 'b res) \<Rightarrow> 'b res" where
  "bindr m f = (case m of Inl e \<Rightarrow> Inl e | Inr x \<Rightarrow> f x)"

text \<open>An \<open>assert\<close> as in a Debug build. In a Release build, which defines \<open>NDEBUG\<close>, there is none.\<close>

definition assertr :: "bool \<Rightarrow> unit res" where
  "assertr b = (if b then Inr () else Inl AssertFailed)"

definition derefr :: "'a option \<Rightarrow> 'a res" where
  "derefr p = (case p of None \<Rightarrow> Inl NullDeref | Some x \<Rightarrow> Inr x)"

definition initr :: "'a option \<Rightarrow> 'a res" where
  "initr v = (case v of None \<Rightarrow> Inl UninitRead | Some x \<Rightarrow> Inr x)"

text \<open>A pointer to an object that may be gone: the store maps destroyed objects to \<open>None\<close>.\<close>

definition liver :: "'a option \<Rightarrow> 'a res" where
  "liver v = (case v of None \<Rightarrow> Inl UseAfterFree | Some x \<Rightarrow> Inr x)"

lemma liver_Some [simp, fault_simps]: "liver (Some x) = Inr x"
  by (simp add: liver_def)

lemma liver_None [simp, fault_simps]: "liver None = Inl UseAfterFree"
  by (simp add: liver_def)

lemma liver_eq_Inr [simp]: "liver p = Inr x \<longleftrightarrow> p = Some x"
  by (cases p) auto

lemma bindr_Inl [simp, fault_simps]: "bindr (Inl e) f = Inl e"
  by (simp add: bindr_def)

lemma bindr_Inr [simp, fault_simps]: "bindr (Inr x) f = f x"
  by (simp add: bindr_def)

lemma bindr_eq_Inr [fault_simps]: "bindr m f = Inr y \<longleftrightarrow> (\<exists>x. m = Inr x \<and> f x = Inr y)"
  by (cases m) auto

lemma assertr_True [simp, fault_simps]: "assertr True = Inr ()"
  by (simp add: assertr_def)

lemma assertr_False [simp, fault_simps]: "assertr False = Inl AssertFailed"
  by (simp add: assertr_def)

lemma assertr_eq_Inr [simp]: "assertr b = Inr u \<longleftrightarrow> b"
  by (simp add: assertr_def)

lemma derefr_Some [simp, fault_simps]: "derefr (Some x) = Inr x"
  by (simp add: derefr_def)

lemma derefr_None [simp, fault_simps]: "derefr None = Inl NullDeref"
  by (simp add: derefr_def)

lemma derefr_eq_Inr [simp]: "derefr p = Inr x \<longleftrightarrow> p = Some x"
  by (cases p) auto

lemma initr_Some [simp, fault_simps]: "initr (Some x) = Inr x"
  by (simp add: initr_def)

lemma initr_None [simp, fault_simps]: "initr None = Inl UninitRead"
  by (simp add: initr_def)

lemma initr_eq_Inr [simp]: "initr p = Inr x \<longleftrightarrow> p = Some x"
  by (cases p) auto

subsection \<open>Transition systems\<close>

text \<open>Reachable states and invariants, for the step relations of the components.\<close>

locale transition_system =
  fixes init :: "'s \<Rightarrow> bool"
    and step :: "'s \<Rightarrow> 's \<Rightarrow> bool"
begin

inductive reachable :: "'s \<Rightarrow> bool" where
  reach_init: "init s \<Longrightarrow> reachable s"
| reach_step: "reachable s \<Longrightarrow> step s s' \<Longrightarrow> reachable s'"

lemma invariant:
  assumes "reachable s" "\<And>s. init s \<Longrightarrow> I s" "\<And>s s'. I s \<Longrightarrow> step s s' \<Longrightarrow> I s'"
  shows "I s"
  using assms by (induction rule: reachable.induct) blast+

lemma reachable_steps: "reachable s \<Longrightarrow> step\<^sup>*\<^sup>* s s' \<Longrightarrow> reachable s'"
  by (rotate_tac, induction rule: rtranclp_induct) (auto intro: reach_step)

end

subsection \<open>Counters that wrap\<close>

lemma mod_shift_inj:
  fixes u j k m :: nat
  assumes "(u + j) mod m = (u + k) mod m" "j < m" "k < m"
  shows "j = k"
proof -
  have *: "a = b" if "a \<le> b" "(u + a) mod m = (u + b) mod m" "b < m" for a b
  proof -
    have "m dvd b - a" using that mod_eq_dvd_iff_nat [of "u + a" "u + b" m] by simp
    moreover have "b - a < m" using that by simp
    ultimately have "\<not> 0 < b - a" using nat_dvd_not_less [of "b - a" m] by blast
    then show ?thesis using that by simp
  qed
  show ?thesis using assms *[of j k] *[of k j] by (cases "j \<le> k") auto
qed

subsection \<open>Bytes of a 16 bit word\<close>

definition le16 :: "byte \<Rightarrow> byte \<Rightarrow> u16" where
  "le16 lo hi = ucast lo + 256 * ucast hi"

definition lo8 :: "u16 \<Rightarrow> byte" where
  "lo8 x = ucast x"

definition hi8 :: "u16 \<Rightarrow> byte" where
  "hi8 x = ucast (drop_bit 8 x)"

lemma unat_byte_less: "unat (b :: byte) < 256"
  using unsigned_less [of b, where ?'a = nat] by simp

lemma unat_u16_less: "unat (x :: u16) < 65536"
  using unsigned_less [of x, where ?'a = nat] by simp

lemma unat_u32_less: "unat (x :: u32) < 4294967296"
  using unsigned_less [of x, where ?'a = nat] by simp

lemma unat_not_u16: "unat (NOT (x :: u16)) = 65535 - unat x"
proof -
  have "NOT x = - 1 - x" by (simp add: not_eq_complement)
  moreover have "unat (- 1 - x) = unat (- 1 :: u16) - unat x"
    by (rule unat_sub) simp
  ultimately show ?thesis by (simp add: unsigned_minus_1_eq_mask mask_eq_exp_minus_1)
qed

lemma unat_lo8: "unat (lo8 x) = unat x mod 256"
  by (simp add: lo8_def unsigned_ucast_eq take_bit_eq_mod)

lemma unat_hi8: "unat (hi8 x) = unat x div 256"
  using unat_u16_less [of x]
  by (simp add: hi8_def unsigned_ucast_eq take_bit_eq_mod drop_bit_eq_div unat_div)

lemma unat_le16: "unat (le16 lo hi) = unat lo + 256 * unat hi"
  using unat_byte_less [of lo] unat_byte_less [of hi]
  by (simp add: le16_def unat_word_ariths unsigned_ucast_eq take_bit_eq_mod)

lemma le16_lo8_hi8 [simp, layout_simps]: "le16 (lo8 x) (hi8 x) = x"
  by (simp add: word_eq_iff_unsigned [where ?'a = nat] unat_le16 unat_lo8 unat_hi8)

lemma lo8_le16 [simp, layout_simps]: "lo8 (le16 a b) = a"
  using unat_byte_less [of a]
  by (simp add: word_eq_iff_unsigned [where ?'a = nat] unat_le16 unat_lo8)

lemma hi8_le16 [simp, layout_simps]: "hi8 (le16 a b) = b"
  using unat_byte_less [of a]
  by (simp add: word_eq_iff_unsigned [where ?'a = nat] unat_le16 unat_hi8)

lemma bytes_0 [simp]: "lo8 0 = 0" "hi8 0 = 0" "le16 0 0 = 0"
  by (simp_all add: lo8_def hi8_def le16_def)

lemma le16_inject [simp]: "le16 a b = le16 c d \<longleftrightarrow> a = c \<and> b = d"
  by (metis lo8_le16 hi8_le16)

lemma le16_exhaust: obtains a b where "x = le16 a b"
  by (metis le16_lo8_hi8)

text \<open>\<open>__cpu_to_be16\<close>, \<open>__be16_to_cpu\<close>, \<open>htons\<close> and \<open>ntohs\<close>: a byte swap.\<close>

definition bswap16 :: "u16 \<Rightarrow> u16" where
  "bswap16 x = le16 (hi8 x) (lo8 x)"

lemma bswap16_bswap16 [simp, layout_simps]: "bswap16 (bswap16 x) = x"
  by (simp add: bswap16_def)

lemma bswap16_inject [simp]: "bswap16 x = bswap16 y \<longleftrightarrow> x = y"
  by (metis bswap16_bswap16)

lemma bswap16_le16: "bswap16 (le16 a b) = le16 b a"
  by (simp add: bswap16_def)

subsection \<open>Bytes of a 32 bit word\<close>

definition le32 :: "u16 \<Rightarrow> u16 \<Rightarrow> u32" where
  "le32 lo hi = ucast lo + 65536 * ucast hi"

definition lo16 :: "u32 \<Rightarrow> u16" where
  "lo16 x = ucast x"

definition hi16 :: "u32 \<Rightarrow> u16" where
  "hi16 x = ucast (drop_bit 16 x)"

lemma unat_lo16: "unat (lo16 x) = unat x mod 65536"
  by (simp add: lo16_def unsigned_ucast_eq take_bit_eq_mod)

lemma unat_hi16: "unat (hi16 x) = unat x div 65536"
  using unat_u32_less [of x]
  by (simp add: hi16_def unsigned_ucast_eq take_bit_eq_mod drop_bit_eq_div unat_div)

lemma unat_le32: "unat (le32 lo hi) = unat lo + 65536 * unat hi"
  using unat_u16_less [of lo] unat_u16_less [of hi]
  by (simp add: le32_def unat_word_ariths unsigned_ucast_eq take_bit_eq_mod)

lemma le32_lo16_hi16 [simp, layout_simps]: "le32 (lo16 x) (hi16 x) = x"
  by (simp add: word_eq_iff_unsigned [where ?'a = nat] unat_le32 unat_lo16 unat_hi16)

lemma lo16_le32 [simp, layout_simps]: "lo16 (le32 a b) = a"
  using unat_u16_less [of a]
  by (simp add: word_eq_iff_unsigned [where ?'a = nat] unat_le32 unat_lo16)

lemma hi16_le32 [simp, layout_simps]: "hi16 (le32 a b) = b"
  using unat_u16_less [of a]
  by (simp add: word_eq_iff_unsigned [where ?'a = nat] unat_le32 unat_hi16)

text \<open>\<open>htonl\<close> and \<open>ntohl\<close>.\<close>

definition bswap32 :: "u32 \<Rightarrow> u32" where
  "bswap32 x = le32 (bswap16 (hi16 x)) (bswap16 (lo16 x))"

lemma bswap32_bswap32 [simp, layout_simps]: "bswap32 (bswap32 x) = x"
  by (simp add: bswap32_def)

lemma bswap32_inject [simp]: "bswap32 x = bswap32 y \<longleftrightarrow> x = y"
  by (metis bswap32_bswap32)

end
