(* ===== verification/Csum16.thy ===== *)
theory Csum16
  imports Velox_Prelude
begin

unbundle bit_operations_syntax

section \<open>The Internet checksum (src/veloxd/base/Csum16.cpp)\<close>

text \<open>
  \<open>Csum16::checksum\<close>: the loop that adds 16 bit words into a 32 bit accumulator
  (\<open>sum16\<close>), the loop that folds the carries back (\<open>fold16\<close>), and the complement. The
  lemmas read both loops as arithmetic modulo 65535 and lead to the fact the senders rely on: a
  field that was zero while the checksum was computed and then receives it makes the whole
  block verify.
\<close>

subsection \<open>Definitions\<close>

text \<open>The inner loop and the left-over byte: \<open>sum\<close> wraps at 32 bits.\<close>

fun sum16 :: "byte list \<Rightarrow> u32 \<Rightarrow> u32" where
  "sum16 (b0 # b1 # bs) s = sum16 bs (s + ucast (le16 b0 b1))"
| "sum16 [b] s = s + ucast b"
| "sum16 [] s = s"

text \<open>\<open>while (sum >> 16) sum = (sum & 0xffff) + (sum >> 16)\<close>\<close>

lemma unat_fold16_step:
  "unat ((s AND 65535) + drop_bit 16 (s :: u32)) = unat s mod 65536 + unat s div 65536"
proof -
  have m: "(65535 :: u32) = mask 16" by (simp add: mask_eq_exp_minus_1)
  have a: "unat (s AND 65535) = unat s mod 65536"
    unfolding m take_bit_eq_mask [symmetric] by (simp add: take_bit_eq_mod unat_mod)
  have b: "unat (drop_bit 16 s) = unat s div 65536"
    by (simp add: drop_bit_eq_div unat_div)
  have "unat s mod 65536 + unat s div 65536 < 4294967296"
    using unat_u32_less [of s] by linarith
  then show ?thesis
    by (simp add: unat_word_ariths a b)
qed

lemma drop_bit_16_zero_iff: "drop_bit 16 (s :: u32) = 0 \<longleftrightarrow> unat s < 65536"
  by (simp add: word_eq_iff_unsigned [where ?'a = nat] drop_bit_eq_div unat_div)
    (simp add: div_eq_0_iff)

function fold16 :: "u32 \<Rightarrow> u32" where
  "fold16 s = (if drop_bit 16 s \<noteq> 0 then fold16 ((s AND 65535) + drop_bit 16 s) else s)"
  by pat_completeness auto
termination
proof (relation "measure unat")
  fix s :: u32
  assume "drop_bit 16 s \<noteq> 0"
  then have "65536 \<le> unat s" by (simp add: drop_bit_16_zero_iff)
  then have "1 \<le> unat s div 65536" by linarith
  moreover have "unat s = 65536 * (unat s div 65536) + unat s mod 65536" by simp
  ultimately have "unat s mod 65536 + unat s div 65536 < unat s" by linarith
  then show "((s AND 65535) + drop_bit 16 s, s) \<in> measure unat"
    by (simp add: unat_fold16_step)
qed simp

declare fold16.simps [simp del]

definition checksum :: "byte list \<Rightarrow> u32 \<Rightarrow> u32" where
  "checksum bs start_sum = NOT (fold16 (sum16 bs start_sum))"

text \<open>
  The specification RFC 1071 gives: one's complement addition of the 16 bit words, the carry
  going back into the low end at every addition; an odd last byte is padded with a zero byte.
\<close>

definition ones_add :: "u16 \<Rightarrow> u16 \<Rightarrow> u16" where
  "ones_add a b = (if unat a + unat b < 65536 then a + b else a + b + 1)"

fun ones_sum :: "byte list \<Rightarrow> u16 \<Rightarrow> u16" where
  "ones_sum (b0 # b1 # bs) a = ones_sum bs (ones_add a (le16 b0 b1))"
| "ones_sum [b] a = ones_add a (le16 b 0)"
| "ones_sum [] a = a"

subsection \<open>The accumulator as a natural number\<close>

fun wsum :: "byte list \<Rightarrow> nat" where
  "wsum (b0 # b1 # bs) = unat (le16 b0 b1) + wsum bs"
| "wsum [b] = unat b"
| "wsum [] = 0"

lemma wsum_append: "even (length xs) \<Longrightarrow> wsum (xs @ ys) = wsum xs + wsum ys"
  by (induction xs rule: wsum.induct) auto

lemma wsum_bound: "2 * wsum bs \<le> 65535 * (length bs + 1)"
proof (induction bs rule: wsum.induct)
  case (1 b0 b1 bs)
  then show ?case using unat_u16_less [of "le16 b0 b1"] by simp
next
  case (2 b)
  then show ?case using unat_byte_less [of b] by simp
qed simp

lemma unat_sum16: "unat s + wsum bs < 4294967296 \<Longrightarrow> unat (sum16 bs s) = unat s + wsum bs"
proof (induction bs s rule: sum16.induct)
  case (1 b0 b1 bs s)
  have "unat (s + ucast (le16 b0 b1)) = unat s + unat (le16 b0 b1)"
    using "1.prems" unat_u16_less [of "le16 b0 b1"]
    by (simp add: unat_word_ariths unsigned_ucast_eq take_bit_eq_mod)
  with 1 show ?case by simp
next
  case (2 b s)
  then show ?case
    using unat_byte_less [of b]
    by (simp add: unat_word_ariths unsigned_ucast_eq take_bit_eq_mod)
qed simp

subsection \<open>Folding keeps the residue modulo 65535\<close>

lemma fold_residue: "((n :: nat) mod 65536 + n div 65536) mod 65535 = n mod 65535"
proof -
  have "n = n mod 65536 + n div 65536 + 65535 * (n div 65536)"
    using div_mult_mod_eq [of n 65536] by linarith
  then show ?thesis by (metis mod_mult_self2)
qed

lemma fold16_mod: "unat (fold16 s) mod 65535 = unat s mod 65535"
proof (induction s rule: fold16.induct)
  case (1 s)
  then show ?case
    by (subst fold16.simps) (simp add: unat_fold16_step fold_residue)
qed

lemma fold16_less: "unat (fold16 s) < 65536"
proof (induction s rule: fold16.induct)
  case (1 s)
  then show ?case
    by (subst fold16.simps) (simp add: drop_bit_16_zero_iff)
qed

lemma fold16_zero: "unat (fold16 s) = 0 \<longleftrightarrow> unat s = 0"
proof (induction s rule: fold16.induct)
  case (1 s)
  have "unat s mod 65536 + unat s div 65536 = 0 \<longleftrightarrow> unat s = 0"
    using div_mult_mod_eq [of "unat s" 65536] by linarith
  with 1 show ?case
    by (subst fold16.simps) (simp add: unat_fold16_step del: unat_eq_0)
qed

text \<open>A value below 65536 is known from its residue and from whether it is zero.\<close>

lemma mod_65535_zero:
  fixes x :: nat
  assumes "x < 65536" "x mod 65535 = 0"
  shows "x = 0 \<or> x = 65535"
proof (cases "x < 65535")
  case True
  with assms(2) show ?thesis by simp
next
  case False
  with assms(1) show ?thesis by simp
qed

lemma ones_unique:
  fixes x y :: nat
  assumes "x < 65536" "y < 65536" "x mod 65535 = y mod 65535" "x = 0 \<longleftrightarrow> y = 0"
  shows "x = y"
proof (cases "x = 65535 \<or> y = 65535")
  case True
  with assms(3) have z: "x mod 65535 = 0" "y mod 65535 = 0" by auto
  show ?thesis
    using mod_65535_zero [OF assms(1) z(1)] mod_65535_zero [OF assms(2) z(2)] assms(4) by auto
next
  case False
  with assms(1,2) have "x < 65535" "y < 65535" by auto
  with assms(3) show ?thesis by simp
qed

lemma ones_complement_total:
  fixes n f g :: nat
  assumes f: "f < 65536" "f mod 65535 = n mod 65535" "f = 0 \<longleftrightarrow> n = 0"
    and g: "g < 65536" "g mod 65535 = (n + (65535 - f)) mod 65535"
      "g = 0 \<longleftrightarrow> n + (65535 - f) = 0"
  shows "g = 65535"
proof -
  have "(n + (65535 - f)) mod 65535 = (f + (65535 - f)) mod 65535"
    by (rule mod_add_cong [OF f(2) [symmetric] refl])
  also have "f + (65535 - f) = 65535" using f(1) by simp
  finally have z: "g mod 65535 = 0" using g(2) by simp
  have "g \<noteq> 0" using f(3) g(3) by auto
  then show ?thesis using mod_65535_zero [OF g(1) z] by simp
qed

subsection \<open>One's complement addition\<close>

lemma unat_ones_add:
  "unat (ones_add a b) = (if unat a + unat b < 65536 then unat a + unat b
                          else unat a + unat b - 65535)"
proof (cases "unat a + unat b < 65536")
  case True
  then show ?thesis by (simp add: ones_add_def unat_word_ariths)
next
  case False
  have "unat a + unat b + 1 = unat a + unat b - 65535 + 65536" using False by simp
  moreover have "unat a + unat b - 65535 < 65536"
    using unat_u16_less [of a] unat_u16_less [of b] by simp
  ultimately have "(unat a + unat b + 1) mod 65536 = unat a + unat b - 65535"
    by (metis mod_add_self2 mod_less)
  with False show ?thesis by (simp add: ones_add_def unat_word_ariths mod_Suc_eq)
qed

lemma ones_add_mod: "unat (ones_add a b) mod 65535 = (unat a + unat b) mod 65535"
  by (simp add: unat_ones_add le_mod_geq)

lemma ones_add_zero: "unat (ones_add a b) = 0 \<longleftrightarrow> unat a + unat b = 0"
  by (simp add: unat_ones_add del: unat_eq_0) linarith

lemma unat_le16_zero: "unat (le16 b 0) = unat b"
  by (simp add: unat_le16)

lemma ones_sum_mod: "unat (ones_sum bs a) mod 65535 = (unat a + wsum bs) mod 65535"
proof (induction bs a rule: ones_sum.induct)
  case (1 b0 b1 bs a)
  have "(unat (ones_add a (le16 b0 b1)) + wsum bs) mod 65535
      = (unat a + unat (le16 b0 b1) + wsum bs) mod 65535"
    by (rule mod_add_cong [OF ones_add_mod refl])
  with 1 show ?case by (simp add: add.assoc)
next
  case (2 b a)
  then show ?case by (simp add: ones_add_mod unat_le16_zero)
qed simp

lemma ones_sum_zero: "unat (ones_sum bs a) = 0 \<longleftrightarrow> unat a + wsum bs = 0"
proof (induction bs a rule: ones_sum.induct)
  case (1 b0 b1 bs a)
  then show ?case using ones_add_zero [of a "le16 b0 b1"] by simp
next
  case (2 b a)
  then show ?case using ones_add_zero [of a "le16 b 0"] by (simp add: unat_le16_zero)
qed simp

lemma fold16_eq_ones_sum:
  assumes "wsum bs < 4294967296"
  shows "unat (fold16 (sum16 bs 0)) = unat (ones_sum bs 0)"
proof (rule ones_unique)
  have s: "unat (sum16 bs 0) = wsum bs" using unat_sum16 [of 0 bs] assms by simp
  show "unat (fold16 (sum16 bs 0)) mod 65535 = unat (ones_sum bs 0) mod 65535"
    by (simp add: fold16_mod ones_sum_mod s)
  show "unat (fold16 (sum16 bs 0)) = 0 \<longleftrightarrow> unat (ones_sum bs 0) = 0"
    using fold16_zero [of "sum16 bs 0"] ones_sum_zero [of bs 0] s by simp
qed (rule fold16_less, rule unat_u16_less)

lemma wsum_less_32: "length bs \<le> 131070 \<Longrightarrow> wsum bs < 4294967296"
  using wsum_bound [of bs] by simp

lemma lo16_checksum: "lo16 (checksum bs s) = NOT (lo16 (fold16 (sum16 bs s)))"
  unfolding checksum_def lo16_def
  by (rule bit_word_eqI) (simp add: bit_simps)

lemma unat_lo16_checksum:
  "unat (lo16 (checksum bs s)) = 65535 - unat (fold16 (sum16 bs s))"
proof -
  have "unat (lo16 (fold16 (sum16 bs s))) = unat (fold16 (sum16 bs s))"
    using fold16_less by (simp add: unat_lo16)
  then show ?thesis by (simp add: lo16_checksum unat_not_u16)
qed

text \<open>A checksum added to the sum it was computed from makes that sum verify, wherever in the
  block it is put.\<close>

lemma checksum_fill:
  assumes b: "unat s + wsum bs + 65535 < 4294967296"
    and c: "c = lo16 (checksum bs s)"
    and total: "unat s' + wsum bs' = unat s + wsum bs + unat c"
  shows "lo16 (checksum bs' s') = 0"
proof -
  let ?n = "unat s + wsum bs" and ?f = "unat (fold16 (sum16 bs s))"
    and ?g = "unat (fold16 (sum16 bs' s'))"
  have s0: "unat (sum16 bs s) = ?n" using unat_sum16 [of s bs] b by simp
  have uc: "unat c = 65535 - ?f" by (simp only: c unat_lo16_checksum)
  have s1: "unat (sum16 bs' s') = ?n + (65535 - ?f)"
    using unat_sum16 [of s' bs'] b total uc by simp
  have "?g = 65535"
  proof (rule ones_complement_total)
    show "?f mod 65535 = ?n mod 65535" by (simp only: fold16_mod s0)
    show "?f = 0 \<longleftrightarrow> ?n = 0" by (simp only: fold16_zero s0)
    show "?g mod 65535 = (?n + (65535 - ?f)) mod 65535" by (simp only: fold16_mod s1)
    show "?g = 0 \<longleftrightarrow> ?n + (65535 - ?f) = 0" by (simp only: fold16_zero s1)
  qed (rule fold16_less)+
  then have "unat (lo16 (checksum bs' s')) = 0" by (simp only: unat_lo16_checksum)
  then show ?thesis by (simp only: unat_eq_zero)
qed

subsection \<open>Properties\<close>

text \<open>(C29) The routine with its deferred carries computes the checksum RFC 1071 defines: the low
  16 bits of \<open>Csum16::checksum(addr, count, 0)\<close> are the complement of the one's complement sum
  of the block's 16 bit words, for every block whose 32 bit accumulator cannot overflow
  (up to 131070 bytes, more than an IP packet can hold).\<close>

theorem checksum_matches_rfc1071:
  assumes "length bs \<le> 131070"
  shows "lo16 (checksum bs 0) = NOT (ones_sum bs 0)"
proof -
  have "unat (fold16 (sum16 bs 0)) = unat (ones_sum bs 0)"
    by (rule fold16_eq_ones_sum [OF wsum_less_32 [OF assms]])
  then have "lo16 (fold16 (sum16 bs 0)) = ones_sum bs 0"
    using fold16_less [of "sum16 bs 0"]
    by (simp add: word_eq_iff_unsigned [where ?'a = nat] unat_lo16)
  then show ?thesis by (simp add: lo16_checksum)
qed

theorem checksum_matches_rfc1071_witness:
  "length [0, 1, 242, 3, 244, 245, 246, 247 :: byte] \<le> 131070 \<and>
   lo16 (checksum [0, 1, 242, 3, 244, 245, 246, 247] 0) = NOT (ones_sum [0, 1, 242, 3, 244, 245, 246, 247] 0)"
  using checksum_matches_rfc1071 [of "[0, 1, 242, 3, 244, 245, 246, 247]"] by simp

text \<open>(C28) What the senders rely on: when the two bytes of the checksum field are zero during the
  computation and then receive its low 16 bits, a receiver that sums the whole block (started
  from the same value) gets a checksum of zero. The field may stand at any even offset.\<close>

theorem checksum_verifies:
  assumes "even (length pre)"
    and "unat s + 65535 * (length pre + length post + 3) < 4294967296"
    and c: "c = lo16 (checksum (pre @ [0, 0] @ post) s)"
  shows "lo16 (checksum (pre @ [lo8 c, hi8 c] @ post) s) = 0"
proof (rule checksum_fill [OF _ c])
  have w0: "wsum (pre @ [0, 0] @ post) = wsum pre + wsum post"
    using assms(1) by (simp add: wsum_append unat_le16)
  have w1: "wsum (pre @ [lo8 c, hi8 c] @ post) = wsum pre + wsum post + unat c"
    using assms(1) by (simp add: wsum_append)
  show "unat s + wsum (pre @ [0, 0] @ post) + 65535 < 4294967296"
    using assms(2) wsum_bound [of pre] wsum_bound [of post] by (simp add: w0 del: append_Cons append_Nil)
  show "unat s + wsum (pre @ [lo8 c, hi8 c] @ post) = unat s + wsum (pre @ [0, 0] @ post) + unat c"
    unfolding w0 w1 by simp
qed

theorem checksum_verifies_witness:
  "lo16 (checksum ([69, 0, 0, 20] @
     [lo8 (lo16 (checksum ([69, 0, 0, 20] @ [0, 0] @ [10, 0]) 7)),
      hi8 (lo16 (checksum ([69, 0, 0, 20] @ [0, 0] @ [10, 0]) 7))] @ [10, 0]) 7) = 0"
  by (rule checksum_verifies) simp_all

end
