(* ===== verification/Frame_Buf.thy ===== *)
theory Frame_Buf
  imports Velox_Prelude
begin

section \<open>Packet buffers (src/veloxd/FrameBuf.h)\<close>

text \<open>
  A \<open>FrameBuf\<close> holds the raw bytes of one packet and six pointers into them; when a packet
  is sent, the payload pointers point into the caller's string instead. A pointer is \<open>Null\<close>,
  \<open>Raw n\<close> (byte \<open>n\<close> of the buffer's own array) or \<open>User n\<close> (byte \<open>n\<close> of
  that string). The \<open>next\<close> links of a chain of buffers are the order of a list.

  The array is a function from offsets to bytes; \<open>get16\<close>, \<open>put16\<close> and their kin are
  the accesses through header structs laid over it, in host (little-endian) order.
\<close>

datatype ptr = Null | Raw nat | User nat

record FrameBuf =
  transport_hdr :: ptr
  network_hdr :: ptr
  hdrs_begin :: ptr
  hdrs_end :: ptr
  user_payload_begin :: ptr
  user_payload_end :: ptr
  rawBytes :: "nat \<Rightarrow> byte"

type_synonym chain = "FrameBuf list"

definition maxRawBytesSize :: nat where
  "maxRawBytesSize = 1518"

text \<open>\<open>make_shared<FrameBuf>()\<close>: value-initialised.\<close>

definition FrameBuf_new :: FrameBuf where
  "FrameBuf_new = \<lparr>transport_hdr = Null, network_hdr = Null, hdrs_begin = Null, hdrs_end = Null,
     user_payload_begin = Null, user_payload_end = Null, rawBytes = (\<lambda>_. 0)\<rparr>"

subsection \<open>Pointers\<close>

definition ptr_add :: "ptr \<Rightarrow> nat \<Rightarrow> ptr" where
  "ptr_add p n = (case p of Null \<Rightarrow> Null | Raw k \<Rightarrow> Raw (k + n) | User k \<Rightarrow> User (k + n))"

text \<open>The difference of two pointers; pointers into different objects have none.\<close>

definition ptr_diff :: "ptr \<Rightarrow> ptr \<Rightarrow> int res" where
  "ptr_diff e b = (case (e, b) of
       (Raw m, Raw n) \<Rightarrow> Inr (int m - int n)
     | (User m, User n) \<Rightarrow> Inr (int m - int n)
     | (Null, Null) \<Rightarrow> Inr 0
     | _ \<Rightarrow> Inl OutOfBounds)"

text \<open>The header struct a pointer is cast to: its offset in the raw bytes.\<close>

definition hdr_at :: "ptr \<Rightarrow> nat res" where
  "hdr_at p = (case p of Null \<Rightarrow> Inl NullDeref | Raw n \<Rightarrow> Inr n | User _ \<Rightarrow> Inl OutOfBounds)"

lemma ptr_simps [simp]:
  "ptr_add Null n = Null" "ptr_add (Raw k) n = Raw (k + n)" "ptr_add (User k) n = User (k + n)"
  "hdr_at Null = Inl NullDeref" "hdr_at (Raw k) = Inr k" "hdr_at (User k) = Inl OutOfBounds"
  "ptr_diff (Raw m) (Raw k) = Inr (int m - int k)" "ptr_diff (User m) (User k) = Inr (int m - int k)"
  by (simp_all add: ptr_add_def hdr_at_def ptr_diff_def)

subsection \<open>Bytes\<close>

definition hslice :: "(nat \<Rightarrow> byte) \<Rightarrow> nat \<Rightarrow> nat \<Rightarrow> byte list" where
  "hslice r a b = map r [a..<b]"

definition get16 :: "(nat \<Rightarrow> byte) \<Rightarrow> nat \<Rightarrow> u16" where
  "get16 r o' = le16 (r o') (r (o' + 1))"

definition put16 :: "nat \<Rightarrow> u16 \<Rightarrow> (nat \<Rightarrow> byte) \<Rightarrow> (nat \<Rightarrow> byte)" where
  "put16 o' v r = r(o' := lo8 v, o' + 1 := hi8 v)"

definition get32 :: "(nat \<Rightarrow> byte) \<Rightarrow> nat \<Rightarrow> u32" where
  "get32 r o' = le32 (get16 r o') (get16 r (o' + 2))"

definition put32 :: "nat \<Rightarrow> u32 \<Rightarrow> (nat \<Rightarrow> byte) \<Rightarrow> (nat \<Rightarrow> byte)" where
  "put32 o' v r = put16 (o' + 2) (hi16 v) (put16 o' (lo16 v) r)"

definition put8 :: "nat \<Rightarrow> byte \<Rightarrow> (nat \<Rightarrow> byte) \<Rightarrow> (nat \<Rightarrow> byte)" where
  "put8 o' v r = r(o' := v)"

lemmas put_defs = put8_def put16_def put32_def

lemma get_put [simp, layout_simps]:
  "get16 (put16 o' v r) o' = v" "get32 (put32 o' w r) o' = w" "put8 o' b r o' = b"
  by (simp_all add: get16_def put16_def get32_def put32_def put8_def)

lemma length_hslice [simp]: "length (hslice r a b) = b - a"
  by (simp add: hslice_def)

lemma hslice_split: "a \<le> b \<Longrightarrow> b \<le> c \<Longrightarrow> hslice r a c = hslice r a b @ hslice r b c"
  using upt_add_eq_append [of a b "c - b"] by (simp add: hslice_def)

lemma hslice_cong: "(\<And>i. a \<le> i \<Longrightarrow> i < b \<Longrightarrow> r i = r' i) \<Longrightarrow> hslice r a b = hslice r' a b"
  by (simp add: hslice_def)

text \<open>The bytes between two pointers of a buffer, \<open>payload\<close> being the string the \<open>User\<close>
  pointers point into.\<close>

definition span :: "FrameBuf \<Rightarrow> byte list \<Rightarrow> ptr \<Rightarrow> ptr \<Rightarrow> byte list res" where
  "span fb payload b e = (case (b, e) of
       (Raw m, Raw n) \<Rightarrow> if m \<le> n \<and> n \<le> maxRawBytesSize then Inr (hslice (rawBytes fb) m n) else Inl OutOfBounds
     | (User m, User n) \<Rightarrow> if m \<le> n \<and> n \<le> length payload then Inr (take (n - m) (drop m payload)) else Inl OutOfBounds
     | _ \<Rightarrow> Inl OutOfBounds)"

text \<open>\<open>drain_skbuf_chain\<close> of src/veloxd/arbiter/RpcDispatch.cpp: the payload of a chain.\<close>

fun drain_skbuf_chain :: "chain \<Rightarrow> byte list res" where
  "drain_skbuf_chain [] = Inr []"
| "drain_skbuf_chain (fb # fbs) =
     bindr (ptr_diff (user_payload_end fb) (user_payload_begin fb)) (\<lambda>len.
     bindr (if len > 0 then span fb [] (user_payload_begin fb) (user_payload_end fb) else Inr []) (\<lambda>bs.
     bindr (drain_skbuf_chain fbs) (\<lambda>rest. Inr (bs @ rest))))"

end
