(* ===== verification/Rpc_Schema.thy ===== *)
theory Rpc_Schema
  imports Velox_Prelude
begin

section \<open>The messages between interceptor and daemon (src/rpc)\<close>

text \<open>
  The \<open>Request\<close> and \<open>Response\<close> schema of src/rpc/proto, as the structs of
  src/rpc/c_out have it: a \<open>oneof\<close> is a datatype with one constructor per case and one for
  "not set", an \<open>optional\<close> field is an option. A C++ \<open>Response\<close> under construction may
  still lack the required \<open>retCode\<close>, hence the option there; \<open>IsInitialized\<close> says
  whether it has been set. The required fields of the nested messages, which the generated \<open>IsInitialized\<close> looks at too, are always set
  by the daemon's code and are plain fields here. Packing and unpacking are parameters of the theories that use them, until
  Wire_System fills them with the generated code.
\<close>

subsection \<open>Limits (src/rpc/rpc.h)\<close>

definition RPC_MESSAGE_MAX_SIZE :: nat where
  "RPC_MESSAGE_MAX_SIZE = 81920"

subsection \<open>Requests\<close>

datatype calling =
    CallingNotSet
  | CallSocket int int int              \<comment> \<open>domain, type, protocol\<close>
  | CallConnect "byte list"             \<comment> \<open>addr\<close>
  | CallClose
  | CallRecvfrom int int bool           \<comment> \<open>len, flags, requireAddr\<close>
  | CallSendto "byte list" int "byte list option"  \<comment> \<open>buf, flags, addr\<close>
  | CallPoll
  | CallSelect
  | CallGetpeername
  | CallGetsockname
  | CallGetsockopt
  | CallSetsockopt
  | CallFcntl
  | ActionAtstart string                \<comment> \<open>progname\<close>

record Request =
  req_pid :: nat
  req_calling :: calling

subsection \<open>Responses\<close>

datatype RetCode = RC_OK | RC_ERROR | RC_WAIT_NEXT

text \<open>The fields \<open>ret\<close> and \<open>errno_\<close> that every call's answer has.\<close>

record call_ret =
  ret :: int
  errno' :: "int option"

record recvfrom_ret = call_ret +
  buf' :: "byte list option"
  addr' :: "byte list option"

record name_ret = call_ret +
  name' :: "byte list option"           \<comment> \<open>\<open>peername\<close>, \<open>sockanme\<close>\<close>

datatype returning =
    ReturningNotSet
  | RetSocket call_ret
  | RetConnect call_ret
  | RetClose call_ret
  | RetRecvfrom recvfrom_ret
  | RetSendto call_ret
  | RetPoll call_ret
  | RetSelect call_ret
  | RetGetpeername name_ret
  | RetGetsockname name_ret
  | RetGetsockopt call_ret
  | RetSetsockopt call_ret
  | RetFcntl call_ret
  | RetAtstart int "int option"         \<comment> \<open>startfd, count\<close>

record Response =
  retcode :: "RetCode option"
  returning :: returning

text \<open>\<open>make_shared<Response>()\<close>: nothing set.\<close>

definition Response_new :: Response where
  "Response_new = \<lparr>retcode = None, returning = ReturningNotSet\<rparr>"

definition IsInitialized :: "Response \<Rightarrow> bool" where
  "IsInitialized r \<longleftrightarrow> retcode r \<noteq> None"

text \<open>
  Which answer belongs to which call: the field numbers of the two \<open>oneof\<close>s agree
  (\<open>REQUEST__CALLING_...\<close> and \<open>RESPONSE__RETURNING_...\<close>).
\<close>

fun calling_case :: "calling \<Rightarrow> nat" where
  "calling_case CallingNotSet = 0"
| "calling_case (CallSocket _ _ _) = 1"
| "calling_case (CallConnect _) = 2"
| "calling_case CallClose = 3"
| "calling_case (CallRecvfrom _ _ _) = 4"
| "calling_case (CallSendto _ _ _) = 5"
| "calling_case CallPoll = 6"
| "calling_case CallSelect = 7"
| "calling_case CallGetpeername = 8"
| "calling_case CallGetsockname = 9"
| "calling_case CallGetsockopt = 10"
| "calling_case CallSetsockopt = 11"
| "calling_case CallFcntl = 12"
| "calling_case (ActionAtstart _) = 16"

fun returning_case :: "returning \<Rightarrow> nat" where
  "returning_case ReturningNotSet = 0"
| "returning_case (RetSocket _) = 1"
| "returning_case (RetConnect _) = 2"
| "returning_case (RetClose _) = 3"
| "returning_case (RetRecvfrom _) = 4"
| "returning_case (RetSendto _) = 5"
| "returning_case (RetPoll _) = 6"
| "returning_case (RetSelect _) = 7"
| "returning_case (RetGetpeername _) = 8"
| "returning_case (RetGetsockname _) = 9"
| "returning_case (RetGetsockopt _) = 10"
| "returning_case (RetSetsockopt _) = 11"
| "returning_case (RetFcntl _) = 12"
| "returning_case (RetAtstart _ _) = 16"

subsection \<open>Socket addresses\<close>

text \<open>
  \<open>struct sockaddr_in\<close> travels as its 16 bytes: family, port and address as they lie in
  memory, then eight bytes of padding.
\<close>

record sockaddr_in =
  sin_family :: u16
  sin_port :: u16
  sin_addr :: u32
  sin_zero :: "byte list"

definition AF_INET :: int where
  "AF_INET = 2"

definition sockaddr_in_size :: nat where
  "sockaddr_in_size = 16"

definition sockaddr_bytes :: "sockaddr_in \<Rightarrow> byte list" where
  "sockaddr_bytes a =
     [lo8 (sin_family a), hi8 (sin_family a), lo8 (sin_port a), hi8 (sin_port a),
      lo8 (lo16 (sin_addr a)), hi8 (lo16 (sin_addr a)),
      lo8 (hi16 (sin_addr a)), hi8 (hi16 (sin_addr a))] @ sin_zero a"

text \<open>\<open>memcpy(&addr, bytes, sizeof(struct sockaddr_in))\<close>: shorter input is read past its end.\<close>

fun sockaddr_of_bytes :: "byte list \<Rightarrow> sockaddr_in res" where
  "sockaddr_of_bytes (f0 # f1 # p0 # p1 # a0 # a1 # a2 # a3 # zs) =
     (if length zs < 8 then Inl OutOfBounds
      else Inr \<lparr>sin_family = le16 f0 f1, sin_port = le16 p0 p1,
        sin_addr = le32 (le16 a0 a1) (le16 a2 a3), sin_zero = take 8 zs\<rparr>)"
| "sockaddr_of_bytes _ = Inl OutOfBounds"

lemma sockaddr_round_trip [simp]:
  "length (sin_zero a) = 8 \<Longrightarrow> sockaddr_of_bytes (sockaddr_bytes a) = Inr a"
  by (simp add: sockaddr_bytes_def)

lemma length_sockaddr_bytes [simp]: "length (sockaddr_bytes a) = 8 + length (sin_zero a)"
  by (simp add: sockaddr_bytes_def)

lemma sockaddr_of_bytes_Inr_iff:
  "(\<exists>a. sockaddr_of_bytes bs = Inr a) \<longleftrightarrow> sockaddr_in_size \<le> length bs"
proof -
  have "\<exists>f0 f1 p0 p1 a0 a1 a2 a3 zs. bs = f0 # f1 # p0 # p1 # a0 # a1 # a2 # a3 # zs"
    if "8 \<le> length bs"
    using that by (auto simp: numeral_eq_Suc Suc_le_length_iff)
  then show ?thesis
    by (cases bs rule: sockaddr_of_bytes.cases) (auto simp: sockaddr_in_size_def)
qed

lemma sockaddr_of_bytes_prefix:
  "sockaddr_in_size \<le> length bs \<Longrightarrow>
   map_sum id sockaddr_bytes (sockaddr_of_bytes bs) = Inr (take sockaddr_in_size bs)"
  by (cases bs rule: sockaddr_of_bytes.cases)
    (auto simp: sockaddr_in_size_def sockaddr_bytes_def)

end
