(* ===== verification/Endpoint_Queue.thy ===== *)
theory Endpoint_Queue
  imports Frame_Buf Rpc_Schema
begin

section \<open>Endpoints (src/veloxd/arbiter/Endpoint.h, Endpoint.cpp)\<close>

text \<open>
  An endpoint is the daemon's side of one socket: the queue of received packets, the pipe whose
  readability tells the event loop about new ones, and whether a process waits for one. Other
  objects are referred to by number. The receive queue is a \<open>BlockingConcurrentQueue\<close> with
  one producer (the IP thread) and one consumer (the event loop), for which that library
  promises first-in first-out order: here a list. An address nobody filled in is \<open>None\<close>.

  The locale \<open>recv_queue\<close> is the contract of the queue, interpreted on the operations of the
  endpoint. The second half is the wake-up protocol between the two threads as a step relation.
\<close>

datatype ep_type = EP_UDP | EP_TCP

text \<open>The functions ever registered for new packets, with what \<open>std::bind\<close> captured.\<close>

datatype async_cb = OnAsyncNewUdpPacket nat bool | OnAsyncNewTcpPacket nat

type_synonym packet = "sockaddr_in option \<times> chain"

record Endpoint =
  ep_type :: ep_type
  ep_nonblocking :: bool
  ep_pipe :: nat
  ep_waiting :: bool
  ep_onAsyncNewPacket :: "async_cb option"
  ep_rrChannel :: "nat option"
  ep_pcb :: "nat option"
  ep_recvQ :: "packet list"

definition recvQlimit :: nat where "recvQlimit = 128"

text \<open>What a Linux pipe holds before a non-blocking write fails.\<close>

definition pipe_capacity :: nat where "pipe_capacity = 65536"

definition Endpoint_new :: "ep_type \<Rightarrow> bool \<Rightarrow> Endpoint" where
  "Endpoint_new t isnonblocking = \<lparr>ep_type = t, ep_nonblocking = isnonblocking, ep_pipe = 0, ep_waiting = False,
     ep_onAsyncNewPacket = None, ep_rrChannel = None, ep_pcb = None, ep_recvQ = []\<rparr>"

definition setWaiting :: "bool \<Rightarrow> Endpoint \<Rightarrow> Endpoint" where
  "setWaiting v e = e\<lparr>ep_waiting := v\<rparr>"

definition setOnAsyncNewPacketCB :: "async_cb \<Rightarrow> Endpoint \<Rightarrow> Endpoint" where
  "setOnAsyncNewPacketCB cb e = e\<lparr>ep_onAsyncNewPacket := Some cb\<rparr>"

definition setAgentChannel :: "nat \<Rightarrow> Endpoint \<Rightarrow> Endpoint" where
  "setAgentChannel ch e = e\<lparr>ep_rrChannel := Some ch\<rparr>"

definition setSession :: "nat \<Rightarrow> Endpoint \<Rightarrow> Endpoint" where
  "setSession p e = e\<lparr>ep_pcb := Some p\<rparr>"

definition markSChannelAsReadable :: "Endpoint \<Rightarrow> Endpoint" where
  "markSChannelAsReadable e = (if ep_pipe e < pipe_capacity then e\<lparr>ep_pipe := ep_pipe e + 1\<rparr> else e)"

text \<open>The first half of \<open>putToRecvQ\<close>, up to the notification.\<close>

definition enqueue :: "packet \<Rightarrow> Endpoint \<Rightarrow> Endpoint" where
  "enqueue p e = e\<lparr>ep_recvQ := ep_recvQ e @ [p]\<rparr>"

definition putToRecvQ :: "packet \<Rightarrow> Endpoint \<Rightarrow> Endpoint" where
  "putToRecvQ p e = (if length (ep_recvQ e) > recvQlimit then e else markSChannelAsReadable (enqueue p e))"

definition try_takeFromRecvQ :: "Endpoint \<Rightarrow> packet option \<times> Endpoint" where
  "try_takeFromRecvQ e = (case ep_recvQ e of [] \<Rightarrow> (None, e) | p # ps \<Rightarrow> (Some p, e\<lparr>ep_recvQ := ps\<rparr>))"

text \<open>\<open>wait_dequeue\<close> blocks the calling thread while the queue is empty.\<close>

definition takeFromRecvQ :: "Endpoint \<Rightarrow> (packet \<times> Endpoint) res" where
  "takeFromRecvQ e = (case ep_recvQ e of [] \<Rightarrow> Inl WouldBlock | p # ps \<Rightarrow> Inr (p, e\<lparr>ep_recvQ := ps\<rparr>))"

text \<open>\<open>sChannelReadCb\<close> around the callback: the reads that empty the pipe, whether the callback
  is called, and the assignment after it.\<close>

definition drain_pipe :: "Endpoint \<Rightarrow> Endpoint" where
  "drain_pipe e = e\<lparr>ep_pipe := 0\<rparr>"

definition calls_back :: "Endpoint \<Rightarrow> async_cb option" where
  "calls_back e = (if ep_waiting e then ep_onAsyncNewPacket e else None)"

subsection \<open>The contract of the queue\<close>

text \<open>What senders and receivers rely on: a put appends or drops, a take removes the front.\<close>

locale recv_queue =
  fixes contents :: "'q \<Rightarrow> 'a list"
    and put :: "'a \<Rightarrow> 'q \<Rightarrow> 'q"
    and take_front :: "'q \<Rightarrow> 'a option \<times> 'q"
    and room :: "'q \<Rightarrow> bool"
  assumes put_contents: "contents (put x q) = (if room q then contents q @ [x] else contents q)"
    and take_contents: "take_front q = (y, q') \<Longrightarrow>
       contents q = (case y of None \<Rightarrow> [] | Some x \<Rightarrow> [x]) @ contents q'"
    and take_some: "contents q \<noteq> [] \<Longrightarrow> fst (take_front q) \<noteq> None"
begin

text \<open>A run of puts (\<open>Some x\<close>) and takes (\<open>None\<close>): what was accepted and what was taken.\<close>

fun run :: "'a option list \<Rightarrow> 'q \<Rightarrow> 'a list \<times> 'a list \<times> 'q" where
  "run [] q = ([], [], q)"
| "run (Some x # ops) q =
     (case run ops (put x q) of (ac, tk, q') \<Rightarrow> (if room q then x # ac else ac, tk, q'))"
| "run (None # ops) q =
     (case take_front q of (y, q1) \<Rightarrow> case run ops q1 of (ac, tk, q') \<Rightarrow>
        (ac, (case y of None \<Rightarrow> [] | Some x \<Rightarrow> [x]) @ tk, q'))"

lemma fifo: "run ops q = (ac, tk, q') \<Longrightarrow> contents q @ ac = tk @ contents q'"
proof (induction ops q arbitrary: ac tk q' rule: run.induct)
  case (2 x ops q)
  obtain ac1 where r: "run ops (put x q) = (ac1, tk, q')" "ac = (if room q then x # ac1 else ac1)"
    using 2(2) by (auto split: prod.splits)
  then show ?case using 2(1) [OF r(1)] put_contents [of x q] by (auto split: if_splits)
next
  case (3 ops q)
  obtain y q1 where t: "take_front q = (y, q1)" by fastforce
  obtain tk1 where r: "run ops q1 = (ac, tk1, q')" "tk = (case y of None \<Rightarrow> [] | Some x \<Rightarrow> [x]) @ tk1"
    using 3(2) t by (auto split: prod.splits)
  then show ?case using 3(1) [OF t [symmetric] r(1)] take_contents [OF t] by simp
qed simp

end

interpretation epq: recv_queue ep_recvQ putToRecvQ try_takeFromRecvQ "\<lambda>e. length (ep_recvQ e) \<le> recvQlimit"
  by unfold_locales (auto simp: putToRecvQ_def enqueue_def markSChannelAsReadable_def try_takeFromRecvQ_def
      split: list.splits)

subsection \<open>The bound of the queue\<close>

definition ep_bounded :: "Endpoint \<Rightarrow> bool" where
  "ep_bounded e \<longleftrightarrow> length (ep_recvQ e) \<le> recvQlimit + 1"

lemma ep_bounded_put: "ep_bounded e \<Longrightarrow> ep_bounded (putToRecvQ p e)"
  by (simp add: ep_bounded_def epq.put_contents)

lemma ep_bounded_take: "ep_bounded e \<Longrightarrow> try_takeFromRecvQ e = (y, e') \<Longrightarrow> ep_bounded e'"
  using epq.take_contents [of e y e'] by (auto simp: ep_bounded_def)

lemma ep_bounded_run: "ep_bounded e \<Longrightarrow> epq.run ops e = (ac, tk, e') \<Longrightarrow> ep_bounded e'"
proof (induction ops e arbitrary: ac tk rule: epq.run.induct)
  case (2 x ops q)
  then show ?case by (auto simp: ep_bounded_put split: prod.splits)
next
  case (3 ops q)
  obtain y q1 where t: "try_takeFromRecvQ q = (y, q1)" by fastforce
  show ?case using 3(1) [OF t [symmetric] ep_bounded_take [OF 3(2) t]] 3(3) t by (auto split: prod.splits)
qed simp

text \<open>The receive queue of a socket: over any sequence of arriving packets and takes, what was
  taken followed by what is still queued is exactly what was accepted, in the order of arrival -
  nothing is lost, duplicated or reordered once accepted. The queue never holds more than 129
  packets: the test \<open>size > 128\<close> lets one more in than the limit.\<close>

theorem endpoint_fifo:
  assumes "epq.run ops (Endpoint_new t nb) = (accepted, taken, e)"
  shows "taken @ ep_recvQ e = accepted \<and> length (ep_recvQ e) \<le> recvQlimit + 1"
  using epq.fifo [OF assms] ep_bounded_run [OF _ assms] by (simp add: Endpoint_new_def ep_bounded_def)

theorem endpoint_fifo_witness:
  "fst (snd (epq.run [Some (None, []), Some (None, [FrameBuf_new]), None] (Endpoint_new EP_UDP False))) = [(None, [])] \<and>
   ep_recvQ (snd (snd (epq.run [Some (None, []), Some (None, [FrameBuf_new]), None] (Endpoint_new EP_UDP False)))) =
     [(None, [FrameBuf_new])]"
proof -
  obtain ac tk e where r: "epq.run [Some (None, []), Some (None, [FrameBuf_new]), None] (Endpoint_new EP_UDP False) =
      (ac, tk, e)"
    by (metis prod_cases3)
  have one: "1 \<le> recvQlimit" "\<not> recvQlimit < 1" by (simp_all add: recvQlimit_def)
  have tk: "tk = [(None, [])]" and ac: "ac = [(None, []), (None, [FrameBuf_new])]"
    using r one by (auto simp: putToRecvQ_def enqueue_def markSChannelAsReadable_def try_takeFromRecvQ_def
        Endpoint_new_def pipe_capacity_def)
  show ?thesis using endpoint_fifo [OF r] unfolding r tk ac by simp
qed

end
