(* ===== verification/Wakeup.thy ===== *)
theory Wakeup
  imports Endpoint_Queue
begin

section \<open>Waking up a blocked receive (Endpoint.cpp and RpcDispatch.cpp: recvfromCall, onAsyncNew...Packet)\<close>

text \<open>
  Two threads work on an endpoint: the IP thread runs \<open>putToRecvQ\<close>, the event loop runs the
  receive requests and, when the notification pipe is readable, \<open>sChannelReadCb\<close>. A step is
  one access to the shared queue, the pipe or the flags; \<open>ip_pc\<close> and \<open>ev_pc\<close> say how far
  each thread has got. Nothing locks them against each other.
\<close>

datatype ip_pc =
    IpIdle
  | IpPut packet     \<comment> \<open>\<open>putToRecvQ\<close> has passed the size test\<close>
  | IpMark           \<comment> \<open>and enqueued the packet\<close>

datatype ev_pc =
    EvIdle
  | EvEmpty async_cb \<comment> \<open>\<open>recvfromCall\<close> found the queue empty, at \<open>wait_next\<close>\<close>
  | EvDrained        \<comment> \<open>\<open>sChannelReadCb\<close> has emptied the pipe\<close>
  | EvTake           \<comment> \<open>the callback is in \<open>takeFromRecvQ\<close>\<close>

record wake =
  w_ep :: Endpoint
  w_ip :: ip_pc
  w_ev :: ev_pc

inductive wake_step :: "wake \<Rightarrow> wake \<Rightarrow> bool" where
  ip_check: "w_ip w = IpIdle \<Longrightarrow> \<not> length (ep_recvQ (w_ep w)) > recvQlimit \<Longrightarrow> wake_step w (w\<lparr>w_ip := IpPut p\<rparr>)"
| ip_enqueue: "w_ip w = IpPut p \<Longrightarrow> wake_step w (w\<lparr>w_ep := enqueue p (w_ep w), w_ip := IpMark\<rparr>)"
| ip_mark: "w_ip w = IpMark \<Longrightarrow> wake_step w (w\<lparr>w_ep := markSChannelAsReadable (w_ep w), w_ip := IpIdle\<rparr>)"
| ev_recv: "w_ev w = EvIdle \<Longrightarrow> try_takeFromRecvQ (w_ep w) = (Some p, e) \<Longrightarrow> wake_step w (w\<lparr>w_ep := e\<rparr>)"
| ev_empty: "w_ev w = EvIdle \<Longrightarrow> \<not> ep_nonblocking (w_ep w) \<Longrightarrow> try_takeFromRecvQ (w_ep w) = (None, e) \<Longrightarrow>
    wake_step w (w\<lparr>w_ev := EvEmpty cb\<rparr>)"
| ev_wait: "w_ev w = EvEmpty cb \<Longrightarrow>
    wake_step w (w\<lparr>w_ep := setWaiting True (setOnAsyncNewPacketCB cb (w_ep w)), w_ev := EvIdle\<rparr>)"
| ev_readable: "w_ev w = EvIdle \<Longrightarrow> 0 < ep_pipe (w_ep w) \<Longrightarrow>
    wake_step w (w\<lparr>w_ep := drain_pipe (w_ep w), w_ev := EvDrained\<rparr>)"
| ev_ignore: "w_ev w = EvDrained \<Longrightarrow> calls_back (w_ep w) = None \<Longrightarrow>
    wake_step w (w\<lparr>w_ep := setWaiting False (w_ep w), w_ev := EvIdle\<rparr>)"
| ev_call: "w_ev w = EvDrained \<Longrightarrow> calls_back (w_ep w) = Some cb \<Longrightarrow> wake_step w (w\<lparr>w_ev := EvTake\<rparr>)"
| ev_take: "w_ev w = EvTake \<Longrightarrow> takeFromRecvQ (w_ep w) = Inr (p, e) \<Longrightarrow>
    wake_step w (w\<lparr>w_ep := setWaiting False e, w_ev := EvIdle\<rparr>)"

definition wake_init :: "wake \<Rightarrow> bool" where
  "wake_init w \<longleftrightarrow> (\<exists>t nb. w = \<lparr>w_ep = Endpoint_new t nb, w_ip = IpIdle, w_ev = EvIdle\<rparr>)"

interpretation wakeup: transition_system wake_init wake_step .

text \<open>Whoever waits, or is about to, while a packet is queued has a notification coming.\<close>

definition expects :: "wake \<Rightarrow> bool" where
  "expects w \<longleftrightarrow> (case w_ev w of EvIdle \<Rightarrow> ep_waiting (w_ep w) | EvEmpty cb \<Rightarrow> True | _ \<Rightarrow> False)"

definition wake_inv :: "wake \<Rightarrow> bool" where
  "wake_inv w \<longleftrightarrow>
     (expects w \<and> ep_recvQ (w_ep w) \<noteq> [] \<longrightarrow> 0 < ep_pipe (w_ep w) \<or> w_ip w = IpMark) \<and>
     (ep_waiting (w_ep w) \<longrightarrow> ep_onAsyncNewPacket (w_ep w) \<noteq> None)"

lemmas wake_defs = enqueue_def markSChannelAsReadable_def try_takeFromRecvQ_def takeFromRecvQ_def setWaiting_def
  setOnAsyncNewPacketCB_def drain_pipe_def calls_back_def pipe_capacity_def

lemma wake_inv_init: "wake_init w \<Longrightarrow> wake_inv w"
  by (auto simp: wake_init_def wake_inv_def Endpoint_new_def expects_def)

lemma wake_inv_step:
  assumes "wake_inv w" "wake_step w w'"
  shows "wake_inv w'"
  using assms(2,1)
  by (cases rule: wake_step.cases)
    (auto simp: wake_inv_def wake_defs expects_def split: list.splits ev_pc.splits if_splits)

lemma wake_reachable_inv: "wakeup.reachable w \<Longrightarrow> wake_inv w"
  by (rule wakeup.invariant) (auto intro: wake_inv_init wake_inv_step)

lemma wake_steps_intro: "wake_step w w1 \<Longrightarrow> wake_step\<^sup>*\<^sup>* w1 w2 \<Longrightarrow> wake_step\<^sup>*\<^sup>* w w2"
  by (rule converse_rtranclp_into_rtranclp)

text \<open>Delivery, once the pipe is readable.\<close>

lemma delivers:
  assumes "wake_inv w" "w_ev w = EvIdle" "ep_waiting (w_ep w)" "ep_recvQ (w_ep w) = p # ps" "0 < ep_pipe (w_ep w)"
  shows "\<exists>w'. wake_step\<^sup>*\<^sup>* w w' \<and> w_ev w' = EvIdle \<and> \<not> ep_waiting (w_ep w') \<and> ep_recvQ (w_ep w') = ps"
proof -
  let ?w1 = "w\<lparr>w_ep := drain_pipe (w_ep w), w_ev := EvDrained\<rparr>"
  let ?w2 = "?w1\<lparr>w_ev := EvTake\<rparr>"
  let ?e = "(w_ep ?w2)\<lparr>ep_recvQ := ps\<rparr>"
  let ?w3 = "?w2\<lparr>w_ep := setWaiting False ?e, w_ev := EvIdle\<rparr>"
  obtain cb where cb: "calls_back (w_ep ?w1) = Some cb"
    using assms(1,3) by (auto simp: wake_inv_def wake_defs)
  have "wake_step w ?w1" using assms by (intro ev_readable)
  moreover have "wake_step ?w1 ?w2" using cb by (intro ev_call) simp_all
  moreover have "wake_step ?w2 ?w3" using assms(4) by (intro ev_take [of _ p]) (simp_all add: wake_defs)
  ultimately have "wake_step\<^sup>*\<^sup>* w ?w3" by (blast intro: wake_steps_intro)
  then show ?thesis by (intro exI [of _ ?w3]) (simp add: wake_defs)
qed

text \<open>(C12) No wake-up is lost: in every interleaving of the two threads, when a process waits for a
  packet and one is queued, the notification is in the pipe or the IP thread is about to write
  it, and the two threads can go on from there such that the packet at the front of the queue is delivered and the waiting ends.\<close>

theorem no_lost_wakeup:
  assumes "wakeup.reachable w" and "w_ev w = EvIdle" and "ep_waiting (w_ep w)" and "ep_recvQ (w_ep w) = p # ps"
  shows "(0 < ep_pipe (w_ep w) \<or> w_ip w = IpMark) \<and>
    (\<exists>w'. wake_step\<^sup>*\<^sup>* w w' \<and> w_ev w' = EvIdle \<and> \<not> ep_waiting (w_ep w') \<and> ep_recvQ (w_ep w') = ps)"
proof
  have inv: "wake_inv w" using wake_reachable_inv [OF assms(1)] .
  show n: "0 < ep_pipe (w_ep w) \<or> w_ip w = IpMark"
    using inv assms(2-4) by (simp add: wake_inv_def expects_def)
  show "\<exists>w'. wake_step\<^sup>*\<^sup>* w w' \<and> w_ev w' = EvIdle \<and> \<not> ep_waiting (w_ep w') \<and> ep_recvQ (w_ep w') = ps"
  proof (cases "0 < ep_pipe (w_ep w)")
    case True
    then show ?thesis using delivers [OF inv assms(2-4)] by blast
  next
    case False
    let ?w = "w\<lparr>w_ep := markSChannelAsReadable (w_ep w), w_ip := IpIdle\<rparr>"
    have s: "wake_step w ?w" using n False by (intro ip_mark) simp
    have "\<exists>w'. wake_step\<^sup>*\<^sup>* ?w w' \<and> w_ev w' = EvIdle \<and> \<not> ep_waiting (w_ep w') \<and> ep_recvQ (w_ep w') = ps"
      using assms(2-4) by (intro delivers [OF wake_inv_step [OF inv s]]) (simp_all add: wake_defs)
    then show ?thesis using wake_steps_intro [OF s] by blast
  qed
qed

text \<open>A run of the two threads: a process waits, then a packet arrives.\<close>

definition wake0 :: wake where
  "wake0 = \<lparr>w_ep = Endpoint_new EP_UDP False, w_ip = IpIdle, w_ev = EvIdle\<rparr>"

abbreviation cb0 :: async_cb where "cb0 \<equiv> OnAsyncNewUdpPacket 0 True"

definition waiting_ep :: "packet list \<Rightarrow> nat \<Rightarrow> Endpoint" where
  "waiting_ep q n = (Endpoint_new EP_UDP False)\<lparr>ep_waiting := True, ep_onAsyncNewPacket := Some cb0, ep_recvQ := q, ep_pipe := n\<rparr>"

lemma wake0_reachable: "wakeup.reachable wake0"
  by (rule wakeup.reach_init) (auto simp: wake_init_def wake0_def)

lemma reach_waiting:
  assumes "wakeup.reachable w" "w_ev w = EvIdle" "w_ep w = (Endpoint_new EP_UDP False)\<lparr>ep_pipe := n\<rparr>"
  shows "wakeup.reachable (w\<lparr>w_ep := waiting_ep [] n\<rparr>)"
proof -
  have "wakeup.reachable (w\<lparr>w_ev := EvEmpty cb0\<rparr>)"
    using assms by (intro wakeup.reach_step [OF assms(1)] ev_empty) (auto simp: wake_defs Endpoint_new_def)
  from wakeup.reach_step [OF this ev_wait [of _ cb0]] show ?thesis
    using assms(2,3) by (cases w) (auto simp: wake_defs Endpoint_new_def waiting_ep_def)
qed

lemma reach_queued:
  assumes "wakeup.reachable w" "w_ip w = IpIdle" "ep_recvQ (w_ep w) = []"
  shows "wakeup.reachable (w\<lparr>w_ep := (w_ep w)\<lparr>ep_recvQ := [p]\<rparr>, w_ip := IpMark\<rparr>)"
proof -
  have "wakeup.reachable (w\<lparr>w_ip := IpPut p\<rparr>)"
    using assms by (intro wakeup.reach_step [OF assms(1)] ip_check) (auto simp: recvQlimit_def)
  from wakeup.reach_step [OF this ip_enqueue [of _ p]] show ?thesis
    using assms(2,3) by (cases w) (auto simp: wake_defs)
qed

theorem no_lost_wakeup_witness:
  "\<exists>w'. wake_step\<^sup>*\<^sup>* \<lparr>w_ep = waiting_ep [(None, [])] 0, w_ip = IpMark, w_ev = EvIdle\<rparr> w' \<and>
     w_ev w' = EvIdle \<and> \<not> ep_waiting (w_ep w') \<and> ep_recvQ (w_ep w') = []"
proof -
  have "wakeup.reachable \<lparr>w_ep = waiting_ep [] 0, w_ip = IpIdle, w_ev = EvIdle\<rparr>"
    using reach_waiting [OF wake0_reachable, of 0] by (simp add: wake0_def Endpoint_new_def)
  from reach_queued [OF this, of "(None, [])"]
  have "wakeup.reachable \<lparr>w_ep = waiting_ep [(None, [])] 0, w_ip = IpMark, w_ev = EvIdle\<rparr>"
    by (simp add: waiting_ep_def Endpoint_new_def)
  from no_lost_wakeup [OF this, of "(None, [])" "[]"] show ?thesis
    by (simp add: waiting_ep_def)
qed

text \<open>(C40) The event loop can block: the notification of a packet stays in the pipe when the packet
  itself is taken by a receive request, and the next receive that has to wait is then called
  back at once, finds the queue empty and waits for a packet inside the event loop. A reachable
  state in which the only thread that can move is the IP thread - every step leaves the event
  loop where it is - so that no other process is served until this socket gets a packet.\<close>

theorem event_loop_blocks:
  "\<exists>w. wakeup.reachable w \<and> w_ev w = EvTake \<and> takeFromRecvQ (w_ep w) = Inl WouldBlock \<and>
     (\<forall>w'. wake_step w w' \<longleftrightarrow> (\<exists>p. w' = w\<lparr>w_ip := IpPut p\<rparr>))"
proof -
  let ?p = "(None, [])"
  let ?e = "(Endpoint_new EP_UDP False)\<lparr>ep_pipe := 1\<rparr>"
  let ?w = "\<lparr>w_ep = waiting_ep [] 0, w_ip = IpIdle, w_ev = EvTake\<rparr>"
  have "wakeup.reachable \<lparr>w_ep = ?e\<lparr>ep_recvQ := [?p]\<rparr>, w_ip = IpIdle, w_ev = EvIdle\<rparr>"
    using wakeup.reach_step [OF reach_queued [OF wake0_reachable, of ?p] ip_mark]
    by (simp add: wake0_def Endpoint_new_def wake_defs)
  from wakeup.reach_step [OF this ev_recv [of _ ?p "?e"]]
  have "wakeup.reachable \<lparr>w_ep = ?e, w_ip = IpIdle, w_ev = EvIdle\<rparr>"
    by (simp add: Endpoint_new_def wake_defs)
  from reach_waiting [OF this]
  have "wakeup.reachable \<lparr>w_ep = waiting_ep [] 1, w_ip = IpIdle, w_ev = EvIdle\<rparr>" by simp
  from wakeup.reach_step [OF this ev_readable]
  have "wakeup.reachable \<lparr>w_ep = waiting_ep [] 0, w_ip = IpIdle, w_ev = EvDrained\<rparr>"
    by (simp add: waiting_ep_def Endpoint_new_def wake_defs)
  from wakeup.reach_step [OF this ev_call [of _ cb0]]
  have "wakeup.reachable ?w"
    by (simp add: waiting_ep_def Endpoint_new_def wake_defs)
  moreover have "wake_step ?w w' \<Longrightarrow> \<exists>p. w' = ?w\<lparr>w_ip := IpPut p\<rparr>" for w'
    by (erule wake_step.cases) (auto simp: waiting_ep_def Endpoint_new_def wake_defs)
  moreover have "wake_step ?w (?w\<lparr>w_ip := IpPut p\<rparr>)" for p
    by (rule ip_check) (simp_all add: waiting_ep_def Endpoint_new_def recvQlimit_def)
  ultimately show ?thesis
    by (intro exI [of _ ?w] conjI allI iffI) (auto simp: takeFromRecvQ_def waiting_ep_def Endpoint_new_def)
qed

end
