(* ===== verification/Ip_Header.thy ===== *)
theory Ip_Header
  imports Frame_Buf
begin

unbundle bit_operations_syntax

section \<open>IPv4 headers and packet numbers (src/veloxd/ip/IpHdr.h, IpHdr.cpp)\<close>

text \<open>
  The fields of \<open>struct iphdr\<close> as accesses to the bytes at an offset, the predicates of
  \<open>IpHdrs\<close> on them, and the generator of identification numbers. Fields of more than one
  byte are in the order they lie in memory; the code swaps them with \<open>__be16_to_cpu\<close> where
  it wants their value.
\<close>

subsection \<open>Fields\<close>

definition ip_ihl :: "(nat \<Rightarrow> byte) \<Rightarrow> nat \<Rightarrow> nat" where
  "ip_ihl r o' = unat (r o' AND 15)"

definition ip_version :: "(nat \<Rightarrow> byte) \<Rightarrow> nat \<Rightarrow> nat" where
  "ip_version r o' = unat (drop_bit 4 (r o'))"

definition ip_tot_len :: "(nat \<Rightarrow> byte) \<Rightarrow> nat \<Rightarrow> u16" where
  "ip_tot_len r o' = get16 r (o' + 2)"

definition ip_id :: "(nat \<Rightarrow> byte) \<Rightarrow> nat \<Rightarrow> u16" where
  "ip_id r o' = get16 r (o' + 4)"

definition ip_frag_off :: "(nat \<Rightarrow> byte) \<Rightarrow> nat \<Rightarrow> u16" where
  "ip_frag_off r o' = get16 r (o' + 6)"

definition ip_protocol :: "(nat \<Rightarrow> byte) \<Rightarrow> nat \<Rightarrow> byte" where
  "ip_protocol r o' = r (o' + 9)"

definition ip_saddr :: "(nat \<Rightarrow> byte) \<Rightarrow> nat \<Rightarrow> u32" where
  "ip_saddr r o' = get32 r (o' + 12)"

definition ip_daddr :: "(nat \<Rightarrow> byte) \<Rightarrow> nat \<Rightarrow> u32" where
  "ip_daddr r o' = get32 r (o' + 16)"

lemmas ip_field_defs = ip_ihl_def ip_version_def ip_tot_len_def ip_id_def ip_frag_off_def
  ip_protocol_def ip_saddr_def ip_daddr_def

text \<open>\<open>iphdr->version = v\<close> and \<open>iphdr->ihl = v\<close> on the first byte.\<close>

definition put_version :: "nat \<Rightarrow> byte \<Rightarrow> (nat \<Rightarrow> byte) \<Rightarrow> (nat \<Rightarrow> byte)" where
  "put_version o' v r = r(o' := (r o' AND 15) OR push_bit 4 v)"

definition put_ihl :: "nat \<Rightarrow> byte \<Rightarrow> (nat \<Rightarrow> byte) \<Rightarrow> (nat \<Rightarrow> byte)" where
  "put_ihl o' v r = r(o' := (r o' AND 240) OR (v AND 15))"

subsection \<open>IpHdrs\<close>

definition IP_OFF_MASK :: u16 where "IP_OFF_MASK = 8191"

definition IP_MF_MASK :: u16 where "IP_MF_MASK = 8192"

definition hlen :: "(nat \<Rightarrow> byte) \<Rightarrow> nat \<Rightarrow> nat" where
  "hlen r o' = ip_ihl r o'"

definition isFrag :: "(nat \<Rightarrow> byte) \<Rightarrow> nat \<Rightarrow> bool" where
  "isFrag r o' = (let off = bswap16 (ip_frag_off r o') in
     \<not> (off AND IP_OFF_MASK = 0 \<and> off AND IP_MF_MASK = 0))"

definition moreFrag :: "(nat \<Rightarrow> byte) \<Rightarrow> nat \<Rightarrow> bool" where
  "moreFrag r o' \<longleftrightarrow> bswap16 (ip_frag_off r o') AND IP_MF_MASK \<noteq> 0"

datatype ProtocolX = P_IP | P_ICMP | P_IGMP | P_UDP | P_TCP

text \<open>The table \<open>protoxmap\<close> has 255 entries, so protocol 255 is past its end.\<close>

definition protocol :: "(nat \<Rightarrow> byte) \<Rightarrow> nat \<Rightarrow> ProtocolX res" where
  "protocol r o' = (let p = unat (ip_protocol r o') in
     if 255 \<le> p then Inl OutOfBounds
     else Inr (if p = 1 then P_ICMP else if p = 2 then P_IGMP else if p = 6 then P_TCP
               else if p = 17 then P_UDP else P_IP))"

definition checksum_ok :: "(nat \<Rightarrow> byte) option \<Rightarrow> bool" where
  "checksum_ok r \<longleftrightarrow> True"

subsection \<open>IpIdGenerator\<close>

text \<open>\<open>next\<close>: the identification in network order, and the counter afterwards.\<close>

definition ip_id_next :: "u16 \<Rightarrow> u16 \<times> u16" where
  "ip_id_next l = (let l0 = (if l = 65535 then 0 else l); l1 = l0 + 1 in (bswap16 l1, l1))"

text \<open>The first \<open>n\<close> identifications from a counter value.\<close>

fun ip_ids :: "nat \<Rightarrow> u16 \<Rightarrow> u16 list" where
  "ip_ids 0 l = []"
| "ip_ids (Suc n) l = (case ip_id_next l of (i, l') \<Rightarrow> i # ip_ids n l')"

lemma unat_ip_id_next: "unat (snd (ip_id_next l)) = unat l mod 65535 + 1"
proof (cases "l = 65535")
  case False
  then have "unat l \<noteq> 65535" by (simp add: word_eq_iff_unsigned [where ?'a = nat])
  then have "unat l < 65535" using unat_u16_less [of l] by simp
  then show ?thesis using False by (simp add: ip_id_next_def Let_def unat_word_ariths)
qed (simp add: ip_id_next_def)

lemma fst_ip_id_next: "fst (ip_id_next l) = bswap16 (snd (ip_id_next l))"
  by (simp add: ip_id_next_def Let_def)

lemma ip_ids_values:
  "map (\<lambda>i. unat (bswap16 i)) (ip_ids n l) = map (\<lambda>k. (unat l + k) mod 65535 + 1) [0..<n]"
proof (induction n arbitrary: l)
  case (Suc n)
  obtain i l' where il: "ip_id_next l = (i, l')" by fastforce
  then have l': "unat l' = unat l mod 65535 + 1" and i: "bswap16 i = l'"
    using unat_ip_id_next [of l] fst_ip_id_next [of l] by simp_all
  have "(unat l' + k) mod 65535 = (unat l + Suc k) mod 65535" for k
    unfolding l' by (metis add_Suc_right add_Suc Suc_eq_plus1 mod_add_left_eq)
  then show ?case
    using Suc.IH [of l'] l' i by (simp add: il upt_conv_Cons map_Suc_upt [symmetric] del: upt_Suc)
qed simp

subsection \<open>Properties\<close>

text \<open>Identification numbers: any 65535 consecutive packets carry pairwise different
  identifications, none of them zero, whatever the counter was - so fragments of two of them are
  never confused.\<close>

theorem ip_ids_distinct:
  assumes "n \<le> 65535"
  shows "distinct (ip_ids n l) \<and> 0 \<notin> set (ip_ids n l)"
proof -
  have "inj_on (\<lambda>k. (unat l + k) mod 65535 + 1) {0..<n}"
    using assms by (auto intro!: inj_onI dest: mod_shift_inj)
  then have "distinct (map (\<lambda>i. unat (bswap16 i)) (ip_ids n l))"
    by (simp add: ip_ids_values distinct_map)
  then have "distinct (ip_ids n l)" by (simp add: distinct_map)
  moreover have "0 \<notin> (\<lambda>i. unat (bswap16 i)) ` set (ip_ids n l)"
    using arg_cong [OF ip_ids_values [of n l], of set] by auto
  then have "0 \<notin> set (ip_ids n l)" by (auto simp: image_iff bswap16_def lo8_def hi8_def le16_def)
  ultimately show ?thesis by simp
qed

theorem ip_ids_distinct_witness: "distinct (ip_ids 3 65534) \<and> 0 \<notin> set (ip_ids 3 65534)"
  by (rule ip_ids_distinct) simp

end
