(* ===== verification/Ip_Tx.thy ===== *)
theory Ip_Tx
  imports Ip_Header Csum16
begin

section \<open>Sending (src/veloxd/ip/Ip.cpp: tx; interface/Interface.cpp: tx; interface/TunIface.cpp: tx)\<close>

text \<open>
  The way down: \<open>Ip::tx\<close> completes the header the transport layer started, the interface
  layer hands the buffer to the TUN device, which gathers headers and payload into one
  \<open>writev\<close>. The record \<open>net\<close> is what this part of the daemon keeps between packets:
  the identification counter, the port counters of the transport layers and (for the statements) every packet given to the device. A failed
  \<open>writev\<close> is only logged, so what the device does with a packet does not matter here.
\<close>

record net =
  ip_last :: u16
  tcp_port :: u16
  udp_port :: u16
  wire :: "byte list list"

subsection \<open>TunIface::tx\<close>

text \<open>The array \<open>buffers\<close> has 32 elements; each buffer of the chain takes two.\<close>

fun gather :: "nat \<Rightarrow> byte list \<Rightarrow> chain \<Rightarrow> byte list res" where
  "gather idx payload [] = Inr []"
| "gather idx payload (fb # fbs) =
     bindr (assertr (hdrs_begin fb \<noteq> Null \<and> hdrs_end fb \<noteq> Null \<and>
                     user_payload_begin fb \<noteq> Null \<and> user_payload_end fb \<noteq> Null)) (\<lambda>_.
     if 32 < idx + 2 then Inl OutOfBounds
     else
       bindr (span fb payload (hdrs_begin fb) (hdrs_end fb)) (\<lambda>hs.
       bindr (span fb payload (user_payload_begin fb) (user_payload_end fb)) (\<lambda>ps.
       bindr (gather (idx + 2) payload fbs) (\<lambda>rest. Inr (hs @ ps @ rest)))))"

definition tun_tx :: "chain \<Rightarrow> byte list \<Rightarrow> 'x net_scheme \<Rightarrow> 'x net_scheme res" where
  "tun_tx fbs payload s = bindr (gather 0 payload fbs) (\<lambda>bs. Inr (s\<lparr>wire := wire s @ [bs]\<rparr>))"

definition interface_tx :: "chain \<Rightarrow> byte list \<Rightarrow> 'x net_scheme \<Rightarrow> 'x net_scheme res" where
  "interface_tx fbs payload s = tun_tx fbs payload s"

subsection \<open>Ip::tx\<close>

definition ip_tx :: "FrameBuf \<Rightarrow> byte list \<Rightarrow> 'x net_scheme \<Rightarrow> 'x net_scheme res" where
  "ip_tx fb payload s =
     bindr (assertr (hdrs_begin fb \<noteq> Null \<and> hdrs_end fb \<noteq> Null)) (\<lambda>_.
     bindr (hdr_at (network_hdr fb)) (\<lambda>o'.
     let r1 = put_ihl o' (20 div 4) (put_version o' 4 (rawBytes fb));
         (i, l) = ip_id_next (ip_last s);
         r2 = put16 (o' + 4) i r1;
         r3 = put16 (o' + 10) (lo16 (checksum (hslice r2 o' (o' + ip_ihl r2 o' * 4)) 0)) r2
     in interface_tx [fb\<lparr>rawBytes := r3, user_payload_begin := User 0,
                         user_payload_end := User (length payload)\<rparr>] payload (s\<lparr>ip_last := l\<rparr>)))"

subsection \<open>What is sent\<close>

text \<open>The buffers the transport layers build: headers from offset 40, the IP header first.\<close>

definition tx_layout :: "FrameBuf \<Rightarrow> nat \<Rightarrow> bool" where
  "tx_layout fb n \<longleftrightarrow> hdrs_begin fb = Raw 40 \<and> network_hdr fb = Raw 40 \<and> hdrs_end fb = Raw (40 + n) \<and>
     20 \<le> n \<and> n \<le> 60"

text \<open>The header bytes as they leave: the given ones with version, length, identification and
  checksum filled in.\<close>

definition ip_header_out :: "(nat \<Rightarrow> byte) \<Rightarrow> nat \<Rightarrow> u16 \<Rightarrow> (nat \<Rightarrow> byte)" where
  "ip_header_out r o' i =
     (let r2 = put16 (o' + 4) i (r(o' := 69))
      in put16 (o' + 10) (lo16 (checksum (hslice r2 o' (o' + 20)) 0)) r2)"

lemma first_byte: "put_ihl o' 5 (put_version o' 4 r) = r(o' := 69)"
proof -
  have "((b AND 15 OR push_bit 4 4) AND 240 OR (5 AND 15)) = (69 :: byte)" for b
    by (rule bit_word_eqI) (auto simp: bit_simps numeral_eq_Suc less_Suc_eq)
  then show ?thesis by (simp add: put_ihl_def put_version_def fun_eq_iff)
qed

lemma ip_tx_eq:
  assumes "tx_layout fb n"
  shows "ip_tx fb payload s = Inr (s\<lparr>ip_last := snd (ip_id_next (ip_last s)), wire := wire s @
     [hslice (ip_header_out (rawBytes fb) 40 (fst (ip_id_next (ip_last s)))) 40 (40 + n) @ payload]\<rparr>)"
proof -
  have ihl: "ip_ihl (put16 44 i (r(40 := 69))) 40 * 4 = 20" for r i
    by (simp add: ip_ihl_def put16_def)
  show ?thesis
    using assms
    by (simp add: tx_layout_def ip_tx_def first_byte ihl ip_header_out_def interface_tx_def tun_tx_def
        span_def maxRawBytesSize_def Let_def split: prod.splits)
qed

subsection \<open>Valid packets\<close>

text \<open>The specification side: an unfragmented IPv4 packet without options whose length field is its
  length and whose header checksum verifies. \<open>pseudo_header\<close> is what RFC 768 and RFC 793 put before a
  segment when its checksum is computed.\<close>

definition addr_bytes :: "u32 \<Rightarrow> byte list" where
  "addr_bytes a = [lo8 (lo16 a), hi8 (lo16 a), lo8 (hi16 a), hi8 (hi16 a)]"

definition be16_bytes :: "u16 \<Rightarrow> byte list" where
  "be16_bytes v = [hi8 v, lo8 v]"

definition pseudo_header :: "u32 \<Rightarrow> u32 \<Rightarrow> byte \<Rightarrow> nat \<Rightarrow> byte list" where
  "pseudo_header src dst proto len = addr_bytes src @ addr_bytes dst @ [0, proto] @ be16_bytes (of_nat len)"

definition valid_ip_packet :: "byte \<Rightarrow> u32 \<Rightarrow> u32 \<Rightarrow> byte list \<Rightarrow> bool" where
  "valid_ip_packet proto src dst pkt \<longleftrightarrow>
     20 \<le> length pkt \<and> length pkt < 65536 \<and> pkt ! 0 = 69 \<and>
     [pkt ! 2, pkt ! 3] = be16_bytes (of_nat (length pkt)) \<and> [pkt ! 6, pkt ! 7] = [0, 0] \<and> pkt ! 9 = proto \<and>
     take 4 (drop 12 pkt) = addr_bytes src \<and> take 4 (drop 16 pkt) = addr_bytes dst \<and>
     lo16 (checksum (take 20 pkt) 0) = 0"

definition ip_header_bytes :: "u16 \<Rightarrow> u16 \<Rightarrow> byte \<Rightarrow> byte \<Rightarrow> u16 \<Rightarrow> u32 \<Rightarrow> u32 \<Rightarrow> byte list" where
  "ip_header_bytes len i ttl proto c src dst =
     [69, 0] @ be16_bytes len @ [lo8 i, hi8 i, 0, 0, ttl, proto, lo8 c, hi8 c] @ addr_bytes src @ addr_bytes dst"

lemma wsum_ip_header:
  "wsum (ip_header_bytes len i ttl proto c src dst) = wsum (ip_header_bytes len i ttl proto 0 src dst) + unat c"
  by (simp add: ip_header_bytes_def addr_bytes_def be16_bytes_def unat_le16 unat_lo8 unat_hi8)

lemma ip_header_valid:
  assumes "c = lo16 (checksum (ip_header_bytes len i ttl proto 0 src dst) 0)"
  shows "lo16 (checksum (ip_header_bytes len i ttl proto c src dst) 0) = 0"
proof (rule checksum_fill [OF _ assms])
  have "length (ip_header_bytes len i ttl proto 0 src dst) = 20"
    by (simp add: ip_header_bytes_def addr_bytes_def be16_bytes_def)
  then show "unat (0 :: u32) + wsum (ip_header_bytes len i ttl proto 0 src dst) + 65535 < 4294967296"
    using wsum_bound [of "ip_header_bytes len i ttl proto 0 src dst"] by simp
qed (simp add: wsum_ip_header [of _ _ _ _ c])

lemma length_ip_header_bytes [simp]: "length (ip_header_bytes len i ttl proto c src dst) = 20"
  by (simp add: ip_header_bytes_def addr_bytes_def be16_bytes_def)

lemma ip_header_out_bytes:
  assumes "hslice r 40 60 = [x, 0] @ be16_bytes len @ [a, b, 0, 0, ttl, proto, 0, 0] @ addr_bytes src @ addr_bytes dst"
  shows "\<exists>c. hslice (ip_header_out r 40 i) 40 60 = ip_header_bytes len i ttl proto c src dst \<and>
    lo16 (checksum (ip_header_bytes len i ttl proto c src dst) 0) = 0"
proof -
  let ?r2 = "put16 44 i (r(40 := 69))"
  have "hslice ?r2 40 60 = ip_header_bytes len i ttl proto 0 src dst"
    using assms by (simp add: hslice_def put16_def ip_header_bytes_def addr_bytes_def be16_bytes_def lo8_def hi8_def)
  then have "hslice (ip_header_out r 40 i) 40 60 =
      ip_header_bytes len i ttl proto (lo16 (checksum (ip_header_bytes len i ttl proto 0 src dst) 0)) src dst"
    using assms by (simp add: hslice_def put16_def ip_header_bytes_def addr_bytes_def be16_bytes_def
        ip_header_out_def Let_def)
  then show ?thesis using ip_header_valid [OF refl] by blast
qed

lemma ip_header_out_rest: "60 \<le> a \<Longrightarrow> hslice (ip_header_out r 40 i) a b = hslice r a b"
  by (rule hslice_cong) (simp add: ip_header_out_def put16_def Let_def)

lemma valid_ip_packetI:
  assumes "lo16 (checksum (ip_header_bytes (of_nat (20 + length rest)) i ttl proto c src dst) 0) = 0"
    "length rest < 65516"
  shows "valid_ip_packet proto src dst (ip_header_bytes (of_nat (20 + length rest)) i ttl proto c src dst @ rest)"
  using assms
  by (simp add: valid_ip_packet_def) (simp add: ip_header_bytes_def addr_bytes_def be16_bytes_def)

end
