(* ===== verification/Sessions.thy ===== *)
theory Sessions
  imports Frame_Buf
begin

section \<open>Sessions and demultiplexing (src/veloxd/Session.h, Session.cpp)\<close>

text \<open>
  A \<open>Session\<close> is a protocol control block: the two addresses and ports of a conversation
  (all in network order; zero is a wildcard or "unbound") and a weak pointer to its endpoint,
  here the endpoint's number. Protocol specific sessions extend the record. A list of weak
  pointers is a list of numbers with a lookup that gives \<open>None\<close> for a session that is gone.
  \<open>Sessions::find\<close> picks the session a packet belongs to.
\<close>

record Session =
  faddr :: u32
  fport :: u16
  laddr :: u32
  lport :: u16
  socket_of :: "nat option"

definition ENOTCONN :: int where "ENOTCONN = 107"

definition EISCONN :: int where "EISCONN = 106"

text \<open>The constructor; \<open>stack_addr\<close> is the configured address of the stack.\<close>

definition Session_new :: "u32 \<Rightarrow> Session" where
  "Session_new stack_addr = \<lparr>faddr = 0, fport = 0, laddr = stack_addr, lport = 0, socket_of = None\<rparr>"

subsection \<open>Ports\<close>

text \<open>\<open>nextAvailPort\<close> (both protocols have one): the port in network order and the counter,
  which wraps at 16 bits.\<close>

definition nextAvailPort :: "u16 \<Rightarrow> u16 \<times> u16" where
  "nextAvailPort port = (bswap16 (port + 1), port + 1)"

definition session_bind :: "'x Session_scheme \<Rightarrow> u16 \<Rightarrow> 'x Session_scheme \<times> u16" where
  "session_bind s port =
     (if lport s = 0 then (case nextAvailPort port of (p, port') \<Rightarrow> (s\<lparr>lport := p\<rparr>, port'))
      else (s, port))"

definition session_connect :: "u32 \<Rightarrow> u16 \<Rightarrow> 'x Session_scheme \<Rightarrow> u16 \<Rightarrow> 'x Session_scheme \<times> u16" where
  "session_connect fa fp s port =
     (let s1 = s\<lparr>faddr := fa, fport := fp\<rparr> in if lport s1 = 0 then session_bind s1 port else (s1, port))"

definition session_disconnect :: "'x Session_scheme \<Rightarrow> 'x Session_scheme" where
  "session_disconnect s = s\<lparr>faddr := 0, fport := 0\<rparr>"

definition session_send :: "'x Session_scheme \<Rightarrow> u16 \<Rightarrow> int \<times> 'x Session_scheme \<times> u16" where
  "session_send s port =
     (let (s1, port1) = (if lport s = 0 then session_bind s port else (s, port))
      in (if fport s1 = 0 then ENOTCONN else 0, s1, port1))"

text \<open>The test looks at the parameter, which hides the member of the same name.\<close>

definition session_send_to :: "u32 \<Rightarrow> u16 \<Rightarrow> 'x Session_scheme \<Rightarrow> u16 \<Rightarrow> int \<times> 'x Session_scheme \<times> u16" where
  "session_send_to fa fp s port =
     (let (s1, port1) = (if lport s = 0 then session_bind s port else (s, port))
      in (if fp \<noteq> 0 then EISCONN else 0, s1, port1))"

text \<open>The first \<open>n\<close> ports from a counter value.\<close>

fun ports :: "nat \<Rightarrow> u16 \<Rightarrow> u16 list" where
  "ports 0 port = []"
| "ports (Suc n) port = (case nextAvailPort port of (p, port') \<Rightarrow> p # ports n port')"

subsection \<open>Sessions::find\<close>

definition in_addr_match :: "u32 \<Rightarrow> u32 \<Rightarrow> int" where
  "in_addr_match ours theirs = (if ours = 0 then 0 else if ours = theirs then 1 else -1)"

text \<open>The body of the loop up to the comparison: \<open>None\<close> where it continues.\<close>

definition match_score :: "u32 \<Rightarrow> u16 \<Rightarrow> u32 \<Rightarrow> u16 \<Rightarrow> 'x Session_scheme \<Rightarrow> int option" where
  "match_score fa fp la lp cur =
     (if lport cur \<noteq> lp then None
      else let a1 = 1 in
        if fport cur \<noteq> 0 \<and> fport cur \<noteq> fp then None
        else let a2 = (if fport cur \<noteq> 0 then a1 + 1 else a1); m1 = in_addr_match (faddr cur) fa in
          if m1 = -1 then None
          else let m2 = in_addr_match (laddr cur) la in
            if m2 = -1 then None else Some (a2 + m1 + m2))"

fun find_loop :: "(nat \<Rightarrow> int option) \<Rightarrow> nat list \<Rightarrow> nat option \<Rightarrow> int \<Rightarrow> nat option" where
  "find_loop score [] pcb best = pcb"
| "find_loop score (i # is) pcb best =
     (case score i of
        None \<Rightarrow> find_loop score is pcb best
      | Some accum \<Rightarrow> if accum > best then find_loop score is (Some i) accum
                      else find_loop score is pcb best)"

definition find_session :: "(nat \<Rightarrow> 'x Session_scheme option) \<Rightarrow> nat list \<Rightarrow> u32 \<Rightarrow> u16 \<Rightarrow> u32 \<Rightarrow> u16 \<Rightarrow>
    nat option" where
  "find_session lock c fa fp la lp =
     find_loop (\<lambda>i. Option.bind (lock i) (match_score fa fp la lp)) c None (-1)"

subsection \<open>Lemmas\<close>

lemma ports_values: "map (\<lambda>p. unat (bswap16 p)) (ports n port) = map (\<lambda>k. (unat port + 1 + k) mod 65536) [0..<n]"
proof (induction n arbitrary: port)
  case (Suc n)
  have u: "unat (port + 1) = (unat port + 1) mod 65536" by (simp add: unat_word_ariths)
  have "(unat (port + 1) + 1 + k) mod 65536 = (unat port + 1 + Suc k) mod 65536" for k
    unfolding u by (simp only: add.assoc mod_add_left_eq) simp
  then show ?case
    using Suc.IH [of "port + 1"] u
    by (simp add: nextAvailPort_def upt_conv_Cons map_Suc_upt [symmetric] del: upt_Suc)
qed simp

text \<open>The first of the best: no earlier entry scores as much, no later one more, and the score
  is above the given bound.\<close>

definition first_best :: "(nat \<Rightarrow> int option) \<Rightarrow> nat list \<Rightarrow> int \<Rightarrow> nat \<Rightarrow> bool" where
  "first_best score c best i \<longleftrightarrow> (\<exists>pre post k. c = pre @ i # post \<and> score i = Some k \<and> best < k \<and>
     (\<forall>j\<in>set pre. \<forall>k'. score j = Some k' \<longrightarrow> k' < k) \<and>
     (\<forall>j\<in>set post. \<forall>k'. score j = Some k' \<longrightarrow> k' \<le> k))"

lemma first_best_head:
  "score i = Some k \<Longrightarrow> best < k \<Longrightarrow> \<forall>j\<in>set is. \<forall>k'. score j = Some k' \<longrightarrow> k' \<le> k \<Longrightarrow>
    first_best score (i # is) best i"
  unfolding first_best_def by (intro exI [of _ "[]"] exI [of _ "is"] exI [of _ k]) auto

lemma first_best_tail:
  assumes "first_best score is b j" "best \<le> b" "\<forall>k. score i = Some k \<longrightarrow> k \<le> b"
  shows "first_best score (i # is) best j"
proof -
  obtain pre post k where j: "is = pre @ j # post" "score j = Some k" "b < k"
    "\<forall>j\<in>set pre. \<forall>k'. score j = Some k' \<longrightarrow> k' < k" "\<forall>j\<in>set post. \<forall>k'. score j = Some k' \<longrightarrow> k' \<le> k"
    using assms(1) by (auto simp: first_best_def)
  moreover have "\<forall>j\<in>set (i # pre). \<forall>k'. score j = Some k' \<longrightarrow> k' < k"
    using j(3,4) assms(3) by auto
  ultimately show ?thesis
    unfolding first_best_def using assms(2)
    by (intro exI [of _ "i # pre"] exI [of _ post] exI [of _ k]) auto
qed

lemma find_loop_spec:
  "(find_loop score c pcb best = pcb \<and> (\<forall>i\<in>set c. \<forall>k. score i = Some k \<longrightarrow> k \<le> best)) \<or>
   (\<exists>i. find_loop score c pcb best = Some i \<and> first_best score c best i)"
proof (induction score c pcb best rule: find_loop.induct)
  case (2 score i "is" pcb best)
  show ?case
  proof (cases "\<exists>k. score i = Some k \<and> best < k")
    case True
    then obtain k where k: "score i = Some k" "best < k" by blast
    then show ?thesis
      using 2(2) [of k] first_best_head [of score i k best "is"] first_best_tail [of score "is" k _ best i]
      by auto
  next
    case False
    then have "find_loop score (i # is) pcb best = find_loop score is pcb best"
      by (auto split: option.splits)
    moreover have "(find_loop score is pcb best = pcb \<and> (\<forall>j\<in>set is. \<forall>k. score j = Some k \<longrightarrow> k \<le> best)) \<or>
        (\<exists>j. find_loop score is pcb best = Some j \<and> first_best score is best j)"
      using 2(1,3) False by (cases "score i") auto
    ultimately show ?thesis using first_best_tail [of score "is" best _ best i] False by fastforce
  qed
qed simp

subsection \<open>Properties\<close>

text \<open>What a session asks of a packet, and how much of it is not a wildcard.\<close>

definition accepts :: "u32 \<Rightarrow> u16 \<Rightarrow> u32 \<Rightarrow> u16 \<Rightarrow> 'x Session_scheme \<Rightarrow> bool" where
  "accepts fa fp la lp s \<longleftrightarrow> lport s = lp \<and> fport s \<in> {0, fp} \<and> faddr s \<in> {0, fa} \<and> laddr s \<in> {0, la}"

definition exactness :: "'x Session_scheme \<Rightarrow> nat" where
  "exactness s = length (filter id [fport s \<noteq> 0, faddr s \<noteq> 0, laddr s \<noteq> 0])"

lemma match_score_eq:
  "match_score fa fp la lp s = (if accepts fa fp la lp s then Some (1 + int (exactness s)) else None)"
  by (auto simp: match_score_def in_addr_match_def accepts_def exactness_def Let_def)

text \<open>(C24) Demultiplexing: \<open>Sessions::find\<close> returns nothing exactly when no live session of the list accepts the packet, that is, has its
  destination port, and its other three values each equal to the packet's or zero. Otherwise it returns a live session that accepts
  the packet, and none that does so has more of the three values set, nor has one that comes earlier in the list as many: an exact
  port or address beats a wildcard, and the first one wins a tie.\<close>

theorem find_session_best:
  shows "case find_session lock c fa fp la lp of
      None \<Rightarrow> list_all (\<lambda>j. case lock j of None \<Rightarrow> True | Some t \<Rightarrow> \<not> accepts fa fp la lp t) c
    | Some i \<Rightarrow> \<exists>pre post s. c = pre @ i # post \<and> lock i = Some s \<and> accepts fa fp la lp s \<and>
        list_all (\<lambda>j. case lock j of None \<Rightarrow> True | Some t \<Rightarrow> if accepts fa fp la lp t then exactness t < exactness s else True) pre \<and>
        list_all (\<lambda>j. case lock j of None \<Rightarrow> True | Some t \<Rightarrow> if accepts fa fp la lp t then exactness t \<le> exactness s else True) post"
proof -
  let ?score = "\<lambda>i. Option.bind (lock i) (match_score fa fp la lp)"
  have sc: "?score i = Some k \<longleftrightarrow> (\<exists>t. lock i = Some t \<and> accepts fa fp la lp t \<and> k = 1 + int (exactness t))" for i k
    by (auto simp: match_score_eq bind_eq_Some_conv split: if_splits)
  from find_loop_spec [of ?score c None "-1"] show ?thesis
  proof (elim disjE conjE exE)
    assume "find_loop ?score c None (-1) = None" "\<forall>i\<in>set c. \<forall>k. ?score i = Some k \<longrightarrow> k \<le> -1"
    then show ?thesis unfolding sc by (force simp: find_session_def list_all_iff split: option.split)
  next
    fix i assume "find_loop ?score c None (-1) = Some i" "first_best ?score c (-1) i"
    then show ?thesis unfolding first_best_def sc
      by (force simp: find_session_def list_all_iff split: option.split)
  qed
qed

text \<open>Local ports: from the initial counter, the first 64511 automatically bound sessions of a
  protocol get pairwise different ports, all above 1024. The next one gets port 0, which the
  session code takes for "not bound", and the numbers start over.\<close>

theorem ports_until_wrap:
  shows "distinct (ports 64511 1024) \<and> list_all (\<lambda>p. 1024 < unat (bswap16 p)) (ports 64511 1024) \<and>
    lport (fst (session_bind s 65535)) = lport s \<and> snd (session_bind s 65535) = (if lport s = 0 then 0 else 65535)"
proof -
  have "inj_on (\<lambda>k. (1025 + k) mod 65536) {0..<64511 :: nat}"
    by (auto intro!: inj_onI dest: mod_shift_inj)
  then have "distinct (map (\<lambda>p. unat (bswap16 p)) (ports 64511 1024))"
    by (simp add: ports_values distinct_map del: ports.simps)
  then have "distinct (ports 64511 1024)" by (simp add: distinct_map)
  moreover have "list_all (\<lambda>p. 1024 < unat (bswap16 p)) (ports 64511 1024)"
    using arg_cong [OF ports_values [of 64511 1024], of "list_all ((<) 1024)"]
    by (simp add: list_all_iff ball_simps del: ports.simps)
  moreover have "nextAvailPort 65535 = (0, 0)"
    by (simp add: nextAvailPort_def bswap16_def lo8_def hi8_def le16_def)
  ultimately show ?thesis by (simp add: session_bind_def)
qed

end
