(* ===== verification/Tcp_Session.thy ===== *)
theory Tcp_Session
  imports Ip_Tx Sessions
begin

unbundle bit_operations_syntax

section \<open>TCP sessions (src/veloxd/tcp/TcpHdr.h, TcpSession.h, TcpSession.cpp)\<close>

text \<open>
  A \<open>TcpSession\<close> extends a session with the connection state and the sequence variables.
  The constructor leaves the sequence variables unset, hence the options: reading an unset one is
  the fault \<open>UninitRead\<close>. The connection callback is the channel number captured by the only
  function ever stored there. What the endpoint's \<open>putToRecvQ\<close> and that callback do belongs
  to other parts of the daemon; \<open>tcp_recv\<close> takes them as arguments.
\<close>

subsection \<open>States\<close>

datatype TcpState =
    TCP_CLOSED | TCP_LISTEN | TCP_SYN_SENT | TCP_SYN_RECEIVED | TCP_ESTABLISHED
  | TCP_FIN_WAIT_1 | TCP_FIN_WAIT_2 | TCP_CLOSING | TCP_TIME_WAIT | TCP_CLOSE_WAIT | TCP_LAST_ACK

text \<open>The enumeration is not an \<open>enum class\<close> because its values are compared; the order is the
  one of the declaration.\<close>

fun tcp_state_num :: "TcpState \<Rightarrow> nat" where
  "tcp_state_num TCP_CLOSED = 0"
| "tcp_state_num TCP_LISTEN = 1"
| "tcp_state_num TCP_SYN_SENT = 2"
| "tcp_state_num TCP_SYN_RECEIVED = 3"
| "tcp_state_num TCP_ESTABLISHED = 4"
| "tcp_state_num TCP_FIN_WAIT_1 = 5"
| "tcp_state_num TCP_FIN_WAIT_2 = 6"
| "tcp_state_num TCP_CLOSING = 7"
| "tcp_state_num TCP_TIME_WAIT = 8"
| "tcp_state_num TCP_CLOSE_WAIT = 9"
| "tcp_state_num TCP_LAST_ACK = 10"

lemma tcp_state_num_inject: "tcp_state_num a = tcp_state_num b \<longleftrightarrow> a = b"
  by (cases a; cases b) simp_all

instantiation TcpState :: linorder
begin

definition less_eq_TcpState :: "TcpState \<Rightarrow> TcpState \<Rightarrow> bool" where
  "less_eq_TcpState a b \<longleftrightarrow> tcp_state_num a \<le> tcp_state_num b"

definition less_TcpState :: "TcpState \<Rightarrow> TcpState \<Rightarrow> bool" where
  "less_TcpState a b \<longleftrightarrow> tcp_state_num a < tcp_state_num b"

instance
  by standard (auto simp: less_eq_TcpState_def less_TcpState_def tcp_state_num_inject)

end

record TcpSession = Session +
  conn_state :: TcpState
  onConnEstabCB :: "nat option"
  send_unack :: "u32 option"
  send_next :: "u32 option"
  irs :: "u32 option"
  recv_next :: "u32 option"

definition iss :: u32 where "iss = 1"

definition TcpSession_new :: "u32 \<Rightarrow> TcpSession" where
  "TcpSession_new stack_addr = Session.extend (Session_new stack_addr)
     \<lparr>conn_state = TCP_CLOSED, onConnEstabCB = None, send_unack = None, send_next = None,
      irs = None, recv_next = None\<rparr>"

subsection \<open>Header fields\<close>

definition tcp_seq :: "(nat \<Rightarrow> byte) \<Rightarrow> nat \<Rightarrow> u32" where
  "tcp_seq r t = get32 r (t + 4)"

definition tcp_ack_seq :: "(nat \<Rightarrow> byte) \<Rightarrow> nat \<Rightarrow> u32" where
  "tcp_ack_seq r t = get32 r (t + 8)"

definition tcp_doff :: "(nat \<Rightarrow> byte) \<Rightarrow> nat \<Rightarrow> nat" where
  "tcp_doff r t = unat (drop_bit 4 (r (t + 12)))"

definition tcp_syn :: "(nat \<Rightarrow> byte) \<Rightarrow> nat \<Rightarrow> bool" where
  "tcp_syn r t \<longleftrightarrow> bit (r (t + 13)) 1"

definition tcp_ack :: "(nat \<Rightarrow> byte) \<Rightarrow> nat \<Rightarrow> bool" where
  "tcp_ack r t \<longleftrightarrow> bit (r (t + 13)) 4"

definition put_doff :: "nat \<Rightarrow> byte \<Rightarrow> (nat \<Rightarrow> byte) \<Rightarrow> (nat \<Rightarrow> byte)" where
  "put_doff t v r = r(t + 12 := (r (t + 12) AND 15) OR push_bit 4 v)"

definition set_syn :: "nat \<Rightarrow> (nat \<Rightarrow> byte) \<Rightarrow> (nat \<Rightarrow> byte)" where
  "set_syn t r = r(t + 13 := r (t + 13) OR 2)"

definition set_ack :: "nat \<Rightarrow> (nat \<Rightarrow> byte) \<Rightarrow> (nat \<Rightarrow> byte)" where
  "set_ack t r = r(t + 13 := r (t + 13) OR 16)"

subsection \<open>Building segments\<close>

definition socketBufferOfTcpTempl :: "TcpSession \<Rightarrow> FrameBuf" where
  "socketBufferOfTcpTempl s =
     FrameBuf_new\<lparr>hdrs_begin := Raw 40, network_hdr := Raw 40, transport_hdr := Raw 60, hdrs_end := Raw 80,
       rawBytes := put16 (60 + 14) (bswap16 4096) (put_doff 60 (20 div 4)
         (put16 (60 + 2) (fport s) (put16 60 (lport s) (rawBytes FrameBuf_new))))\<rparr>"

text \<open>The \<open>PseudoHdr\<close> laid over the IP header: \<open>protocol_len\<close> is where the header
  checksum will be, and is cleared again at the end.\<close>

definition prepareBeforeIpTx :: "TcpSession \<Rightarrow> FrameBuf \<Rightarrow> byte list \<Rightarrow> FrameBuf res" where
  "prepareBeforeIpTx s fb buf =
     bindr (hdr_at (network_hdr fb)) (\<lambda>o'.
     bindr (hdr_at (transport_hdr fb)) (\<lambda>t.
     let r1 = put32 (o' + 16) (faddr s) (put32 (o' + 12) (laddr s)
               (put16 (o' + 10) (bswap16 (of_nat (length buf + 20))) (put8 (o' + 9) 6 (rawBytes fb))));
         sum = sum16 buf 0;
         r2 = put16 (t + 16) (lo16 (checksum (hslice r1 o' (o' + (tcp_doff r1 t * 4 + 20))) sum)) r1;
         r3 = put16 (o' + 10) 0 (put16 (o' + 2) (bswap16 (of_nat (length buf + 40)))
               (put8 (o' + 1) 0 (put8 (o' + 8) 64 r2)))
     in Inr (fb\<lparr>rawBytes := r3\<rparr>)))"

definition upd_raw :: "((nat \<Rightarrow> byte) \<Rightarrow> (nat \<Rightarrow> byte)) \<Rightarrow> FrameBuf \<Rightarrow> FrameBuf" where
  "upd_raw f fb = fb\<lparr>rawBytes := f (rawBytes fb)\<rparr>"

definition ack2peer :: "u32 \<Rightarrow> TcpSession \<Rightarrow> 'x net_scheme \<Rightarrow> 'x net_scheme res" where
  "ack2peer v s st =
     (let fb0 = upd_raw (put32 (60 + 8) (bswap32 v)) (upd_raw (set_ack 60) (socketBufferOfTcpTempl s)) in
      bindr (initr (send_next s)) (\<lambda>sn.
      bindr (prepareBeforeIpTx s (upd_raw (put32 (60 + 4) (bswap32 sn)) fb0) []) (\<lambda>fb.
      ip_tx fb [] st)))"

subsection \<open>Operations\<close>

definition tcp_send :: "byte list \<Rightarrow> TcpSession \<Rightarrow> 'x net_scheme \<Rightarrow>
    (int \<times> TcpSession \<times> 'x net_scheme) res" where
  "tcp_send buf s st =
     (case session_send s (tcp_port st) of (_, s1, p1) \<Rightarrow>
      let st1 = st\<lparr>tcp_port := p1\<rparr>; fb = socketBufferOfTcpTempl s1 in
      (case conn_state s1 of
         TCP_CLOSED \<Rightarrow>
           let s2 = s1\<lparr>send_unack := Some iss, send_next := Some (iss + 1), conn_state := TCP_SYN_SENT\<rparr>;
               fb1 = upd_raw (set_syn 60) (upd_raw (put32 (60 + 4) (bswap32 iss)) fb)
           in bindr (prepareBeforeIpTx s2 fb1 buf) (\<lambda>fb2.
              bindr (ip_tx fb2 buf st1) (\<lambda>st2. Inr (int (length buf), s2, st2)))
       | TCP_ESTABLISHED \<Rightarrow>
           bindr (initr (send_next s1)) (\<lambda>sn.
           let s2 = s1\<lparr>send_next := Some (sn + of_nat (length buf))\<rparr> in
           bindr (initr (recv_next s2)) (\<lambda>rn.
           let fb1 = upd_raw (put32 (60 + 8) (bswap32 rn)) (upd_raw (set_ack 60)
                      (upd_raw (put32 (60 + 4) (bswap32 sn)) fb))
           in bindr (prepareBeforeIpTx s2 fb1 buf) (\<lambda>fb2.
              bindr (ip_tx fb2 buf st1) (\<lambda>st2. Inr (int (length buf), s2, st2)))))
       | _ \<Rightarrow> Inr (0, s1, st1)))"

definition tcp_connect :: "u32 \<Rightarrow> u16 \<Rightarrow> TcpSession \<Rightarrow> 'x net_scheme \<Rightarrow>
    (int \<times> TcpSession \<times> 'x net_scheme) res" where
  "tcp_connect fa fp s st =
     (case session_connect fa fp s (tcp_port st) of (s1, p1) \<Rightarrow>
      bindr (tcp_send [] s1 (st\<lparr>tcp_port := p1\<rparr>)) (\<lambda>(_, s2, st2). Inr (0, s2, st2)))"

definition tcp_disconnect :: "TcpSession \<Rightarrow> TcpSession" where
  "tcp_disconnect s = s"

text \<open>\<open>put\<close> is \<open>so->putToRecvQ\<close> on the locked endpoint (with an address nobody has set),
  \<open>estab\<close> what the connection callback does.\<close>

definition tcp_recv :: "(FrameBuf \<Rightarrow> 'x net_scheme \<Rightarrow> 'x net_scheme res) \<Rightarrow>
    (nat \<Rightarrow> 'x net_scheme \<Rightarrow> 'x net_scheme res) \<Rightarrow> FrameBuf \<Rightarrow> TcpSession \<Rightarrow> 'x net_scheme \<Rightarrow>
    (TcpSession \<times> 'x net_scheme) res" where
  "tcp_recv put estab fb s st =
     bindr (hdr_at (transport_hdr fb)) (\<lambda>t.
     let r = rawBytes fb in
     (case conn_state s of
        TCP_SYN_SENT \<Rightarrow>
          bindr (assertr (tcp_syn r t \<and> tcp_ack r t)) (\<lambda>_.
          bindr (initr (send_unack s)) (\<lambda>su.
          let isn = bswap32 (tcp_seq r t);
              s1 = s\<lparr>irs := Some isn, recv_next := Some (isn + 1), send_unack := Some (su + 1),
                     conn_state := TCP_ESTABLISHED\<rparr>
          in bindr (ack2peer (isn + 1) s1 st) (\<lambda>st1.
             bindr (case onConnEstabCB s1 of None \<Rightarrow> Inr st1 | Some ch \<Rightarrow> estab ch st1) (\<lambda>st2.
             Inr (s1, st2)))))
      | TCP_ESTABLISHED \<Rightarrow>
          bindr (if tcp_ack r t
                 then bindr (initr (send_unack s)) (\<lambda>su.
                      let k = bswap32 (tcp_ack_seq r t) in
                      Inr (if k > su then s\<lparr>send_unack := Some k\<rparr> else s))
                 else Inr s) (\<lambda>s1.
          let fb1 = fb\<lparr>user_payload_begin := ptr_add (transport_hdr fb) (tcp_doff r t * 4)\<rparr> in
          bindr (ptr_diff (user_payload_end fb1) (user_payload_begin fb1)) (\<lambda>d.
          if d \<noteq> 0 then
            bindr (put fb1 st) (\<lambda>st1.
            bindr (initr (recv_next s1)) (\<lambda>_.
            let rn = bswap32 (tcp_seq r t) + of_int d; s2 = s1\<lparr>recv_next := Some rn\<rparr> in
            bindr (ack2peer rn s2 st1) (\<lambda>st2. Inr (s2, st2))))
          else Inr (s1, st)))
      | _ \<Rightarrow> Inr (s, st)))"

subsection \<open>What a valid packet is\<close>

text \<open>The specification side: a valid IPv4 packet carrying a TCP segment whose checksum verifies
  together with the pseudo header of RFC 793.\<close>

definition valid_tcp_packet :: "u32 \<Rightarrow> u32 \<Rightarrow> byte list \<Rightarrow> bool" where
  "valid_tcp_packet src dst pkt \<longleftrightarrow>
     valid_ip_packet 6 src dst pkt \<and> 40 \<le> length pkt \<and>
     lo16 (checksum (pseudo_header src dst 6 (length pkt - 20) @ drop 20 pkt) 0) = 0"

subsection \<open>Segments on the wire are valid\<close>

text \<open>What the builders have in common before \<open>prepareBeforeIpTx\<close>: the layout, an IP header
  still zero, a zero checksum field, no options.\<close>

definition tcp_template :: "FrameBuf \<Rightarrow> bool" where
  "tcp_template fb \<longleftrightarrow> hdrs_begin fb = Raw 40 \<and> network_hdr fb = Raw 40 \<and> transport_hdr fb = Raw 60 \<and>
     hdrs_end fb = Raw 80 \<and> hslice (rawBytes fb) 40 60 = replicate 20 0 \<and>
     rawBytes fb 76 = 0 \<and> rawBytes fb 77 = 0 \<and> tcp_doff (rawBytes fb) 60 = 5"

text \<open>The header of a segment: the builder's bytes with the checksum filled in.\<close>

definition tcp_header_out :: "(nat \<Rightarrow> byte) \<Rightarrow> u16 \<Rightarrow> byte list" where
  "tcp_header_out r c = hslice r 60 76 @ [lo8 c, hi8 c] @ hslice r 78 80"


lemma wsum_pseudo:
  assumes "even (length h)"
  shows "wsum (pseudo_header src dst proto len @ h @ buf) =
    wsum ([0, 0, 0, 0, 0, 0, 0, 0, 0, proto] @ be16_bytes (of_nat len) @ addr_bytes src @ addr_bytes dst) + wsum h + wsum buf"
proof -
  have "even (length (pseudo_header src dst proto len))"
    by (simp add: pseudo_header_def addr_bytes_def be16_bytes_def)
  then have "wsum (pseudo_header src dst proto len @ h @ buf) =
      wsum (pseudo_header src dst proto len) + (wsum h + wsum buf)"
    using assms by (simp only: wsum_append)
  then show ?thesis
    by (simp add: pseudo_header_def addr_bytes_def be16_bytes_def unat_le16)
qed

lemma tcp_checksum_valid:
  assumes zero: "r 76 = 0" "r 77 = 0" and "length buf \<le> 65495"
    and c: "c = lo16 (checksum (([0, 0, 0, 0, 0, 0, 0, 0, 0, 6] @ be16_bytes (of_nat (length buf + 20)) @
      addr_bytes src @ addr_bytes dst) @ hslice r 60 80) (sum16 buf 0))"
  shows "lo16 (checksum (pseudo_header src dst 6 (length buf + 20) @ tcp_header_out r c @ buf) 0) = 0"
proof (rule checksum_fill [OF _ c])
  let ?P = "[0, 0, 0, 0, 0, 0, 0, 0, 0, 6] @ be16_bytes (of_nat (length buf + 20)) @ addr_bytes src @ addr_bytes dst"
  have len: "length ?P = 20" by (simp add: addr_bytes_def be16_bytes_def)
  have buf: "unat (sum16 buf 0) = wsum buf"
    using unat_sum16 [of 0 buf] wsum_less_32 [of buf] assms(3) by simp
  have app: "wsum (?P @ hslice r 60 80) = wsum ?P + wsum (hslice r 60 80)"
    by (rule wsum_append) (use len in simp)
  have hd: "wsum (tcp_header_out r c) = wsum (hslice r 60 80) + unat c"
    using zero by (simp add: tcp_header_out_def hslice_def unat_le16 unat_lo8 unat_hi8)
  have ev: "even (length (tcp_header_out r c))" by (simp add: tcp_header_out_def)
  show "unat (0 :: u32) + wsum (pseudo_header src dst 6 (length buf + 20) @ tcp_header_out r c @ buf) =
      unat (sum16 buf 0) + wsum (?P @ hslice r 60 80) + unat c"
    unfolding wsum_pseudo [OF ev] app hd buf by simp
  have "2 * wsum ?P \<le> 65535 * 21" using wsum_bound [of ?P] len by simp
  moreover have "2 * wsum (hslice r 60 80) \<le> 65535 * 21" using wsum_bound [of "hslice r 60 80"] by simp
  moreover have "2 * wsum buf \<le> 65535 * 65496" using wsum_bound [of buf] assms(3) by simp
  ultimately show "unat (sum16 buf 0) + wsum (?P @ hslice r 60 80) + 65535 < 4294967296"
    unfolding app buf by simp
qed

lemma tcp_prepare:
  assumes "tcp_template fb" and "length buf \<le> 65495"
  shows "\<exists>r c. prepareBeforeIpTx s fb buf = Inr (fb\<lparr>rawBytes := r\<rparr>) \<and>
    hslice r 40 60 = [0, 0] @ be16_bytes (of_nat (length buf + 40)) @ [0, 0, 0, 0, 64, 6, 0, 0] @
      addr_bytes (laddr s) @ addr_bytes (faddr s) \<and>
    hslice r 60 80 = tcp_header_out (rawBytes fb) c \<and>
    lo16 (checksum (pseudo_header (laddr s) (faddr s) 6 (length buf + 20) @ tcp_header_out (rawBytes fb) c @ buf) 0) = 0"
proof -
  let ?r = "rawBytes fb" and ?pl = "bswap16 (of_nat (length buf + 20))"
  have ptrs: "network_hdr fb = Raw 40" "transport_hdr fb = Raw 60"
    and z: "?r 40 = 0" "?r 41 = 0" "?r 42 = 0" "?r 43 = 0" "?r 44 = 0" "?r 45 = 0" "?r 46 = 0" "?r 47 = 0"
      "?r 48 = 0" "?r 49 = 0" "?r 50 = 0" "?r 51 = 0" "?r 76 = 0" "?r 77 = 0" and doff: "tcp_doff ?r 60 = 5"
    using assms(1) by (simp_all add: tcp_template_def hslice_def numeral_eq_Suc)
  define r1 where "r1 = put32 56 (faddr s) (put32 52 (laddr s) (put16 50 ?pl (put8 49 6 ?r)))"
  have hi: "r1 i = ?r i" if "60 \<le> i" for i
    using that by (simp add: r1_def put_defs)
  have d1: "tcp_doff r1 60 = 5" using doff hi [of 72] by (simp add: tcp_doff_def)
  define c where "c = lo16 (checksum (hslice r1 40 80) (sum16 buf 0))"
  define r3 where "r3 = put16 50 0 (put16 42 (bswap16 (of_nat (length buf + 40))) (put8 41 0 (put8 48 64 (put16 76 c r1))))"
  have "prepareBeforeIpTx s fb buf = Inr (fb\<lparr>rawBytes := r3\<rparr>)"
    using d1 by (simp add: prepareBeforeIpTx_def ptrs r3_def c_def r1_def Let_def)
  moreover have "hslice r3 40 60 = [0, 0] @ be16_bytes (of_nat (length buf + 40)) @ [0, 0, 0, 0, 64, 6, 0, 0] @
      addr_bytes (laddr s) @ addr_bytes (faddr s)"
    by (simp add: hslice_def r3_def r1_def put_defs z be16_bytes_def addr_bytes_def bswap16_def)
  moreover have "hslice r3 60 80 = tcp_header_out ?r c"
    by (simp add: hslice_def tcp_header_out_def r3_def put_defs hi)
  moreover have "lo16 (checksum (pseudo_header (laddr s) (faddr s) 6 (length buf + 20) @ tcp_header_out ?r c @ buf) 0) = 0"
  proof (rule tcp_checksum_valid)
    have s1: "hslice r1 40 60 = [0, 0, 0, 0, 0, 0, 0, 0, 0, 6] @ be16_bytes (of_nat (length buf + 20)) @
        addr_bytes (laddr s) @ addr_bytes (faddr s)"
      by (simp add: hslice_def r1_def put_defs z be16_bytes_def addr_bytes_def bswap16_def)
    have s2: "hslice r1 60 80 = hslice ?r 60 80" by (rule hslice_cong) (simp add: hi)
    show "c = lo16 (checksum (([0, 0, 0, 0, 0, 0, 0, 0, 0, 6] @ be16_bytes (of_nat (length buf + 20)) @
        addr_bytes (laddr s) @ addr_bytes (faddr s)) @ hslice ?r 60 80) (sum16 buf 0))"
      unfolding c_def s1 [symmetric] s2 [symmetric] by (subst hslice_split [of 40 60 80]) simp_all
  qed (use z assms(2) in simp_all)
  ultimately show ?thesis by blast
qed

lemma tcp_tx:
  assumes "tcp_template fb" and "length buf \<le> 65495"
  shows "\<exists>fb' pkt c. prepareBeforeIpTx s fb buf = Inr fb' \<and>
    ip_tx fb' buf st = Inr (st\<lparr>ip_last := snd (ip_id_next (ip_last st)), wire := wire st @ [pkt]\<rparr>) \<and>
    valid_tcp_packet (laddr s) (faddr s) pkt \<and> drop 20 pkt = tcp_header_out (rawBytes fb) c @ buf"
proof -
  obtain r c where prep: "prepareBeforeIpTx s fb buf = Inr (fb\<lparr>rawBytes := r\<rparr>)"
    and ip: "hslice r 40 60 = [0, 0] @ be16_bytes (of_nat (length buf + 40)) @ [0, 0, 0, 0, 64, 6, 0, 0] @
      addr_bytes (laddr s) @ addr_bytes (faddr s)"
    and hd: "hslice r 60 80 = tcp_header_out (rawBytes fb) c"
    and tcp: "lo16 (checksum (pseudo_header (laddr s) (faddr s) 6 (length buf + 20) @ tcp_header_out (rawBytes fb) c @ buf) 0) = 0"
    using tcp_prepare [OF assms] by blast
  let ?i = "fst (ip_id_next (ip_last st))" and ?h = "tcp_header_out (rawBytes fb) c"
  let ?ip = "\<lambda>c'. ip_header_bytes (of_nat (length buf + 40)) ?i 64 6 c' (laddr s) (faddr s)"
  obtain c' where c': "hslice (ip_header_out r 40 ?i) 40 60 = ?ip c'" "lo16 (checksum (?ip c') 0) = 0"
    using ip_header_out_bytes [OF ip, of ?i] by blast
  have out: "hslice (ip_header_out r 40 ?i) 40 80 @ buf = ?ip c' @ ?h @ buf"
    using hslice_split [of 40 60 80 "ip_header_out r 40 ?i"] c'(1) hd ip_header_out_rest [of 60 r ?i 80] by simp
  have "tx_layout (fb\<lparr>rawBytes := r\<rparr>) 40" using assms(1) by (simp add: tx_layout_def tcp_template_def)
  from ip_tx_eq [OF this, of buf st] out have tx: "ip_tx (fb\<lparr>rawBytes := r\<rparr>) buf st =
      Inr (st\<lparr>ip_last := snd (ip_id_next (ip_last st)), wire := wire st @ [?ip c' @ ?h @ buf]\<rparr>)" by simp
  have "length ?h = 20" by (simp add: tcp_header_out_def)
  then have "valid_tcp_packet (laddr s) (faddr s) (?ip c' @ ?h @ buf)"
    unfolding valid_tcp_packet_def
    using valid_ip_packetI [of "?h @ buf" ?i 64 6 c' "laddr s" "faddr s"] c'(2) tcp assms(2)
    by (simp add: add.commute)
  moreover have "drop 20 (?ip c' @ ?h @ buf) = ?h @ buf" by simp
  ultimately show ?thesis using prep tx by blast
qed

subsection \<open>Reading a segment back\<close>

record segment =
  sg_source :: u16
  sg_dest :: u16
  sg_seq :: u32
  sg_ack_seq :: u32
  sg_flags :: byte
  sg_window :: u16
  sg_data :: "byte list"

text \<open>The TCP segment of a packet without IP or TCP options; ports as they travel.\<close>

definition segment_of :: "byte list \<Rightarrow> segment" where
  "segment_of pkt = (let h = drop 20 pkt; r = (\<lambda>i. h ! i) in
     \<lparr>sg_source = get16 r 0, sg_dest = get16 r 2, sg_seq = bswap32 (tcp_seq r 0),
      sg_ack_seq = bswap32 (tcp_ack_seq r 0), sg_flags = r 13, sg_window = bswap16 (get16 r 14),
      sg_data = drop (tcp_doff r 0 * 4) h\<rparr>)"

lemma segment_of_tx:
  assumes "drop 20 pkt = tcp_header_out r c @ buf" "tcp_doff r 60 = 5"
  shows "segment_of pkt = \<lparr>sg_source = get16 r 60, sg_dest = get16 r 62, sg_seq = bswap32 (tcp_seq r 60),
    sg_ack_seq = bswap32 (tcp_ack_seq r 60), sg_flags = r 73, sg_window = bswap16 (get16 r 74), sg_data = buf\<rparr>"
  using assms
  by (simp add: segment_of_def Let_def get16_def get32_def tcp_seq_def tcp_ack_seq_def tcp_doff_def
      tcp_header_out_def hslice_def)

text \<open>Buffers the session code builds, by the fields it sets.\<close>

definition built :: "TcpSession \<Rightarrow> u32 \<Rightarrow> u32 \<Rightarrow> byte \<Rightarrow> FrameBuf \<Rightarrow> bool" where
  "built s sn an fl fb \<longleftrightarrow> tcp_template fb \<and> get16 (rawBytes fb) 60 = lport s \<and>
     get16 (rawBytes fb) 62 = fport s \<and> bswap32 (tcp_seq (rawBytes fb) 60) = sn \<and>
     bswap32 (tcp_ack_seq (rawBytes fb) 60) = an \<and> rawBytes fb 73 = fl \<and>
     bswap16 (get16 (rawBytes fb) 74) = 4096"

lemmas raw_simps = upd_raw_def socketBufferOfTcpTempl_def put_doff_def set_syn_def set_ack_def
  FrameBuf_new_def put_defs get16_def get32_def tcp_seq_def tcp_ack_seq_def tcp_doff_def

lemma bswap32_0 [simp]: "bswap32 0 = 0"
  by (simp add: bswap32_def bswap16_def le32_def lo16_def hi16_def)

lemma le32_0 [simp]: "le32 0 0 = 0"
  by (simp add: le32_def)

lemma replicate_20: "replicate 20 (0 :: byte) = [0, 0, 0, 0, 0, 0, 0, 0, 0, 0, 0, 0, 0, 0, 0, 0, 0, 0, 0, 0]"
  by (simp add: numeral_eq_Suc)

lemma built_syn: "built s sn 0 2 (upd_raw (set_syn 60) (upd_raw (put32 64 (bswap32 sn)) (socketBufferOfTcpTempl s)))"
  by (simp add: built_def tcp_template_def raw_simps hslice_def replicate_20)

lemma built_data: "built s sn an 16 (upd_raw (put32 68 (bswap32 an)) (upd_raw (set_ack 60)
    (upd_raw (put32 64 (bswap32 sn)) (socketBufferOfTcpTempl s))))"
  by (simp add: built_def tcp_template_def raw_simps hslice_def replicate_20)

lemma built_ack: "built s sn an 16 (upd_raw (put32 64 (bswap32 sn)) (upd_raw (put32 68 (bswap32 an))
    (upd_raw (set_ack 60) (socketBufferOfTcpTempl s))))"
  by (simp add: built_def tcp_template_def raw_simps hslice_def replicate_20)

text \<open>So every segment leaves valid, with the fields it was built with.\<close>

lemma built_tx:
  assumes "built s0 sn an fl fb" and "length buf \<le> 65495"
  shows "\<exists>fb' pkt. prepareBeforeIpTx s fb buf = Inr fb' \<and>
    ip_tx fb' buf st = Inr (st\<lparr>ip_last := snd (ip_id_next (ip_last st)), wire := wire st @ [pkt]\<rparr>) \<and>
    valid_tcp_packet (laddr s) (faddr s) pkt \<and>
    segment_of pkt = \<lparr>sg_source = lport s0, sg_dest = fport s0, sg_seq = sn, sg_ack_seq = an, sg_flags = fl,
      sg_window = 4096, sg_data = buf\<rparr>"
proof -
  have t: "tcp_template fb" "tcp_doff (rawBytes fb) 60 = 5"
    using assms(1) by (simp_all add: built_def tcp_template_def)
  obtain fb' pkt c where "prepareBeforeIpTx s fb buf = Inr fb'"
    "ip_tx fb' buf st = Inr (st\<lparr>ip_last := snd (ip_id_next (ip_last st)), wire := wire st @ [pkt]\<rparr>)"
    "valid_tcp_packet (laddr s) (faddr s) pkt" "drop 20 pkt = tcp_header_out (rawBytes fb) c @ buf"
    using tcp_tx [OF t(1) assms(2)] by blast
  moreover from this(4) have "segment_of pkt = \<lparr>sg_source = lport s0, sg_dest = fport s0, sg_seq = sn,
      sg_ack_seq = an, sg_flags = fl, sg_window = 4096, sg_data = buf\<rparr>"
    using segment_of_tx [OF _ t(2)] assms(1) by (simp add: built_def)
  ultimately show ?thesis by blast
qed

end
