(* ===== verification/Tcp_Protocol.thy ===== *)
theory Tcp_Protocol
  imports Tcp_Session
begin

unbundle bit_operations_syntax

section \<open>The TCP client protocol\<close>

text \<open>
  What the operations of a TCP session do to its state and to the wire: the three-way handshake,
  the stream of data segments, the acknowledgements, and which arrivals stop the daemon. The
  step relation \<open>tcp_step\<close> has one rule per way a session changes; its invariant
  \<open>tcp_wf\<close> says which sequence variables have been set in which state.
\<close>

subsection \<open>What the operations do\<close>

definition next_id :: "'x net_scheme \<Rightarrow> 'x net_scheme" where
  "next_id st = st\<lparr>ip_last := snd (ip_id_next (ip_last st))\<rparr>"

text \<open>One more valid TCP packet on the wire, carrying the given segment.\<close>

definition sends :: "TcpSession \<Rightarrow> segment \<Rightarrow> 'x net_scheme \<Rightarrow> 'x net_scheme \<Rightarrow> bool" where
  "sends s sg st st' \<longleftrightarrow> (\<exists>pkt. st' = (next_id st)\<lparr>wire := wire st @ [pkt]\<rparr> \<and>
     valid_tcp_packet (laddr s) (faddr s) pkt \<and> segment_of pkt = sg)"

definition seg :: "TcpSession \<Rightarrow> u32 \<Rightarrow> u32 \<Rightarrow> byte \<Rightarrow> byte list \<Rightarrow> segment" where
  "seg s sn an fl buf = \<lparr>sg_source = lport s, sg_dest = fport s, sg_seq = sn, sg_ack_seq = an, sg_flags = fl,
     sg_window = 4096, sg_data = buf\<rparr>"

lemma ack2peer_sends:
  assumes "send_next s = Some sn"
  shows "\<exists>st'. ack2peer v s st = Inr st' \<and> sends s (seg s sn v 16 []) st st'"
proof -
  have "length ([] :: byte list) \<le> 65495" by simp
  from built_tx [OF built_ack [of s sn v] this, of s st] show ?thesis
    using assms by (fastforce simp: ack2peer_def sends_def seg_def next_id_def)
qed

lemma tcp_send_closed:
  assumes "conn_state s = TCP_CLOSED" and "lport s \<noteq> 0" and "length buf \<le> 65495"
  shows "\<exists>st'. tcp_send buf s st = Inr (int (length buf),
      s\<lparr>send_unack := Some iss, send_next := Some (iss + 1), conn_state := TCP_SYN_SENT\<rparr>, st') \<and>
    sends s (seg s iss 0 2 buf) st st'"
  using built_tx [OF built_syn [of s iss] assms(3), of
      "s\<lparr>send_unack := Some iss, send_next := Some (iss + 1), conn_state := TCP_SYN_SENT\<rparr>" st] assms(1,2)
  by (fastforce simp: tcp_send_def session_send_def sends_def seg_def next_id_def Let_def)

lemma tcp_send_established:
  assumes "conn_state s = TCP_ESTABLISHED" and "lport s \<noteq> 0" and "length buf \<le> 65495"
    and "send_next s = Some sn" and "recv_next s = Some rn"
  shows "\<exists>st'. tcp_send buf s st = Inr (int (length buf), s\<lparr>send_next := Some (sn + of_nat (length buf))\<rparr>, st') \<and>
    sends s (seg s sn rn 16 buf) st st'"
  using built_tx [OF built_data [of s sn rn] assms(3), of "s\<lparr>send_next := Some (sn + of_nat (length buf))\<rparr>" st] assms
  by (fastforce simp: tcp_send_def session_send_def sends_def seg_def next_id_def Let_def)

lemma tcp_send_other:
  assumes "conn_state s \<noteq> TCP_CLOSED" "conn_state s \<noteq> TCP_ESTABLISHED" "lport s \<noteq> 0"
  shows "tcp_send buf s st = Inr (0, s, st)"
  using assms by (auto simp: tcp_send_def session_send_def Let_def split: TcpState.splits)

subsection \<open>The step relation and its invariant\<close>

text \<open>A packet buffer as the receive path makes it: a transport header inside the raw bytes, the
  end of the packet inside them too.\<close>

definition rx_frame :: "FrameBuf \<Rightarrow> bool" where
  "rx_frame fb \<longleftrightarrow> (\<exists>t e. transport_hdr fb = Raw t \<and> user_payload_end fb = Raw e)"

inductive tcp_step :: "TcpSession \<Rightarrow> TcpSession \<Rightarrow> bool" where
  step_callback: "tcp_step s (s\<lparr>onConnEstabCB := Some ch\<rparr>)"
| step_socket: "tcp_step s (s\<lparr>socket_of := so\<rparr>)"
| step_connect: "tcp_connect fa fp s (st :: net) = Inr (r, s', st') \<Longrightarrow> tcp_step s s'"
| step_disconnect: "tcp_step s (tcp_disconnect s)"
| step_send_to: "session_send_to fa fp s port = (r, s', port') \<Longrightarrow> tcp_step s s'"
| step_send: "tcp_send buf s (st :: net) = Inr (r, s', st') \<Longrightarrow> tcp_step s s'"
| step_recv: "tcp_recv put estab fb s (st :: net) = Inr (s', st') \<Longrightarrow> tcp_step s s'"

inductive_cases tcp_stepE: "tcp_step s s'"

definition tcp_init :: "TcpSession \<Rightarrow> bool" where
  "tcp_init s \<longleftrightarrow> (\<exists>a. s = TcpSession_new a)"

interpretation tcp: transition_system tcp_init tcp_step .

text \<open>Up to ESTABLISHED, which is never left; the send variables are set with the first segment,
  the receive variables with the answer to it.\<close>

definition tcp_wf :: "TcpSession \<Rightarrow> bool" where
  "tcp_wf s \<longleftrightarrow> (conn_state s = TCP_CLOSED \<or> conn_state s = TCP_SYN_SENT \<or> conn_state s = TCP_ESTABLISHED) \<and>
     (TCP_SYN_SENT \<le> conn_state s \<longrightarrow> send_unack s \<noteq> None \<and> send_next s \<noteq> None) \<and>
     (TCP_ESTABLISHED \<le> conn_state s \<longrightarrow> irs s \<noteq> None \<and> recv_next s \<noteq> None)"

lemmas state_order = less_eq_TcpState_def less_TcpState_def

lemma session_frame [simp]:
  "conn_state (fst (session_bind s p)) = conn_state s"
  "send_unack (fst (session_bind s p)) = send_unack s" "send_next (fst (session_bind s p)) = send_next s"
  "irs (fst (session_bind s p)) = irs s" "recv_next (fst (session_bind s p)) = recv_next s"
  by (simp_all add: session_bind_def nextAvailPort_def)

lemma session_send_frame:
  assumes "session_send s p = (r, s', p')"
  shows "conn_state s' = conn_state s \<and> send_unack s' = send_unack s \<and> send_next s' = send_next s \<and>
    irs s' = irs s \<and> recv_next s' = recv_next s"
  using assms session_frame [of s p]
  by (auto simp: session_send_def Let_def split: prod.splits if_splits simp del: session_frame)

lemma session_connect_frame:
  assumes "session_connect fa fp s p = (s', p')"
  shows "conn_state s' = conn_state s \<and> send_unack s' = send_unack s \<and> send_next s' = send_next s \<and>
    irs s' = irs s \<and> recv_next s' = recv_next s"
  using assms session_frame [of "s\<lparr>faddr := fa, fport := fp\<rparr>" p]
  by (auto simp: session_connect_def Let_def split: prod.splits if_splits simp del: session_frame)

lemma session_send_to_frame:
  assumes "session_send_to fa fp s p = (r, s', p')"
  shows "conn_state s' = conn_state s \<and> send_unack s' = send_unack s \<and> send_next s' = send_next s \<and>
    irs s' = irs s \<and> recv_next s' = recv_next s"
  using assms session_frame [of s p]
  by (auto simp: session_send_to_def Let_def split: prod.splits if_splits simp del: session_frame)

text \<open>How each operation changes the state.\<close>

lemma tcp_send_state:
  assumes "tcp_send buf s st = Inr (r, s', st')"
  shows "conn_state s \<le> conn_state s' \<and> (tcp_wf s \<longrightarrow> tcp_wf s')"
  using assms
  by (auto simp: tcp_send_def Let_def bindr_eq_Inr tcp_wf_def state_order split: prod.splits TcpState.splits
      dest!: session_send_frame)

lemma tcp_connect_state:
  assumes "tcp_connect fa fp s st = Inr (r, s', st')"
  shows "conn_state s \<le> conn_state s' \<and> (tcp_wf s \<longrightarrow> tcp_wf s')"
proof -
  obtain s1 p1 r1 where c: "session_connect fa fp s (tcp_port st) = (s1, p1)"
    and sd: "tcp_send [] s1 (st\<lparr>tcp_port := p1\<rparr>) = Inr (r1, s', st')"
    using assms by (auto simp: tcp_connect_def bindr_eq_Inr split: prod.splits)
  show ?thesis using session_connect_frame [OF c] tcp_send_state [OF sd] by (simp add: tcp_wf_def)
qed

lemma tcp_recv_syn_sent:
  assumes "tcp_recv put estab fb s st = Inr (s', st')" "conn_state s = TCP_SYN_SENT"
  shows "\<exists>i su. s' = s\<lparr>irs := Some i, recv_next := Some (i + 1), send_unack := Some su,
    conn_state := TCP_ESTABLISHED\<rparr>"
  using assms by (auto simp: tcp_recv_def Let_def bindr_eq_Inr)

lemma tcp_recv_established:
  assumes "tcp_recv put estab fb s st = Inr (s', st')" "conn_state s = TCP_ESTABLISHED"
  shows "\<exists>su rn. s' = s\<lparr>send_unack := su, recv_next := rn\<rparr> \<and> (send_unack s \<noteq> None \<longrightarrow> su \<noteq> None) \<and>
    (recv_next s \<noteq> None \<longrightarrow> rn \<noteq> None)"
proof -
  obtain t s1 d where s1: "s1 = s \<or> (\<exists>k. s1 = s\<lparr>send_unack := Some k\<rparr>)"
    and s': "s' = s1 \<or> (\<exists>rn. s' = s1\<lparr>recv_next := Some rn\<rparr>)"
    using assms by (auto simp: tcp_recv_def Let_def bindr_eq_Inr split: if_splits)
  then show ?thesis by (cases s) auto
qed

lemma tcp_recv_state:
  assumes "tcp_recv put estab fb s st = Inr (s', st')"
  shows "conn_state s \<le> conn_state s' \<and> (tcp_wf s \<longrightarrow> tcp_wf s')"
proof -
  consider "conn_state s = TCP_SYN_SENT" | "conn_state s = TCP_ESTABLISHED"
    | "conn_state s \<noteq> TCP_SYN_SENT" "conn_state s \<noteq> TCP_ESTABLISHED" by blast
  then show ?thesis
  proof cases
    case 1
    with tcp_recv_syn_sent [OF assms] show ?thesis by (auto simp: tcp_wf_def state_order)
  next
    case 2
    with tcp_recv_established [OF assms] show ?thesis by (auto simp: tcp_wf_def state_order)
  next
    case 3
    with assms have "s' = s" by (cases "conn_state s") (auto simp: tcp_recv_def Let_def bindr_eq_Inr)
    then show ?thesis by simp
  qed
qed

lemma tcp_step_state: "tcp_step s s' \<Longrightarrow> conn_state s \<le> conn_state s' \<and> (tcp_wf s \<longrightarrow> tcp_wf s')"
  by (erule tcp_stepE)
    (auto simp: tcp_wf_def state_order tcp_disconnect_def dest: tcp_connect_state tcp_send_state tcp_recv_state dest!: session_send_to_frame)

lemma tcp_reachable_wf: "tcp.reachable s \<Longrightarrow> tcp_wf s"
  by (erule tcp.invariant)
    (auto simp: tcp_init_def TcpSession_new_def Session.defs tcp_wf_def state_order dest: tcp_step_state)

subsection \<open>Totality\<close>

lemma tcp_tx_total:
  assumes "tcp_template fb"
  shows "\<exists>fb' st'. prepareBeforeIpTx s fb buf = Inr fb' \<and> ip_tx fb' buf st = Inr st'"
proof -
  obtain r where r: "prepareBeforeIpTx s fb buf = Inr (fb\<lparr>rawBytes := r\<rparr>)"
    using assms by (simp add: prepareBeforeIpTx_def tcp_template_def Let_def)
  have "tx_layout (fb\<lparr>rawBytes := r\<rparr>) 40" using assms by (simp add: tx_layout_def tcp_template_def)
  from ip_tx_eq [OF this] r show ?thesis by blast
qed

lemma tcp_send_total:
  assumes "tcp_wf s"
  shows "\<exists>r. tcp_send buf s st = Inr r"
proof -
  obtain r s1 p1 where ss: "session_send s (tcp_port st) = (r, s1, p1)" by (metis prod.exhaust)
  note f = session_send_frame [OF ss]
  have tm: "tcp_template fb" if "built x sn an fl fb" for x sn an fl fb
    using that by (simp add: built_def)
  show ?thesis
  proof (cases "conn_state s = TCP_CLOSED")
    case True
    obtain fb' st' where "prepareBeforeIpTx
        (s1\<lparr>send_unack := Some iss, send_next := Some (iss + 1), conn_state := TCP_SYN_SENT\<rparr>)
        (upd_raw (set_syn 60) (upd_raw (put32 64 (bswap32 iss)) (socketBufferOfTcpTempl s1))) buf = Inr fb'"
      "ip_tx fb' buf (st\<lparr>tcp_port := p1\<rparr>) = Inr st'"
      using tcp_tx_total [OF tm [OF built_syn]] by blast
    then show ?thesis using True f ss by (simp add: tcp_send_def Let_def)
  next
    case False
    show ?thesis
    proof (cases "conn_state s = TCP_ESTABLISHED")
      case True
      then obtain sn rn where v: "send_next s1 = Some sn" "recv_next s1 = Some rn"
        using assms f by (auto simp: tcp_wf_def state_order)
      obtain fb' st' where "prepareBeforeIpTx (s1\<lparr>send_next := Some (sn + of_nat (length buf))\<rparr>)
          (upd_raw (put32 68 (bswap32 rn)) (upd_raw (set_ack 60) (upd_raw (put32 64 (bswap32 sn))
            (socketBufferOfTcpTempl s1)))) buf = Inr fb'" "ip_tx fb' buf (st\<lparr>tcp_port := p1\<rparr>) = Inr st'"
        using tcp_tx_total [OF tm [OF built_data]] by blast
      moreover have "conn_state s1 = TCP_ESTABLISHED" using True f by simp
      ultimately show ?thesis using ss v by (simp add: tcp_send_def Let_def)
    next
      case F: False
      then show ?thesis using False f ss by (cases "conn_state s") (simp_all add: tcp_send_def Let_def)
    qed
  qed
qed

text \<open>The acknowledgement in an arriving segment.\<close>

definition acked :: "(nat \<Rightarrow> byte) \<Rightarrow> nat \<Rightarrow> u32 \<Rightarrow> u32" where
  "acked r t su = (if tcp_ack r t \<and> su < bswap32 (tcp_ack_seq r t) then bswap32 (tcp_ack_seq r t) else su)"

lemma tcp_recv_acked:
  assumes "conn_state s = TCP_ESTABLISHED" "send_unack s = Some su" "transport_hdr fb = Raw t"
    "user_payload_end fb = Raw e"
  shows "tcp_recv put estab fb s st =
    (let b = t + tcp_doff (rawBytes fb) t * 4; s1 = s\<lparr>send_unack := Some (acked (rawBytes fb) t su)\<rparr> in
     if e = b then Inr (s1, st)
     else bindr (put (fb\<lparr>user_payload_begin := Raw b\<rparr>) st) (\<lambda>st1.
       bindr (initr (recv_next s)) (\<lambda>_.
       let rn = bswap32 (tcp_seq (rawBytes fb) t) + of_int (int e - int b); s2 = s1\<lparr>recv_next := Some rn\<rparr> in
       bindr (ack2peer rn s2 st1) (\<lambda>st2. Inr (s2, st2)))))"
proof -
  have s: "s\<lparr>send_unack := Some su\<rparr> = s" using assms(2) by (cases s) simp
  have s2: "s\<lparr>send_unack := Some su, recv_next := x\<rparr> = s\<lparr>recv_next := x\<rparr>" for x
    using assms(2) by (cases s) simp
  have i: "int e - int b \<noteq> 0 \<longleftrightarrow> e \<noteq> b" for b by auto
  show ?thesis
    using assms by (simp add: tcp_recv_def Let_def acked_def i s s2 del: of_int_diff of_nat_add of_nat_mult)
qed

lemma tcp_recv_data:
  assumes "conn_state s = TCP_ESTABLISHED" "send_unack s = Some su" "send_next s = Some sn" "recv_next s = Some rn"
    "transport_hdr fb = Raw t" "user_payload_end fb = Raw e" "e \<noteq> t + tcp_doff (rawBytes fb) t * 4"
    "put (fb\<lparr>user_payload_begin := Raw (t + tcp_doff (rawBytes fb) t * 4)\<rparr>) st = Inr st1"
    "rn' = bswap32 (tcp_seq (rawBytes fb) t) + of_int (int e - int (t + tcp_doff (rawBytes fb) t * 4))"
  shows "\<exists>st2. tcp_recv put estab fb s st =
      Inr (s\<lparr>send_unack := Some (acked (rawBytes fb) t su), recv_next := Some rn'\<rparr>, st2) \<and>
    sends s (seg s sn rn' 16 []) st1 st2"
proof -
  let ?s2 = "s\<lparr>send_unack := Some (acked (rawBytes fb) t su), recv_next := Some rn'\<rparr>"
  obtain st2 where "ack2peer rn' ?s2 st1 = Inr st2" "sends ?s2 (seg ?s2 sn rn' 16 []) st1 st2"
    using ack2peer_sends [of ?s2 sn rn' st1] assms(3) by auto
  moreover have "sends ?s2 (seg ?s2 sn rn' 16 []) st1 st2 = sends s (seg s sn rn' 16 []) st1 st2"
    by (simp add: sends_def seg_def)
  ultimately show ?thesis
    using assms tcp_recv_acked [OF assms(1,2,5,6), of put estab st]
    by (simp add: Let_def del: of_int_diff of_nat_add of_nat_mult)
qed

lemma tcp_recv_total:
  assumes "tcp_wf s" and "transport_hdr fb = Raw t" and "user_payload_end fb = Raw e"
    and put: "\<And>fb st. \<exists>st'. put fb st = Inr st'" and estab: "\<And>ch st. \<exists>st'. estab ch st = Inr st'"
    and ok: "conn_state s = TCP_SYN_SENT \<Longrightarrow> tcp_syn (rawBytes fb) t \<and> tcp_ack (rawBytes fb) t"
  shows "\<exists>r. tcp_recv put estab fb s st = Inr r"
proof -
  have ack: "\<exists>st'. ack2peer v s' st = Inr st'" if "send_next s' \<noteq> None" for v s' and st :: "'a net_scheme"
    using that ack2peer_sends [of s'] by blast
  consider "conn_state s = TCP_CLOSED" | "conn_state s = TCP_SYN_SENT" | "conn_state s = TCP_ESTABLISHED"
    using assms(1) by (auto simp: tcp_wf_def)
  then show ?thesis
  proof cases
    case 1
    then show ?thesis using assms(2) by (simp add: tcp_recv_def Let_def)
  next
    case 2
    then obtain su sn where v: "send_unack s = Some su" "send_next s = Some sn"
      using assms(1) by (auto simp: tcp_wf_def state_order)
    let ?i = "bswap32 (tcp_seq (rawBytes fb) t)"
    let ?s1 = "s\<lparr>irs := Some ?i, recv_next := Some (?i + 1), send_unack := Some (su + 1), conn_state := TCP_ESTABLISHED\<rparr>"
    obtain st1 where st1: "ack2peer (?i + 1) ?s1 st = Inr st1" using ack [of ?s1] v by auto
    obtain st2 where "(case onConnEstabCB s of None \<Rightarrow> Inr st1 | Some ch \<Rightarrow> estab ch st1) = Inr st2"
      using estab by (cases "onConnEstabCB s") auto
    with st1 show ?thesis
      using 2 ok v assms(2) by (simp add: tcp_recv_def Let_def)
  next
    case 3
    then obtain su sn rn where v: "send_unack s = Some su" "send_next s = Some sn" "recv_next s = Some rn"
      using assms(1) by (auto simp: tcp_wf_def state_order)
    obtain st1 where p: "put (fb\<lparr>user_payload_begin := Raw (t + tcp_doff (rawBytes fb) t * 4)\<rparr>) st = Inr st1"
      using put by blast
    show ?thesis
    proof (cases "e = t + tcp_doff (rawBytes fb) t * 4")
      case True
      then show ?thesis using tcp_recv_acked [OF 3 v(1) assms(2,3), of put estab st] by (simp add: Let_def)
    next
      case False
      show ?thesis using tcp_recv_data [where put = put, OF 3 v assms(2,3) False p refl, of estab] by blast
    qed
  qed
qed

subsection \<open>A stream of sends\<close>

fun tcp_send_all :: "byte list list \<Rightarrow> TcpSession \<Rightarrow> 'x net_scheme \<Rightarrow> (TcpSession \<times> 'x net_scheme) res" where
  "tcp_send_all [] s st = Inr (s, st)"
| "tcp_send_all (b # bs) s st = bindr (tcp_send b s st) (\<lambda>(_, s1, st1). tcp_send_all bs s1 st1)"

text \<open>The sequence number of the \<open>k\<close>th of a list of buffers.\<close>

definition offset :: "byte list list \<Rightarrow> nat \<Rightarrow> u32" where
  "offset bufs k = of_nat (length (concat (take k bufs)))"

lemma tcp_send_all_sends:
  assumes "conn_state s = TCP_ESTABLISHED" "lport s \<noteq> 0" "send_next s = Some sn" "recv_next s = Some rn"
    "list_all (\<lambda>b. length b \<le> 65495) bufs"
  shows "\<exists>s' st' pkts. tcp_send_all bufs s st = Inr (s', st') \<and> wire st' = wire st @ pkts \<and>
    list_all (valid_tcp_packet (laddr s) (faddr s)) pkts \<and>
    map segment_of pkts = map (\<lambda>k. seg s (sn + offset bufs k) rn 16 (bufs ! k)) [0..<length bufs] \<and>
    send_next s' = Some (sn + of_nat (length (concat bufs)))"
  using assms
proof (induction bufs arbitrary: s st sn)
  case (Cons b bufs)
  let ?s1 = "s\<lparr>send_next := Some (sn + of_nat (length b))\<rparr>"
  obtain st1 pkt where b: "tcp_send b s st = Inr (int (length b), ?s1, st1)"
    and pkt: "wire st1 = wire st @ [pkt]" "valid_tcp_packet (laddr s) (faddr s) pkt" "segment_of pkt = seg s sn rn 16 b"
    using tcp_send_established [of s b sn rn st] Cons.prems by (auto simp: sends_def)
  obtain s' st' pkts where rest: "tcp_send_all bufs ?s1 st1 = Inr (s', st')" "wire st' = wire st1 @ pkts"
    "list_all (valid_tcp_packet (laddr s) (faddr s)) pkts"
    "map segment_of pkts = map (\<lambda>k. seg ?s1 (sn + of_nat (length b) + offset bufs k) rn 16 (bufs ! k)) [0..<length bufs]"
    "send_next s' = Some (sn + of_nat (length b) + of_nat (length (concat bufs)))"
    using Cons.IH [of ?s1 "sn + of_nat (length b)" st1] Cons.prems by auto
  have "map segment_of (pkt # pkts) =
      map (\<lambda>k. seg s (sn + offset (b # bufs) k) rn 16 ((b # bufs) ! k)) [0..<length (b # bufs)]"
    unfolding length_Cons map_upt_Suc using rest(4) pkt(3)
    by (simp add: offset_def seg_def add.assoc)
  then show ?case
    using b rest pkt by (intro exI [of _ s'] exI [of _ st'] exI [of _ "pkt # pkts"]) (simp add: add.assoc)
qed simp

subsection \<open>Properties\<close>

text \<open>(C1) The data stream: sending buffers of up to 65495 bytes one after the other on an established
  session puts exactly one packet per buffer on the wire, in order. Each is a valid IPv4 packet
  from the session's local to its remote address whose IP and TCP checksums verify; it carries
  the buffer unchanged, the sequence number is the initial one plus the number of bytes sent
  before, and it acknowledges the next byte expected.\<close>

theorem tcp_stream:
  assumes "conn_state s = TCP_ESTABLISHED" and "lport s \<noteq> 0"
    and "send_next s = Some sn" and "recv_next s = Some rn"
    and "list_all (\<lambda>b. length b \<le> 65495) bufs"
  shows "\<exists>s' st' pkts. tcp_send_all bufs s st = Inr (s', st') \<and> wire st' = wire st @ pkts \<and>
    list_all (valid_tcp_packet (laddr s) (faddr s)) pkts \<and>
    map segment_of pkts = map (\<lambda>k. \<lparr>sg_source = lport s, sg_dest = fport s, sg_seq = sn + offset bufs k,
        sg_ack_seq = rn, sg_flags = 16, sg_window = 4096, sg_data = bufs ! k\<rparr>) [0..<length bufs] \<and>
    concat (map (sg_data \<circ> segment_of) pkts) = concat bufs"
proof -
  obtain s' st' pkts where p: "tcp_send_all bufs s st = Inr (s', st')" "wire st' = wire st @ pkts"
    "list_all (valid_tcp_packet (laddr s) (faddr s)) pkts"
    and m: "map segment_of pkts = map (\<lambda>k. seg s (sn + offset bufs k) rn 16 (bufs ! k)) [0..<length bufs]"
    using tcp_send_all_sends [OF assms] by blast
  have "map sg_data (map segment_of pkts) = bufs"
    unfolding m by (simp add: seg_def comp_def map_nth)
  then have "concat (map (sg_data \<circ> segment_of) pkts) = concat bufs" by simp
  with p m show ?thesis unfolding seg_def by blast
qed

definition est0 :: TcpSession where
  "est0 = (TcpSession_new 1)\<lparr>faddr := 2, fport := 80, lport := 1025, conn_state := TCP_ESTABLISHED,
     send_unack := Some 1, send_next := Some 2, irs := Some 7, recv_next := Some 8\<rparr>"

definition net0 :: net where
  "net0 = \<lparr>ip_last = 0, tcp_port = 1024, udp_port = 1024, wire = []\<rparr>"

theorem tcp_stream_witness:
  "\<exists>s' st' pkts. tcp_send_all [[1, 2, 3], [4]] est0 net0 = Inr (s', st') \<and> wire st' = pkts \<and>
     concat (map (sg_data \<circ> segment_of) pkts) = [1, 2, 3, 4]"
  using tcp_stream [of est0 2 8 "[[1, 2, 3], [4]]" net0]
  by (auto simp: est0_def net0_def TcpSession_new_def Session_new_def Session.defs)

text \<open>(C7) The three-way handshake: connecting a fresh session binds the next local port (the counter not being at its
  end, where it wraps to port 0) and sends one
  SYN with sequence number 1; when a segment with SYN and ACK set arrives later, the session is
  established, expects the byte after the peer's initial sequence number, sends one ACK of it
  with sequence number 2, and then runs the callback that answers the waiting process.\<close>

theorem tcp_handshake:
  assumes "s = (TcpSession_new la)\<lparr>onConnEstabCB := Some ch\<rparr>" and "tcp_port st \<noteq> 65535"
    and "transport_hdr fb = Raw t" and "tcp_syn (rawBytes fb) t" and "tcp_ack (rawBytes fb) t"
    and "isn = bswap32 (tcp_seq (rawBytes fb) t)"
  shows "\<exists>s1 st1. tcp_connect fa fp s st = Inr (0, s1, st1) \<and> conn_state s1 = TCP_SYN_SENT \<and>
    lport s1 = bswap16 (tcp_port st + 1) \<and> faddr s1 = fa \<and> fport s1 = fp \<and> laddr s1 = la \<and>
    sends s1 (seg s1 1 0 2 []) (st\<lparr>tcp_port := tcp_port st + 1\<rparr>) st1 \<and>
    (\<forall>st2. \<exists>st3. sends s1 (seg s1 2 (isn + 1) 16 []) st2 st3 \<and>
      tcp_recv put estab fb s1 st2 = bindr (estab ch st3) (\<lambda>st4.
        Inr (s1\<lparr>irs := Some isn, recv_next := Some (isn + 1), send_unack := Some 2,
              conn_state := TCP_ESTABLISHED\<rparr>, st4)))"
proof -
  have nz: "bswap16 (tcp_port st + 1) \<noteq> 0"
  proof
    assume "bswap16 (tcp_port st + 1) = 0"
    then have "tcp_port st + 1 = 0" by (metis bswap16_bswap16 bswap16_def bytes_0)
    then have "tcp_port st = - 1" by (simp add: add_eq_0_iff2)
    then show False using assms(2) by simp
  qed
  let ?c = "s\<lparr>faddr := fa, fport := fp, lport := bswap16 (tcp_port st + 1)\<rparr>"
  let ?s1 = "?c\<lparr>send_unack := Some iss, send_next := Some (iss + 1), conn_state := TCP_SYN_SENT\<rparr>"
  have c: "session_connect fa fp s (tcp_port st) = (?c, tcp_port st + 1)" "conn_state ?c = TCP_CLOSED"
    using assms(1) by (simp_all add: session_connect_def session_bind_def nextAvailPort_def TcpSession_new_def
        Session_new_def Session.defs)
  obtain st1 where sd: "tcp_send [] ?c (st\<lparr>tcp_port := tcp_port st + 1\<rparr>) = Inr (0, ?s1, st1)"
    and syn: "sends ?c (seg ?c iss 0 2 []) (st\<lparr>tcp_port := tcp_port st + 1\<rparr>) st1"
    using tcp_send_closed [of ?c "[]" "st\<lparr>tcp_port := tcp_port st + 1\<rparr>"] c(2) nz by auto
  have "tcp_connect fa fp s st = Inr (0, ?s1, st1)" using c(1) sd by (simp add: tcp_connect_def)
  moreover have "sends ?s1 (seg ?s1 1 0 2 []) (st\<lparr>tcp_port := tcp_port st + 1\<rparr>) st1"
    using syn by (simp add: sends_def seg_def iss_def)
  moreover have "\<exists>st3. sends ?s1 (seg ?s1 2 (isn + 1) 16 []) st2 st3 \<and> tcp_recv put estab fb ?s1 st2 =
      bindr (estab ch st3) (\<lambda>st4. Inr (?s1\<lparr>irs := Some isn, recv_next := Some (isn + 1), send_unack := Some 2,
        conn_state := TCP_ESTABLISHED\<rparr>, st4))" for st2
  proof -
    let ?s2 = "?s1\<lparr>irs := Some isn, recv_next := Some (isn + 1), send_unack := Some 2, conn_state := TCP_ESTABLISHED\<rparr>"
    obtain st3 where "ack2peer (isn + 1) ?s2 st2 = Inr st3" "sends ?s2 (seg ?s2 2 (isn + 1) 16 []) st2 st3"
      using ack2peer_sends [of ?s2 2 "isn + 1" st2] by (auto simp: iss_def)
    then show ?thesis
      using assms(1,3-6) by (auto simp: tcp_recv_def Let_def iss_def sends_def seg_def)
  qed
  ultimately show ?thesis using assms(1)
    by (intro exI [of _ ?s1] exI [of _ st1]) (simp add: TcpSession_new_def Session_new_def Session.defs)
qed

text \<open>A received buffer of the examples: a TCP header at offset 20 with the given flags and data end.\<close>

definition rx0 :: "byte \<Rightarrow> nat \<Rightarrow> FrameBuf" where
  "rx0 flags e = FrameBuf_new\<lparr>network_hdr := Raw 0, hdrs_begin := Raw 0, transport_hdr := Raw 20,
     user_payload_end := Raw e, rawBytes := (\<lambda>i. if i = 33 then flags else if i = 32 then 80 else 0)\<rparr>"

theorem tcp_handshake_witness:
  "\<exists>s1 st1. tcp_connect 2 80 ((TcpSession_new 1)\<lparr>onConnEstabCB := Some 5\<rparr>) net0 = Inr (0, s1, st1) \<and>
     conn_state s1 = TCP_SYN_SENT \<and> lport s1 = bswap16 1025"
proof -
  have "tcp_syn (rawBytes (rx0 18 40)) 20" "tcp_ack (rawBytes (rx0 18 40)) 20" "transport_hdr (rx0 18 40) = Raw 20"
    by (simp_all add: rx0_def tcp_syn_def tcp_ack_def)
  from tcp_handshake [where st = net0 and la = 1 and ch = 5 and fa = 2 and fp = 80
      and put = "\<lambda>_ st. Inr st" and estab = "\<lambda>_ st. Inr st", OF refl _ this(3,1,2) refl]
  show ?thesis by (auto simp: net0_def)
qed

text \<open>(C22) No sequence variable is read before it is set, although the constructor leaves all of them
  unset: on every reachable session \<open>send\<close> returns, and \<open>recv\<close> of any packet returns
  (when queueing and the callback do) with one exception - in SYN_SENT a segment without both SYN
  and ACK, a RST for instance, fails the assertion and stops the daemon, if it was built with assertions.\<close>

theorem tcp_reachable_safe:
  assumes "tcp.reachable s" and "transport_hdr fb = Raw t" and "user_payload_end fb = Raw e"
    and "\<And>fb st. \<exists>st'. put fb st = Inr st'" and "\<And>ch st. \<exists>st'. estab ch st = Inr st'"
  shows "(\<exists>r. tcp_send buf s st = Inr r) \<and>
    (if conn_state s = TCP_SYN_SENT \<and> \<not> (tcp_syn (rawBytes fb) t \<and> tcp_ack (rawBytes fb) t)
     then tcp_recv put estab fb s st = Inl AssertFailed
     else \<exists>r. tcp_recv put estab fb s st = Inr r)"
proof (cases "conn_state s = TCP_SYN_SENT \<and> \<not> (tcp_syn (rawBytes fb) t \<and> tcp_ack (rawBytes fb) t)")
  case True
  then show ?thesis
    using tcp_send_total [OF tcp_reachable_wf [OF assms(1)]] assms(2)
    by (auto simp: tcp_recv_def Let_def)
next
  case False
  then show ?thesis
    using tcp_send_total [OF tcp_reachable_wf [OF assms(1)]]
      tcp_recv_total [OF tcp_reachable_wf [OF assms(1)] assms(2,3,4,5)] by auto
qed

theorem tcp_reachable_safe_witness:
  "\<exists>s. conn_state s = TCP_SYN_SENT \<and>
     tcp_recv (\<lambda>_ st. Inr st) (\<lambda>_ st. Inr st) (rx0 4 40) s net0 = Inl AssertFailed"
proof -
  obtain r s st' where c: "tcp_connect 2 80 (TcpSession_new 1) net0 = Inr (r, s, st')"
    and st: "conn_state s = TCP_SYN_SENT"
    using tcp_send_closed [of "(TcpSession_new 1)\<lparr>faddr := 2, fport := 80, lport := bswap16 1025\<rparr>" "[]" "net0\<lparr>tcp_port := 1025\<rparr>"]
    by (auto simp: tcp_connect_def session_connect_def session_bind_def nextAvailPort_def TcpSession_new_def
        Session_new_def Session.defs net0_def bswap16_def lo8_def hi8_def le16_def)
  have "tcp.reachable s"
    using tcp.reach_step [OF tcp.reach_init step_connect [OF c]] by (auto simp: tcp_init_def)
  moreover have "transport_hdr (rx0 4 40) = Raw 20" "user_payload_end (rx0 4 40) = Raw 40"
    "\<not> tcp_syn (rawBytes (rx0 4 40)) 20"
    by (simp_all add: rx0_def tcp_syn_def)
  ultimately have "tcp_recv (\<lambda>_ st. Inr st) (\<lambda>_ st. Inr st) (rx0 4 40) s net0 = Inl AssertFailed"
    using tcp_reachable_safe [of s "rx0 4 40" 20 40 "\<lambda>_ st. Inr st" "\<lambda>_ st. Inr st" "[]" net0] st by auto
  with st show ?thesis by blast
qed

lemma tcp_steps_state: "tcp_step\<^sup>*\<^sup>* s s' \<Longrightarrow> conn_state s \<le> conn_state s'"
  by (induction rule: rtranclp_induct) (auto dest: tcp_step_state)

text \<open>(C32) A session never goes back. Whatever is done with it - connecting, sending with or without an address, disconnecting, setting
  its callback or its socket - and whatever segments arrive, in any number and order, the state does not get lower in the order
  of the enumeration, and not past ESTABLISHED. So an established session stays established: a segment is
  processed without an error (if queueing and the callback are), whatever its flags, FIN and RST included, and the state is ESTABLISHED afterwards and for ever.\<close>

theorem tcp_never_closes:
  assumes "tcp.reachable s" and "tcp_step\<^sup>*\<^sup>* s s'"
  shows "conn_state s \<le> conn_state s' \<and> conn_state s' \<le> TCP_ESTABLISHED \<and>
    (conn_state s = TCP_ESTABLISHED \<and> rx_frame fb \<and> (\<forall>fb st. \<exists>st'. put fb st = Inr st') \<and> (\<forall>ch st. \<exists>st'. estab ch st = Inr st') \<longrightarrow>
      (\<exists>s2 st2. tcp_recv put estab fb s' (st :: net) = Inr (s2, st2) \<and>
        conn_state s2 = TCP_ESTABLISHED \<and> tcp_step\<^sup>*\<^sup>* s s2))"
proof (intro conjI impI)
  have wf: "tcp_wf s'" using tcp_reachable_wf [OF tcp.reachable_steps [OF assms]] .
  then have top: "conn_state s' \<le> TCP_ESTABLISHED" by (auto simp: tcp_wf_def state_order)
  then show "conn_state s \<le> conn_state s'" "conn_state s' \<le> TCP_ESTABLISHED" using tcp_steps_state [OF assms(2)] by simp_all
  assume a: "conn_state s = TCP_ESTABLISHED \<and> rx_frame fb \<and> (\<forall>fb st. \<exists>st'. put fb st = Inr st') \<and> (\<forall>ch st. \<exists>st'. estab ch st = Inr st')"
  then have e: "conn_state s' = TCP_ESTABLISHED" using tcp_steps_state [OF assms(2)] top by simp
  obtain t e where "transport_hdr fb = Raw t" "user_payload_end fb = Raw e" using a by (auto simp: rx_frame_def)
  from tcp_recv_total [OF wf this, of put estab st] a e
  obtain s2 st2 where r: "tcp_recv put estab fb s' st = Inr (s2, st2)" by auto
  have "conn_state s2 = TCP_ESTABLISHED" using tcp_recv_established [OF r e] e by auto
  moreover have "tcp_step\<^sup>*\<^sup>* s s2" using assms(2) step_recv [OF r] by (rule rtranclp.rtrancl_into_rtrancl)
  ultimately show "\<exists>s2 st2. tcp_recv put estab fb s' st = Inr (s2, st2) \<and> conn_state s2 = TCP_ESTABLISHED \<and> tcp_step\<^sup>*\<^sup>* s s2"
    using r by blast
qed

text \<open>A connection that is opened, answered, and then gets a segment with FIN and RST.\<close>

theorem tcp_never_closes_witness:
  "\<exists>s1 st1 s2 st2 s3 st3. tcp_connect 2 80 (TcpSession_new 1) net0 = Inr (0, s1, st1) \<and>
     tcp_recv (\<lambda>_ st. Inr st) (\<lambda>_ st. Inr st) (rx0 18 40) s1 st1 = Inr (s2, st2) \<and> conn_state s2 = TCP_ESTABLISHED \<and>
     tcp_recv (\<lambda>_ st. Inr st) (\<lambda>_ st. Inr st) (rx0 5 40) (tcp_disconnect s2) st2 = Inr (s3, st3) \<and> conn_state s3 = TCP_ESTABLISHED"
proof -
  obtain s1 st1 where c: "tcp_connect 2 80 (TcpSession_new 1) net0 = Inr (0, s1, st1)" and st: "conn_state s1 = TCP_SYN_SENT"
    using tcp_send_closed [of "(TcpSession_new 1)\<lparr>faddr := 2, fport := 80, lport := bswap16 1025\<rparr>" "[]" "net0\<lparr>tcp_port := 1025\<rparr>"]
    by (auto simp: tcp_connect_def session_connect_def session_bind_def nextAvailPort_def TcpSession_new_def
        Session_new_def Session.defs net0_def bswap16_def lo8_def hi8_def le16_def)
  have r1: "tcp.reachable s1" using tcp.reach_step [OF tcp.reach_init step_connect [OF c]] by (auto simp: tcp_init_def)
  have rx: "transport_hdr (rx0 f 40) = Raw 20" "user_payload_end (rx0 f 40) = Raw 40" "rx_frame (rx0 f 40)" for f
    by (simp_all add: rx0_def rx_frame_def)
  have "tcp_syn (rawBytes (rx0 18 40)) 20 \<and> tcp_ack (rawBytes (rx0 18 40)) 20" by (simp add: rx0_def tcp_syn_def tcp_ack_def)
  then obtain s2 st2 where s2: "tcp_recv (\<lambda>_ st. Inr st) (\<lambda>_ st. Inr st) (rx0 18 40) s1 st1 = Inr (s2, st2)"
    using tcp_recv_total [OF tcp_reachable_wf [OF r1] rx(1,2), of "\<lambda>_ st. Inr st" "\<lambda>_ st. Inr st" 18 st1] by auto
  have e: "conn_state s2 = TCP_ESTABLISHED" using tcp_recv_syn_sent [OF s2 st] by auto
  have "tcp.reachable s2" using tcp.reach_step [OF r1 step_recv [OF s2]] .
  from tcp_never_closes [OF this r_into_rtranclp [of tcp_step, OF step_disconnect], of "rx0 5 40" "\<lambda>_ st. Inr st" "\<lambda>_ st. Inr st" st2] e rx(3) c s2
  show ?thesis by blast
qed

text \<open>What an established session does with a data segment: it queues the payload, takes over a
  higher acknowledgement, and acknowledges the segment's own end - also when the segment is not
  the next one expected, so a gap is acknowledged and an old segment moves the acknowledgement
  back.\<close>

theorem tcp_data_segment:
  assumes "conn_state s = TCP_ESTABLISHED" and "send_unack s = Some su" and "send_next s = Some sn"
    and "recv_next s = Some rn" and "transport_hdr fb = Raw t" and "user_payload_end fb = Raw e"
    and "t + tcp_doff (rawBytes fb) t * 4 < e"
    and "put (fb\<lparr>user_payload_begin := Raw (t + tcp_doff (rawBytes fb) t * 4)\<rparr>) st = Inr st1"
    and "rn' = bswap32 (tcp_seq (rawBytes fb) t) + of_nat (e - (t + tcp_doff (rawBytes fb) t * 4))"
  shows "\<exists>st2. tcp_recv put estab fb s st =
      Inr (s\<lparr>send_unack := Some (acked (rawBytes fb) t su), recv_next := Some rn'\<rparr>, st2) \<and>
    sends s (seg s sn rn' 16 []) st1 st2"
proof -
  have "of_int (int e - int (t + tcp_doff (rawBytes fb) t * 4)) =
      (of_nat (e - (t + tcp_doff (rawBytes fb) t * 4)) :: u32)"
    using assms(7) by (simp add: of_nat_diff)
  then show ?thesis using tcp_recv_data [where put = put, OF assms(1-6) _ assms(8)] assms(7,9) by simp
qed

theorem tcp_data_segment_witness:
  "\<exists>s2 st2. tcp_recv (\<lambda>_ st. Inr st) (\<lambda>_ st. Inr st) (rx0 0 45) est0 net0 = Inr (s2, st2) \<and>
     recv_next est0 = Some 8 \<and> recv_next s2 = Some 5"
proof -
  have "tcp_doff (rawBytes (rx0 0 45)) 20 = 5" "tcp_seq (rawBytes (rx0 0 45)) 20 = 0"
    by (simp_all add: rx0_def tcp_doff_def tcp_seq_def get32_def get16_def)
  then show ?thesis
    using tcp_data_segment [of est0 1 2 8 "rx0 0 45" 20 45 "\<lambda>_ st. Inr st" net0 net0 5 "\<lambda>_ st. Inr st"]
    by (auto simp: est0_def rx0_def)
qed

end
