(* ===== verification/Log_Format.thy ===== *)
theory Log_Format
  imports Velox_Prelude
begin

section \<open>Log lines and levels (src/veloxd/Logging.cpp)\<close>

text \<open>
  The functions of the logging component that compute: the name of a source file, the padded
  position in front of a message, and the choice of the level. Formatting and the sinks belong to
  Boost.Log. The buffer \<open>padded\<close> has 24 elements; reading or writing behind it is a fault.
\<close>

subsection \<open>Standard library\<close>

text \<open>\<open>%d\<close> for a number that is not negative, and \<open>std::string::find_last_of\<close> with \<open>substr\<close>.\<close>

fun digits :: "nat \<Rightarrow> string" where
  "digits n = (if n < 10 then [char_of (48 + n)] else digits (n div 10) @ [char_of (48 + n mod 10)])"

declare digits.simps [simp del]

definition show_int :: "int \<Rightarrow> string" where
  "show_int k = (if k < 0 then CHR ''-'' # digits (nat (- k)) else digits (nat k))"

definition write_at :: "nat \<Rightarrow> string \<Rightarrow> string \<Rightarrow> string res" where
  "write_at i cs buf =
     (if i + length cs \<le> length buf then Inr (take i buf @ cs @ drop (i + length cs) buf) else Inl OutOfBounds)"

text \<open>\<open>snprintf\<close>: at most \<open>n - 1\<close> characters and a null character are written; the length of
  the whole text is returned.\<close>

definition snprintf :: "nat \<Rightarrow> nat \<Rightarrow> string \<Rightarrow> string \<Rightarrow> (nat \<times> string) res" where
  "snprintf i n txt buf = bindr (write_at i (take (n - 1) txt @ [CHR 0x00]) buf) (\<lambda>buf'. Inr (length txt, buf'))"

subsection \<open>The functions\<close>

definition path_to_filename :: "string \<Rightarrow> string" where
  "path_to_filename path = rev (takeWhile (\<lambda>c. c \<noteq> CHR ''/'' \<and> c \<noteq> CHR 0x5C) (rev path))"

definition log_maxlen :: nat where "log_maxlen = 18 + 1 + 4"

definition fixed_minlen :: nat where "fixed_minlen = 17"

text \<open>The last element of the buffer is not initialised; \<open>memset\<close> fills the others. It is
  overwritten whenever it is used, so any value will do.\<close>

definition file_lineno_with_padding :: "char \<Rightarrow> string \<Rightarrow> int \<Rightarrow> string res" where
  "file_lineno_with_padding junk filename lineno =
     (let padded = replicate log_maxlen CHR '' '' @ [junk]; n = min (length filename) 18 in
      bindr (write_at 0 (take n filename) padded) (\<lambda>p1.
      bindr (snprintf n (1 + 4 + 1) (CHR '':'' # show_int lineno) p1) (\<lambda>(k, p2).
      let i = n + k in
      bindr (write_at i [CHR '' ''] p2) (\<lambda>p3.
      let len = (if i > fixed_minlen then i else fixed_minlen) in
      if len \<le> length p3 then Inr (take len p3) else Inl OutOfBounds))))"

datatype severity = Debug | Info | Warning | Error | Fatal

text \<open>The order of Boost.Log: the filter lets pass what is at least the level.\<close>

instantiation severity :: linorder
begin

fun sev_rank :: "severity \<Rightarrow> nat" where
  "sev_rank Debug = 1" | "sev_rank Info = 2" | "sev_rank Warning = 3" | "sev_rank Error = 4" | "sev_rank Fatal = 5"

definition less_eq_severity :: "severity \<Rightarrow> severity \<Rightarrow> bool" where
  "less_eq_severity a b \<longleftrightarrow> sev_rank a \<le> sev_rank b"

definition less_severity :: "severity \<Rightarrow> severity \<Rightarrow> bool" where
  "less_severity a b \<longleftrightarrow> sev_rank a < sev_rank b"

instance
proof
  fix a b c :: severity
  have inj: "a = b" if "sev_rank a = sev_rank b" for a b using that by (cases a; cases b) auto
  show "a < b \<longleftrightarrow> a \<le> b \<and> \<not> b \<le> a" "a \<le> a" "a \<le> b \<or> b \<le> a"
    by (auto simp: less_eq_severity_def less_severity_def)
  show "a \<le> c" if "a \<le> b" "b \<le> c" using that by (simp add: less_eq_severity_def)
  show "a = b" if "a \<le> b" "b \<le> a" using that inj by (simp add: less_eq_severity_def)
qed

end

text \<open>The switch on the first character; \<open>None\<close> is the exception.\<close>

definition logging_level :: "string \<Rightarrow> severity option" where
  "logging_level lstr = (case lstr of
       [] \<Rightarrow> None
     | c # _ \<Rightarrow>
         if c = CHR ''d'' then Some Debug else if c = CHR ''i'' then Some Info else if c = CHR ''w'' then Some Warning
         else if c = CHR ''e'' then Some Error else if c = CHR ''f'' then Some Fatal else None)"

subsection \<open>Lemmas\<close>

lemma length_digits: "0 < length (digits n) \<and> (0 < k \<longrightarrow> (n < 10 ^ k \<longleftrightarrow> length (digits n) \<le> k))"
proof (induction n arbitrary: k rule: digits.induct)
  case (1 n)
  show ?case
  proof (cases "n < 10")
    case True
    have "n < 10 ^ k" if "0 < k" using True that power_increasing [of 1 k "10 :: nat"] by auto
    then show ?thesis using True by (auto simp: digits.simps [of n])
  next
    case False
    note ih = 1 [OF False]
    have "n < 10 ^ k \<longleftrightarrow> length (digits (n div 10)) + 1 \<le> k" if "0 < k"
    proof (cases "k = 1")
      case True
      then show ?thesis using False ih [of 1] by (cases "digits (n div 10)") auto
    next
      case k: False
      then have "n < 10 ^ k \<longleftrightarrow> n div 10 < 10 ^ (k - 1)"
        using that by (cases k) (auto simp: div_less_iff_less_mult mult.commute)
      also have "\<dots> \<longleftrightarrow> length (digits (n div 10)) \<le> k - 1" using ih [of "k - 1"] k that by simp
      finally show ?thesis using k that by auto
    qed
    then show ?thesis using False by (simp add: digits.simps [of n])
  qed
qed

lemma path_to_filename_suffix:
  "\<exists>dir. path = dir @ path_to_filename path \<and> (dir = [] \<or> last dir = CHR ''/'' \<or> last dir = CHR 0x5C)"
proof -
  let ?P = "\<lambda>c. c \<noteq> CHR ''/'' \<and> c \<noteq> CHR 0x5C"
  have "path = rev (dropWhile ?P (rev path)) @ path_to_filename path"
    unfolding path_to_filename_def by (simp only: rev_append [symmetric] takeWhile_dropWhile_id rev_rev_ident)
  moreover have "rev ys = [] \<or> last (rev ys) = CHR ''/'' \<or> last (rev ys) = CHR 0x5C" if "ys = dropWhile ?P (rev path)" for ys
    using hd_dropWhile [of ?P "rev path"] that by (cases "ys = []") (simp_all add: last_rev)
  ultimately show ?thesis by blast
qed

lemma write_after:
  assumes "length p = n" "length cs \<le> length q"
  shows "write_at n cs (p @ q) = Inr (p @ cs @ drop (length cs) q)"
  using assms by (simp add: write_at_def)

lemma file_lineno_short:
  assumes n: "n = min (length name) 18" and k: "k = length (show_int line)" "k \<le> 4"
  shows "file_lineno_with_padding junk name line =
    Inr (take n name @ CHR '':'' # show_int line @ replicate (17 - (n + 1 + k)) CHR '' '')"
proof -
  let ?txt = "CHR '':'' # show_int line" and ?nm = "take n name" and ?b = "CHR '' ''"
  have nl: "length ?nm = n" "n \<le> 18" using n by simp_all
  have p1: "write_at 0 ?nm (replicate log_maxlen ?b @ [junk]) = Inr (?nm @ replicate (23 - n) ?b @ [junk])"
    using write_after [of "[]" 0 ?nm "replicate log_maxlen ?b @ [junk]"] nl by (simp add: log_maxlen_def)
  let ?q = "drop (k + 2) (replicate (23 - n) ?b @ [junk])"
  have p2: "snprintf n 6 ?txt (?nm @ replicate (23 - n) ?b @ [junk]) = Inr (k + 1, ?nm @ ?txt @ [CHR 0x00] @ ?q)"
    using write_after [OF nl(1), of "?txt @ [CHR 0x00]" "replicate (23 - n) ?b @ [junk]"] nl(2) k by (simp add: snprintf_def)
  have p3: "write_at (n + (k + 1)) [?b] (?nm @ ?txt @ [CHR 0x00] @ ?q) = Inr (?nm @ ?txt @ [?b] @ ?q)"
    using write_after [of "?nm @ ?txt" "n + (k + 1)" "[?b]" "[CHR 0x00] @ ?q"] nl(1) k(1) by simp
  have q: "take j ([?b] @ ?q) = replicate j ?b" if "j \<le> 16 - n - k" for j
    using that nl(2) k(2) by (cases j) (simp_all add: min_def)
  have "take (if n + (k + 1) > 17 then n + (k + 1) else 17) (?nm @ ?txt @ [?b] @ ?q) = ?nm @ ?txt @ replicate (17 - (n + 1 + k)) ?b"
  proof (cases "n + (k + 1) > 17")
    case True
    then show ?thesis using nl(1) k(1) by simp
  next
    case False
    have tk: "take (length xs + j) (xs @ ys) = xs @ take j ys" for xs ys :: string and j by simp
    have "17 = length (?nm @ ?txt) + (16 - n - k)" using False nl(1) k(1) by simp
    then have "take 17 (?nm @ ?txt @ [?b] @ ?q) = ?nm @ ?txt @ take (16 - n - k) ([?b] @ ?q)"
      using tk [of "?nm @ ?txt" "16 - n - k" "[?b] @ ?q"] by (simp only: append_assoc)
    then show ?thesis using False q [of "16 - n - k"] by simp
  qed
  moreover have "length ?q = 22 - (n + k)" using nl(2) k(2) by simp
  then have "(if n + (k + 1) > 17 then n + (k + 1) else 17) \<le> length (?nm @ ?txt @ [?b] @ ?q)"
    using nl k by (simp del: length_drop)
  moreover have "file_lineno_with_padding junk name line = (let len = if n + (k + 1) > 17 then n + (k + 1) else 17 in
      if len \<le> length P3 then Inr (take len P3) else Inl OutOfBounds)" if "P3 = ?nm @ ?txt @ [?b] @ ?q" for P3
    unfolding file_lineno_with_padding_def Let_def n [symmetric] fixed_minlen_def p1 using p2 p3 that by simp
  ultimately show ?thesis by (simp add: Let_def del: length_append take_append)
qed

lemma position_fits:
  assumes "0 \<le> line" "line \<le> 9999"
  shows "file_lineno_with_padding junk name line =
    Inr (take 18 name @ CHR '':'' # show_int line @ replicate (17 - length (take 18 name @ CHR '':'' # show_int line)) CHR '' '')"
proof -
  have "nat line < 10000" using assms(2) by linarith
  then have "length (show_int line) \<le> 4" using assms(1) length_digits [of "nat line" 4] by (simp add: show_int_def)
  moreover have "take (min (length name) 18) name = take 18 name" by (cases "length name \<le> 18") simp_all
  ultimately show ?thesis using file_lineno_short [OF refl refl, of line junk name] by simp
qed

text \<open>The position printed with a log message. For line numbers of up to four digits it is the first 18
  characters of the file's name, a colon and the number, padded with blanks to at least 17
  characters; the buffer is never left, whatever was in its last element. From five digits on, a name of 18 or
  more characters makes the function write behind the buffer.\<close>

theorem log_position:
  "(0 \<le> line \<and> line \<le> 9999 \<longrightarrow>
     (let txt = take 18 name @ CHR '':'' # show_int line in
      file_lineno_with_padding junk name line = Inr (txt @ replicate (17 - length txt) CHR '' ''))) \<and>
   (9999 < line \<and> 18 \<le> length name \<longrightarrow> file_lineno_with_padding junk name line = Inl OutOfBounds)"
proof -
  have long: "file_lineno_with_padding junk name line = Inl OutOfBounds" if "9999 < line" "18 \<le> length name"
  proof -
    have "\<not> nat line < 10000" using that(1) by linarith
    then have k: "4 < length (show_int line)" using that(1) length_digits [of "nat line" 4] by (simp add: show_int_def)
    let ?nm = "take 18 name" and ?txt = "CHR '':'' # show_int line"
    have p1: "write_at 0 ?nm (replicate log_maxlen CHR '' '' @ [junk]) = Inr (?nm @ replicate 5 CHR '' '' @ [junk])"
      using write_after [of "[]" 0 ?nm "replicate log_maxlen CHR '' '' @ [junk]"] that(2) by (simp add: log_maxlen_def)
    have p2: "snprintf 18 6 ?txt (?nm @ replicate 5 CHR '' '' @ [junk]) = Inr (length ?txt, ?nm @ take 5 ?txt @ [CHR 0x00])"
      using write_after [of ?nm 18 "take 5 ?txt @ [CHR 0x00]" "replicate 5 CHR '' '' @ [junk]"] that(2) k by (simp add: snprintf_def)
    have p3: "write_at (18 + length ?txt) [CHR '' ''] (?nm @ take 5 ?txt @ [CHR 0x00]) = Inl OutOfBounds"
      using that(2) k by (simp add: write_at_def)
    show ?thesis using p1 p2 p3 that(2) by (simp add: file_lineno_with_padding_def Let_def bindr_def)
  qed
  show ?thesis using position_fits [of line junk name] long by (auto simp: Let_def)
qed

theorem log_position_witness:
  "file_lineno_with_padding CHR ''x'' ''Ip.cpp'' 98 = Inr ''Ip.cpp:98        '' \<and>
   file_lineno_with_padding CHR ''x'' ''InterfaceLayer.cpp'' 12345 = Inl OutOfBounds"
proof -
  have "char_of (57 :: nat) = CHR ''9''" "char_of (56 :: nat) = CHR ''8''" by code_simp+
  moreover have "replicate 8 CHR '' '' = ''        ''" by (simp add: numeral_eq_Suc)
  ultimately show ?thesis using log_position [of 98 "''Ip.cpp''" "CHR ''x''"] log_position [of 12345 "''InterfaceLayer.cpp''" "CHR ''x''"]
    by (simp add: show_int_def digits.simps Let_def)
qed

end
