(* ===== verification/Log_Core.thy ===== *)
theory Log_Core
  imports Log_Format
begin

section \<open>Log records (src/veloxd: Logging.h, Logging.cpp)\<close>

text \<open>
  The attributes of a log record, where they come from, and the line that is written. The state is what the code has put into the
  core of Boost.Log. Adding an attribute that is there already changes nothing; the attributes of a thread are its own, and a copy of an
  attribute refers to the same value; an attribute that is not there is an empty one, whose members dereference a null
  pointer. Opening a record and handing its line to the sinks is the library's work: the record \<open>loglib\<close>, with the locale
  \<open>log_library\<close> for what its documentation says - the filter comes first, then the values of all attributes are
  taken, and the counter behind \<open>LineID\<close>, an \<open>unsigned int\<close> that starts at 1, goes on and wraps around; a line goes to all sinks. Threads are the numbers \<open>gettid\<close> gives.
\<close>

subsection \<open>State\<close>

record thread_attrs =
  ta_File :: string
  ta_Line :: int
  ta_NativeThreadID :: nat

datatype log_sink = ConsoleSink | FileSink

record logcore =
  log_filter :: "severity option"
  log_line_id :: "u32 option"
  log_pid :: "int option"
  log_threads :: "nat \<Rightarrow> thread_attrs option"
  log_sinks :: "log_sink list"
  log_out :: "(log_sink \<times> string) list"

definition logcore_new :: logcore where
  "logcore_new = \<lparr>log_filter = None, log_line_id = None, log_pid = None, log_threads = (\<lambda>_. None), log_sinks = [], log_out = []\<rparr>"

subsection \<open>Initialisation\<close>

definition add_common_attributes :: "int \<Rightarrow> ('a) logcore_scheme \<Rightarrow> ('a) logcore_scheme" where
  "add_common_attributes pid L =
     L\<lparr>log_line_id := (case log_line_id L of None \<Rightarrow> Some 1 | Some n \<Rightarrow> Some n),
       log_pid := (case log_pid L of None \<Rightarrow> Some pid | Some p \<Rightarrow> Some p)\<rparr>"

definition LoggingThreadInitializer_run :: "nat \<Rightarrow> ('a) logcore_scheme \<Rightarrow> ('a) logcore_scheme" where
  "LoggingThreadInitializer_run t L =
     (case log_threads L t of
        None \<Rightarrow> L\<lparr>log_threads := (log_threads L)(t \<mapsto> \<lparr>ta_File = [], ta_Line = 0, ta_NativeThreadID = t\<rparr>)\<rparr>
      | Some a \<Rightarrow> L)"

text \<open>The result is whether it returns; otherwise it throws, after it has added the attributes.\<close>

definition LoggingInitializer_run :: "int \<Rightarrow> nat \<Rightarrow> bool \<Rightarrow> string \<Rightarrow> ('a) logcore_scheme \<Rightarrow> bool \<times> ('a) logcore_scheme" where
  "LoggingInitializer_run pid t to_stdout lstr L =
     (let L1 = LoggingThreadInitializer_run t (add_common_attributes pid L) in
      case logging_level lstr of
        None \<Rightarrow> (False, L1)
      | Some l \<Rightarrow> (True, L1\<lparr>log_filter := Some l, log_sinks := log_sinks L1 @ [if to_stdout then ConsoleSink else FileSink]\<rparr>))"

subsection \<open>A log statement\<close>

definition set_get_File :: "nat \<Rightarrow> string \<Rightarrow> ('a) logcore_scheme \<Rightarrow> (string \<times> ('a) logcore_scheme) res" where
  "set_get_File t v L = bindr (derefr (log_threads L t)) (\<lambda>a. Inr (v, L\<lparr>log_threads := (log_threads L)(t \<mapsto> a\<lparr>ta_File := v\<rparr>)\<rparr>))"

definition set_get_Line :: "nat \<Rightarrow> int \<Rightarrow> ('a) logcore_scheme \<Rightarrow> (int \<times> ('a) logcore_scheme) res" where
  "set_get_Line t v L = bindr (derefr (log_threads L t)) (\<lambda>a. Inr (v, L\<lparr>log_threads := (log_threads L)(t \<mapsto> a\<lparr>ta_Line := v\<rparr>)\<rparr>))"

record log_record =
  lr_id :: "u32 option"
  lr_time :: string
  lr_pid :: "int option"
  lr_thread :: nat
  lr_file :: string
  lr_line :: int
  lr_sev :: severity

record loglib =
  lib_open :: "nat \<Rightarrow> severity \<Rightarrow> logcore \<Rightarrow> log_record option \<times> logcore"
  lib_push :: "string \<Rightarrow> logcore \<Rightarrow> logcore"

locale log_library =
  fixes B :: loglib
  assumes open_dropped: "log_filter L = Some l \<Longrightarrow> \<not> l \<le> sev \<Longrightarrow> lib_open B t sev L = (None, L)"
    and open_taken: "log_filter L = Some l \<Longrightarrow> l \<le> sev \<Longrightarrow> log_threads L t = Some a \<Longrightarrow>
      \<exists>time. lib_open B t sev L = (Some \<lparr>lr_id = log_line_id L, lr_time = time, lr_pid = log_pid L, lr_thread = ta_NativeThreadID a,
        lr_file = ta_File a, lr_line = ta_Line a, lr_sev = sev\<rparr>, L\<lparr>log_line_id := map_option (\<lambda>n. n + 1) (log_line_id L)\<rparr>)"
    and pushed_out: "lib_push B line L = L\<lparr>log_out := log_out L @ map (\<lambda>k. (k, line)) (log_sinks L)\<rparr>"

fun severity_name :: "severity \<Rightarrow> string" where
  "severity_name Debug = ''debug''"
| "severity_name Info = ''info''"
| "severity_name Warning = ''warning''"
| "severity_name Error = ''error''"
| "severity_name Fatal = ''fatal''"

definition get_native_process_id :: "int option \<Rightarrow> int" where
  "get_native_process_id pid = (case pid of Some p \<Rightarrow> p | None \<Rightarrow> 0)"

text \<open>The format \<open>%1% [%2%] [P%3% T%4%] [%5%] <%6%> %7%\<close>.\<close>

definition log_format :: "char \<Rightarrow> log_record \<Rightarrow> string \<Rightarrow> string res" where
  "log_format junk r msg = bindr (file_lineno_with_padding junk (lr_file r) (lr_line r)) (\<lambda>pos.
     Inr ((case lr_id r of None \<Rightarrow> [] | Some n \<Rightarrow> digits (unat n)) @ '' ['' @ lr_time r @ ''] [P'' @ show_int (get_native_process_id (lr_pid r)) @
       '' T'' @ digits (lr_thread r) @ ''] ['' @ pos @ ''] <'' @ severity_name (lr_sev r) @ ''> '' @ msg))"

record log_stmt =
  ls_file :: string
  ls_line :: int
  ls_sev :: severity
  ls_msg :: string

definition VELOXD_LOG :: "loglib \<Rightarrow> char \<Rightarrow> nat \<Rightarrow> log_stmt \<Rightarrow> logcore \<Rightarrow> logcore res" where
  "VELOXD_LOG B junk t st L =
     bindr (set_get_File t (path_to_filename (ls_file st)) L) (\<lambda>(_, L1).
     bindr (set_get_Line t (ls_line st) L1) (\<lambda>(_, L2).
     case lib_open B t (ls_sev st) L2 of
       (None, L3) \<Rightarrow> Inr L3
     | (Some r, L3) \<Rightarrow> bindr (log_format junk r (ls_msg st)) (\<lambda>line. Inr (lib_push B line L3))))"

text \<open>A library that does what the documentation says, with the time stamp \<open>now\<close>.\<close>

definition doc_log :: loglib where
  "doc_log = \<lparr>lib_open = (\<lambda>t sev L.
     case (log_filter L, log_threads L t) of
       (Some l, Some a) \<Rightarrow> if l \<le> sev
         then (Some \<lparr>lr_id = log_line_id L, lr_time = ''now'', lr_pid = log_pid L, lr_thread = ta_NativeThreadID a, lr_file = ta_File a,
           lr_line = ta_Line a, lr_sev = sev\<rparr>, L\<lparr>log_line_id := map_option (\<lambda>n. n + 1) (log_line_id L)\<rparr>)
         else (None, L)
     | _ \<Rightarrow> (None, L)),
   lib_push = (\<lambda>line L. L\<lparr>log_out := log_out L @ map (\<lambda>k. (k, line)) (log_sinks L)\<rparr>)\<rparr>"

interpretation doc_log: log_library doc_log
  by unfold_locales (auto simp: doc_log_def split: option.split)

subsection \<open>Statements of several threads\<close>

text \<open>The steps of a statement, between which other threads may run; \<open>sys_written\<close> lists what was pushed and \<open>sys_opened\<close>
  counts the records that were opened.\<close>

datatype log_phase = Quiet | FileSet log_stmt | LineSet log_stmt | Opened log_stmt log_record

record log_system =
  sys_log :: logcore
  sys_phase :: "nat \<Rightarrow> log_phase"
  sys_written :: "(nat \<times> log_stmt \<times> log_record) list"
  sys_opened :: nat

definition log_turn :: "nat \<Rightarrow> log_phase \<Rightarrow> logcore \<Rightarrow> log_system \<Rightarrow> log_system" where
  "log_turn t p L s = s\<lparr>sys_log := L, sys_phase := (sys_phase s)(t := p)\<rparr>"

inductive log_step :: "loglib \<Rightarrow> char \<Rightarrow> log_system \<Rightarrow> log_system \<Rightarrow> bool" for B junk where
  thread_start: "sys_phase s t = Quiet \<Longrightarrow> log_step B junk s (log_turn t Quiet (LoggingThreadInitializer_run t (sys_log s)) s)"
| set_file: "sys_phase s t = Quiet \<Longrightarrow> set_get_File t (path_to_filename (ls_file st)) (sys_log s) = Inr (v, L) \<Longrightarrow>
    log_step B junk s (log_turn t (FileSet st) L s)"
| set_line: "sys_phase s t = FileSet st \<Longrightarrow> set_get_Line t (ls_line st) (sys_log s) = Inr (v, L) \<Longrightarrow>
    log_step B junk s (log_turn t (LineSet st) L s)"
| filtered: "sys_phase s t = LineSet st \<Longrightarrow> lib_open B t (ls_sev st) (sys_log s) = (None, L) \<Longrightarrow>
    log_step B junk s (log_turn t Quiet L s)"
| opened: "sys_phase s t = LineSet st \<Longrightarrow> lib_open B t (ls_sev st) (sys_log s) = (Some r, L) \<Longrightarrow>
    log_step B junk s ((log_turn t (Opened st r) L s)\<lparr>sys_opened := Suc (sys_opened s)\<rparr>)"
| pushed: "sys_phase s t = Opened st r \<Longrightarrow> log_format junk r (ls_msg st) = Inr line \<Longrightarrow>
    log_step B junk s ((log_turn t Quiet (lib_push B line (sys_log s)) s)\<lparr>sys_written := sys_written s @ [(t, st, r)]\<rparr>)"

definition log_started :: "int \<Rightarrow> nat \<Rightarrow> bool \<Rightarrow> string \<Rightarrow> log_system \<Rightarrow> bool" where
  "log_started pid t to_stdout lstr s \<longleftrightarrow>
     (\<exists>L. LoggingInitializer_run pid t to_stdout lstr logcore_new = (True, L) \<and> s = \<lparr>sys_log = L, sys_phase = (\<lambda>_. Quiet), sys_written = [], sys_opened = 0\<rparr>)"

interpretation lg: transition_system "log_started pid t to_stdout lstr" "log_step B junk"
  for pid t to_stdout lstr B junk .

text \<open>A record is its own statement's.\<close>

definition record_of :: "int \<Rightarrow> severity \<Rightarrow> nat \<Rightarrow> log_stmt \<Rightarrow> log_record \<Rightarrow> bool" where
  "record_of pid l t st r \<longleftrightarrow> lr_file r = path_to_filename (ls_file st) \<and> lr_line r = ls_line st \<and> lr_thread r = t \<and>
     lr_sev r = ls_sev st \<and> lr_pid r = Some pid \<and> l \<le> ls_sev st"

fun phase_ok :: "int \<Rightarrow> severity \<Rightarrow> nat \<Rightarrow> thread_attrs option \<Rightarrow> log_phase \<Rightarrow> bool" where
  "phase_ok pid l t a Quiet \<longleftrightarrow> True"
| "phase_ok pid l t a (FileSet st) \<longleftrightarrow> (\<exists>x. a = Some x \<and> ta_File x = path_to_filename (ls_file st))"
| "phase_ok pid l t a (LineSet st) \<longleftrightarrow> (\<exists>x. a = Some x \<and> ta_File x = path_to_filename (ls_file st) \<and> ta_Line x = ls_line st)"
| "phase_ok pid l t a (Opened st r) \<longleftrightarrow> record_of pid l t st r"

lemma set_get_Inr:
  "set_get_File t v L = Inr (w, L') \<longleftrightarrow> (\<exists>a. log_threads L t = Some a \<and> w = v \<and> L' = L\<lparr>log_threads := (log_threads L)(t \<mapsto> a\<lparr>ta_File := v\<rparr>)\<rparr>)"
  "set_get_Line t n L = Inr (k, L') \<longleftrightarrow> (\<exists>a. log_threads L t = Some a \<and> k = n \<and> L' = L\<lparr>log_threads := (log_threads L)(t \<mapsto> a\<lparr>ta_Line := n\<rparr>)\<rparr>)"
  by (auto simp: set_get_File_def set_get_Line_def bindr_eq_Inr)

text \<open>The first invariant: what does not change, and whose values the attributes hold.\<close>

definition log_inv :: "int \<Rightarrow> severity \<Rightarrow> log_sink \<Rightarrow> char \<Rightarrow> log_system \<Rightarrow> bool" where
  "log_inv pid l k junk s \<longleftrightarrow> log_filter (sys_log s) = Some l \<and> log_pid (sys_log s) = Some pid \<and> log_sinks (sys_log s) = [k] \<and>
     (\<forall>t a. log_threads (sys_log s) t = Some a \<longrightarrow> ta_NativeThreadID a = t) \<and>
     (\<forall>t. phase_ok pid l t (log_threads (sys_log s) t) (sys_phase s t)) \<and>
     (\<forall>x \<in> set (sys_written s). case x of (t, st, r) \<Rightarrow> record_of pid l t st r) \<and>
     map (\<lambda>(k, line). (k, Inr line)) (log_out (sys_log s)) = map (\<lambda>(t, st, r). (k, log_format junk r (ls_msg st))) (sys_written s)"

context log_library
begin

lemma open_cases:
  assumes "log_filter L = Some l" "log_threads L t = Some a"
  obtains "\<not> l \<le> sev" "lib_open B t sev L = (None, L)"
  | time where "l \<le> sev" "lib_open B t sev L = (Some \<lparr>lr_id = log_line_id L, lr_time = time, lr_pid = log_pid L, lr_thread = ta_NativeThreadID a,
      lr_file = ta_File a, lr_line = ta_Line a, lr_sev = sev\<rparr>, L\<lparr>log_line_id := map_option (\<lambda>n. n + 1) (log_line_id L)\<rparr>)"
  using open_dropped [OF assms(1)] open_taken [OF assms(1) _ assms(2)] by blast

lemma log_inv_step: "log_inv pid l k junk s \<Longrightarrow> log_step B junk s s' \<Longrightarrow> log_inv pid l k junk s'"
proof (erule log_step.cases, goal_cases)
  case (1 s t)
  then show ?case
    by (cases "log_threads (sys_log s) t") (auto simp: log_inv_def log_turn_def LoggingThreadInitializer_run_def)
next
  case (2 s t st v L)
  then show ?case by (auto simp: log_inv_def log_turn_def set_get_Inr split: if_splits)
next
  case (3 s t st v L)
  then have "phase_ok pid l t (log_threads (sys_log s) t) (FileSet st)" by (metis log_inv_def)
  with 3 show ?case by (auto simp: log_inv_def log_turn_def set_get_Inr split: if_splits)
next
  case (4 s t st L)
  then obtain a where f: "log_filter (sys_log s) = Some l" and a: "log_threads (sys_log s) t = Some a"
    by (metis log_inv_def phase_ok.simps(3))
  have "L = sys_log s" by (rule open_cases [OF f a, of "ls_sev st"]) (use 4 in auto)
  with 4 show ?case by (auto simp: log_inv_def log_turn_def)
next
  case (5 s t st r L)
  then obtain a where f: "log_filter (sys_log s) = Some l" and a: "log_threads (sys_log s) t = Some a"
    "ta_File a = path_to_filename (ls_file st)" "ta_Line a = ls_line st" by (metis log_inv_def phase_ok.simps(3))
  have "L = (sys_log s)\<lparr>log_line_id := map_option (\<lambda>n. n + 1) (log_line_id (sys_log s))\<rparr>" "record_of pid l t st r"
    by (rule open_cases [OF f a(1), of "ls_sev st"]; use 5 in \<open>auto simp: record_of_def log_inv_def a\<close>)+
  with 5 show ?case by (auto simp: log_inv_def log_turn_def)
next
  case (6 s t st r line)
  then have "record_of pid l t st r" by (metis log_inv_def phase_ok.simps(4))
  with 6 show ?case by (auto simp: log_inv_def log_turn_def pushed_out)
qed

end

text \<open>The second: the numbers that were given, and that each is given once until the counter comes round.\<close>

definition written_id :: "nat \<times> log_stmt \<times> log_record \<Rightarrow> u32 option" where
  "written_id x = lr_id (snd (snd x))"

definition used_id :: "log_system \<Rightarrow> u32 option \<Rightarrow> bool" where
  "used_id s i \<longleftrightarrow> (\<exists>m < sys_opened s. i = Some (1 + of_nat m))"

definition ids_apart :: "log_system \<Rightarrow> bool" where
  "ids_apart s \<longleftrightarrow> distinct (map written_id (sys_written s)) \<and>
     (\<forall>t st r. sys_phase s t = Opened st r \<longrightarrow> lr_id r \<notin> written_id ` set (sys_written s)) \<and>
     (\<forall>t u st st' r r'. sys_phase s t = Opened st r \<and> sys_phase s u = Opened st' r' \<and> t \<noteq> u \<longrightarrow> lr_id r \<noteq> lr_id r')"

definition ids_ok :: "log_system \<Rightarrow> bool" where
  "ids_ok s \<longleftrightarrow> log_line_id (sys_log s) = Some (1 + of_nat (sys_opened s)) \<and> (\<forall>x \<in> set (sys_written s). used_id s (written_id x)) \<and>
     (\<forall>t st r. sys_phase s t = Opened st r \<longrightarrow> used_id s (lr_id r)) \<and> (sys_opened s \<le> 2 ^ 32 \<longrightarrow> ids_apart s)"

lemma used_id_cong: "sys_opened s' = sys_opened s \<Longrightarrow> used_id s' = used_id s"
  by (auto simp: used_id_def)

lemma id_not_used:
  assumes "sys_opened s < 2 ^ 32"
  shows "\<not> used_id s (Some (1 + of_nat (sys_opened s)))"
proof -
  have "(of_nat (sys_opened s) :: u32) \<noteq> of_nat m" if "m < sys_opened s" for m
  proof
    assume "(of_nat (sys_opened s) :: u32) = of_nat m"
    then have "unat (of_nat (sys_opened s) :: u32) = unat (of_nat m :: u32)" by simp
    then show False using assms that by (simp add: unat_of_nat)
  qed
  then show ?thesis by (auto simp: used_id_def)
qed

text \<open>A step of thread \<open>t\<close> that gives no number.\<close>

lemma ids_ok_same:
  assumes "ids_ok s" "log_line_id (sys_log s') = log_line_id (sys_log s)" "sys_written s' = sys_written s"
    "sys_opened s' = sys_opened s" "sys_phase s' = (sys_phase s)(t := p)" "\<And>st r. p \<noteq> Opened st r"
  shows "ids_ok s'"
  using assms(1) unfolding ids_ok_def ids_apart_def assms(2-5) used_id_cong [OF assms(4)]
  by (simp add: assms(6))

lemma ids_ok_opened:
  assumes ok: "ids_ok s" and n: "log_line_id (sys_log s) = Some n" "log_line_id (sys_log s') = Some (n + 1)"
    and w: "sys_written s' = sys_written s" and p: "sys_phase s' = (sys_phase s)(t := Opened st r)" and r: "lr_id r = Some n"
    and c: "sys_opened s' = Suc (sys_opened s)"
  shows "ids_ok s'"
proof -
  have n': "n = 1 + of_nat (sys_opened s)" using ok n(1) by (simp add: ids_ok_def)
  have u: "used_id s' i" if "used_id s i" for i using that c by (auto simp: used_id_def intro: less_SucI)
  have new: "used_id s' (Some n)" using n' c by (auto simp: used_id_def)
  have old: "used_id s (lr_id r')" if "sys_phase s v = Opened st' r'" for v st' r' using ok that unfolding ids_ok_def by metis
  have "ids_apart s'" if "sys_opened s' \<le> 2 ^ 32"
  proof -
    have free: "\<not> used_id s (Some n)" and a: "ids_apart s" using id_not_used [of s] ok that n' c by (simp_all add: ids_ok_def)
    then have old': "lr_id r' \<noteq> Some n" if "sys_phase s v = Opened st' r'" for v st' r' using old [OF that] by auto
    have "Some n \<notin> written_id ` set (sys_written s)" using free ok by (auto simp: ids_ok_def)
    then show ?thesis using a old' old' [THEN not_sym] unfolding ids_apart_def w p by (auto simp: r)
  qed
  then show ?thesis using ok n(2) n' c u new old unfolding ids_ok_def w p by (auto simp: r)
qed

lemma ids_ok_pushed:
  assumes ok: "ids_ok s" and n: "log_line_id (sys_log s') = log_line_id (sys_log s)" and o': "sys_phase s t = Opened st r"
    and w: "sys_written s' = sys_written s @ [(t, st, r)]" and p: "sys_phase s' = (sys_phase s)(t := Quiet)"
    and c: "sys_opened s' = sys_opened s"
  shows "ids_ok s'"
proof -
  have r: "used_id s (lr_id r)" using ok o' unfolding ids_ok_def by metis
  have "ids_apart s'" if "ids_apart s"
  proof -
    have "lr_id r \<notin> written_id ` set (sys_written s)" using that o' unfolding ids_apart_def by metis
    moreover have "lr_id r' \<noteq> lr_id r" if "v \<noteq> t" "sys_phase s v = Opened st' r'" for v st' r'
      using \<open>ids_apart s\<close> o' that unfolding ids_apart_def by metis
    ultimately show ?thesis using that unfolding ids_apart_def w p by (auto simp: written_id_def)
  qed
  then show ?thesis using ok r n unfolding ids_ok_def w p c used_id_cong [OF c] by (auto simp: written_id_def)
qed

context log_library
begin

lemma ids_ok_step:
  assumes inv: "log_inv pid l k junk s" and "ids_ok s" "log_step B junk s s'"
  shows "ids_ok s'"
proof -
  have f: "log_filter (sys_log s) = Some l" using inv by (simp add: log_inv_def)
  have attrs: "\<exists>a. log_threads (sys_log s) t = Some a" if "sys_phase s t = LineSet st" for t st
    using inv that by (metis log_inv_def phase_ok.simps(3))
  obtain n where n: "log_line_id (sys_log s) = Some n" using assms(2) by (auto simp: ids_ok_def)
  note same = ids_ok_same [OF assms(2)]
  show ?thesis using assms(3)
  proof cases
    case (thread_start t)
    then show ?thesis by (auto simp: log_turn_def LoggingThreadInitializer_run_def intro!: same [of _ t Quiet] split: option.split)
  next
    case (set_file t st v L)
    then show ?thesis by (auto simp: log_turn_def set_get_Inr intro!: same [of _ t "FileSet st"])
  next
    case (set_line t st v L)
    then show ?thesis by (auto simp: log_turn_def set_get_Inr intro!: same [of _ t "LineSet st"])
  next
    case (filtered t st L)
    obtain a where a: "log_threads (sys_log s) t = Some a" using attrs filtered(2) by blast
    have "L = sys_log s" by (rule open_cases [OF f a, of "ls_sev st"]) (use filtered(3) in auto)
    then show ?thesis using filtered by (auto simp: log_turn_def intro!: same [of _ t Quiet])
  next
    case (opened t st r L)
    obtain a where a: "log_threads (sys_log s) t = Some a" using attrs opened(2) by blast
    have "log_line_id L = Some (n + 1) \<and> lr_id r = Some n"
      by (rule open_cases [OF f a, of "ls_sev st"]) (use opened(3) n in auto)
    then show ?thesis using opened by (auto simp: log_turn_def intro!: ids_ok_opened [OF assms(2) n, where t = t])
  next
    case (pushed t st r line)
    then show ?thesis by (auto simp: log_turn_def pushed_out intro!: ids_ok_pushed [OF assms(2), where t = t])
  qed
qed

lemma log_reachable_ok:
  assumes "lg.reachable pid t to_stdout lstr B junk s" "logging_level lstr = Some l"
  shows "log_inv pid l (if to_stdout then ConsoleSink else FileSink) junk s \<and> ids_ok s"
  using assms(1)
proof (rule lg.invariant)
  fix s assume "log_started pid t to_stdout lstr s"
  then show "log_inv pid l (if to_stdout then ConsoleSink else FileSink) junk s \<and> ids_ok s"
    using assms(2) by (auto simp: log_started_def LoggingInitializer_run_def LoggingThreadInitializer_run_def add_common_attributes_def
        logcore_new_def log_inv_def ids_ok_def ids_apart_def Let_def split: if_splits)
qed (blast intro: log_inv_step ids_ok_step)

end

text \<open>(C26) Log lines are not mixed up. However the statements of any threads are interleaved, every line that was written is the one of the
  record of a single statement: it names the statement's file, without the directories, its line, its severity, the thread
  that executed it and the process; the severity is at least the level that was asked for. The numbers come from an \<open>unsigned int\<close> that counts the
  records opened from 1 on, and no two lines have the same one while no more than \<open>2\<^sup>3\<^sup>2\<close> records have been opened; then they begin again.
  Everything goes to the one sink that was asked for.\<close>

theorem log_lines:
  assumes "log_library B" "lg.reachable pid t to_stdout lstr B junk s" "logging_level lstr = Some l"
  shows "map (\<lambda>(k, line). (k, Inr line)) (log_out (sys_log s)) =
      map (\<lambda>(t, st, r). (if to_stdout then ConsoleSink else FileSink, log_format junk r (ls_msg st))) (sys_written s) \<and>
    (sys_opened s \<le> 2 ^ 32 \<longrightarrow> distinct (map (\<lambda>(t, st, r). lr_id r) (sys_written s))) \<and>
    (\<forall>(t, st, r) \<in> set (sys_written s). \<exists>n < sys_opened s. lr_id r = Some (1 + of_nat n)) \<and>
    (\<forall>(t, st, r) \<in> set (sys_written s). lr_file r = path_to_filename (ls_file st) \<and> lr_line r = ls_line st \<and> lr_sev r = ls_sev st \<and>
      lr_thread r = t \<and> lr_pid r = Some pid \<and> l \<le> ls_sev st)"
proof -
  have w: "written_id = (\<lambda>(t, st, r). lr_id r)" by (auto simp: written_id_def fun_eq_iff)
  have inv: "log_inv pid l (if to_stdout then ConsoleSink else FileSink) junk s" and ids: "ids_ok s"
    using log_library.log_reachable_ok [OF assms] by simp_all
  have "sys_opened s \<le> 2 ^ 32 \<longrightarrow> distinct (map (\<lambda>(t, st, r). lr_id r) (sys_written s))"
    "\<forall>x \<in> set (sys_written s). \<exists>n < sys_opened s. written_id x = Some (1 + of_nat n)"
    using ids unfolding ids_ok_def ids_apart_def w used_id_def by blast+
  then show ?thesis using inv unfolding w log_inv_def record_of_def by (intro conjI) (simp_all add: split_beta)
qed

definition sample_stmt :: log_stmt where
  "sample_stmt = \<lparr>ls_file = ''src/veloxd/ip/Ip.cpp'', ls_line = 98, ls_sev = Info, ls_msg = ''hello''\<rparr>"

text \<open>A statement of thread \<open>t\<close> while nobody else runs.\<close>

lemma statement_alone:
  assumes reach: "lg.reachable pid m to_stdout lstr doc_log junk s" and q: "sys_phase s t = Quiet" and a: "log_threads (sys_log s) t = Some a"
    and l: "log_filter (sys_log s) = Some l" "l \<le> ls_sev st" and fits: "log_format junk r (ls_msg st) = Inr line"
    and r: "r = \<lparr>lr_id = log_line_id (sys_log s), lr_time = ''now'', lr_pid = log_pid (sys_log s), lr_thread = ta_NativeThreadID a,
      lr_file = path_to_filename (ls_file st), lr_line = ls_line st, lr_sev = ls_sev st\<rparr>"
  shows "\<exists>s'. lg.reachable pid m to_stdout lstr doc_log junk s' \<and> sys_written s' = sys_written s @ [(t, st, r)] \<and>
    log_out (sys_log s') = log_out (sys_log s) @ map (\<lambda>k. (k, line)) (log_sinks (sys_log s))"
proof -
  let ?L = "sys_log s" and ?f = "path_to_filename (ls_file st)"
  let ?L1 = "?L\<lparr>log_threads := (log_threads ?L)(t \<mapsto> a\<lparr>ta_File := ?f\<rparr>)\<rparr>"
  let ?s1 = "log_turn t (FileSet st) ?L1 s"
  let ?L2 = "?L1\<lparr>log_threads := (log_threads ?L1)(t \<mapsto> a\<lparr>ta_File := ?f, ta_Line := ls_line st\<rparr>)\<rparr>"
  let ?s2 = "log_turn t (LineSet st) ?L2 ?s1"
  let ?L3 = "?L2\<lparr>log_line_id := map_option (\<lambda>n. n + 1) (log_line_id ?L2)\<rparr>"
  let ?s3 = "(log_turn t (Opened st r) ?L3 ?s2)\<lparr>sys_opened := Suc (sys_opened ?s2)\<rparr>"
  let ?s4 = "(log_turn t Quiet (lib_push doc_log line (sys_log ?s3)) ?s3)\<lparr>sys_written := sys_written ?s3 @ [(t, st, r)]\<rparr>"
  note step = lg.reach_step
  have 1: "log_step doc_log junk s ?s1" by (rule log_step.set_file [OF q]) (simp add: set_get_Inr a)
  have 2: "log_step doc_log junk ?s1 ?s2" by (rule log_step.set_line) (simp_all add: set_get_Inr log_turn_def)
  have 3: "log_step doc_log junk ?s2 ?s3" by (rule log_step.opened) (simp_all add: log_turn_def doc_log_def l r)
  have 4: "log_step doc_log junk ?s3 ?s4" by (rule log_step.pushed [OF _ fits]) (simp add: log_turn_def)
  have "lg.reachable pid m to_stdout lstr doc_log junk ?s4" by (rule step [OF step [OF step [OF step [OF reach 1] 2] 3] 4])
  moreover have "sys_written ?s4 = sys_written s @ [(t, st, r)]" by (simp add: log_turn_def)
  moreover have "log_out (sys_log ?s4) = log_out ?L @ map (\<lambda>k. (k, line)) (log_sinks ?L)"
    by (simp add: log_turn_def doc_log.pushed_out)
  ultimately show ?thesis by blast
qed

theorem log_lines_witness:
  "\<exists>s r. lg.reachable 7 4 True ''debug'' doc_log CHR ''x'' s \<and> sys_written s = [(4, sample_stmt, r)] \<and> lr_file r = ''Ip.cpp'' \<and>
     map snd (log_out (sys_log s)) = [''1 [now] [P7 T4] [Ip.cpp:98        ] <info> hello'']"
proof -
  obtain L where L: "LoggingInitializer_run 7 4 True ''debug'' logcore_new = (True, L)"
    "log_threads L 4 = Some \<lparr>ta_File = [], ta_Line = 0, ta_NativeThreadID = 4\<rparr>" "log_filter L = Some Debug" "log_line_id L = Some 1"
    "log_pid L = Some 7" "log_sinks L = [ConsoleSink]" "log_out L = []"
    by (simp add: LoggingInitializer_run_def LoggingThreadInitializer_run_def add_common_attributes_def logcore_new_def logging_level_def Let_def)
  let ?s = "\<lparr>sys_log = L, sys_phase = (\<lambda>_. Quiet), sys_written = [], sys_opened = 0\<rparr>"
  let ?a = "\<lparr>ta_File = [], ta_Line = 0, ta_NativeThreadID = 4\<rparr>"
  let ?r = "\<lparr>lr_id = Some 1, lr_time = ''now'', lr_pid = Some 7, lr_thread = 4, lr_file = ''Ip.cpp'', lr_line = 98, lr_sev = Info\<rparr>"
  have c: "char_of (57 :: nat) = CHR ''9''" "char_of (56 :: nat) = CHR ''8''" "char_of (49 :: nat) = CHR ''1''" "char_of (55 :: nat) = CHR ''7''" "char_of (52 :: nat) = CHR ''4''"
    by code_simp+
  have p: "path_to_filename ''src/veloxd/ip/Ip.cpp'' = ''Ip.cpp''" by (simp add: path_to_filename_def)
  have "replicate 8 CHR '' '' = ''        ''" by (simp add: numeral_eq_Suc)
  moreover have "digits 1 = ''1''" "digits 7 = ''7''" "digits 4 = ''4''" "digits 98 = ''98''" using c by (simp_all add: digits.simps)
  ultimately have f: "log_format CHR ''x'' ?r ''hello'' = Inr ''1 [now] [P7 T4] [Ip.cpp:98        ] <info> hello''"
    by (simp add: log_format_def position_fits show_int_def get_native_process_id_def)
  have reach: "lg.reachable 7 4 True ''debug'' doc_log CHR ''x'' ?s" by (rule lg.reach_init) (simp add: log_started_def L)
  have h: "sys_phase ?s 4 = Quiet" "log_threads (sys_log ?s) 4 = Some ?a" "log_filter (sys_log ?s) = Some Debug" "Debug \<le> ls_sev sample_stmt"
    "ls_msg sample_stmt = ''hello''" "sys_written ?s = []" "log_out (sys_log ?s) = []" "log_sinks (sys_log ?s) = [ConsoleSink]"
    by (simp_all add: L sample_stmt_def less_eq_severity_def)
  have r: "?r = \<lparr>lr_id = log_line_id (sys_log ?s), lr_time = ''now'', lr_pid = log_pid (sys_log ?s), lr_thread = ta_NativeThreadID ?a,
      lr_file = path_to_filename (ls_file sample_stmt), lr_line = ls_line sample_stmt, lr_sev = ls_sev sample_stmt\<rparr>"
    by (simp add: L sample_stmt_def p)
  have f': "log_format CHR ''x'' ?r (ls_msg sample_stmt) = Inr ''1 [now] [P7 T4] [Ip.cpp:98        ] <info> hello''" unfolding h(5) by (rule f)
  obtain s where s: "lg.reachable 7 4 True ''debug'' doc_log CHR ''x'' s" "sys_written s = [(4, sample_stmt, ?r)]"
    "log_out (sys_log s) = [(ConsoleSink, ''1 [now] [P7 T4] [Ip.cpp:98        ] <info> hello'')]"
    using statement_alone [OF reach h(1-4) f' r] unfolding h(6-8) by auto
  have "logging_level ''debug'' = Some Debug" by (simp add: logging_level_def)
  from log_lines [OF doc_log.log_library_axioms s(1) this]
  have "\<forall>(t, st, r) \<in> set (sys_written s). lr_file r = path_to_filename (ls_file st)" by auto
  then show ?thesis using s by (intro exI [of _ s] exI [of _ ?r]) (simp add: sample_stmt_def p)
qed

text \<open>A whole statement, without other threads: it needs the attributes of its thread.\<close>

lemma log_statement:
  assumes "log_library B" "log_filter L = Some l" "0 \<le> ls_line st" "ls_line st \<le> 9999"
  shows "(if log_threads L t = None then VELOXD_LOG B junk t st L = Inl NullDeref else \<exists>L'. VELOXD_LOG B junk t st L = Inr L')"
proof (cases "log_threads L t")
  case None
  then show ?thesis by (simp add: VELOXD_LOG_def set_get_File_def)
next
  case (Some a)
  let ?f = "path_to_filename (ls_file st)"
  let ?L = "L\<lparr>log_threads := (log_threads L)(t \<mapsto> a\<lparr>ta_File := ?f, ta_Line := ls_line st\<rparr>)\<rparr>"
  have f: "log_filter ?L = Some l" and a: "log_threads ?L t = Some (a\<lparr>ta_File := ?f, ta_Line := ls_line st\<rparr>)" using assms(2) by simp_all
  have v: "VELOXD_LOG B junk t st L = (case lib_open B t (ls_sev st) ?L of (None, L3) \<Rightarrow> Inr L3
      | (Some r, L3) \<Rightarrow> bindr (log_format junk r (ls_msg st)) (\<lambda>line. Inr (lib_push B line L3)))"
    using Some by (simp add: VELOXD_LOG_def set_get_File_def set_get_Line_def)
  show ?thesis
    by (rule log_library.open_cases [OF assms(1) f a, of "ls_sev st"]) (simp_all add: v Some log_format_def position_fits [OF assms(3,4)])
qed

end
