(* ===== verification/Reactor.thy ===== *)
theory Reactor
  imports Velox_Prelude
begin

unbundle bit_operations_syntax

section \<open>The event loop (src/veloxd/arbiter/reactor: EventReactor, IoHandle, SysPoller)\<close>

text \<open>
  The reactor keeps a vector of \<open>IoHandle\<close> pointers and mirrors it into an epoll instance.
  Handles live in a store \<open>io_handles\<close>; a destroyed handle is \<open>None\<close> there, so using a
  pointer to it is the fault \<open>UseAfterFree\<close>. The kernel is not modelled: \<open>ctl_calls\<close>
  is the sequence of \<open>epoll_ctl\<close> calls the code makes, and \<open>interest\<close> is what epoll(7)
  documents for such a sequence. What \<open>epoll_wait\<close> reports is an argument of the loop.
\<close>

subsection \<open>State\<close>

definition POLLIN :: u32 where "POLLIN = 1"
definition POLLPRI :: u32 where "POLLPRI = 2"
definition POLLOUT :: u32 where "POLLOUT = 4"
definition POLLERR :: u32 where "POLLERR = 8"
definition POLLHUP :: u32 where "POLLHUP = 16"
definition POLLNVAL :: u32 where "POLLNVAL = 32"
definition POLLRDHUP :: u32 where "POLLRDHUP = 8192"

definition noneEvent :: u32 where "noneEvent = 0"
definition readEvent :: u32 where "readEvent = POLLIN OR POLLPRI"
definition writeEvent :: u32 where "writeEvent = POLLOUT"

lemmas poll_defs = POLLIN_def POLLPRI_def POLLOUT_def POLLERR_def POLLHUP_def POLLNVAL_def POLLRDHUP_def
  noneEvent_def readEvent_def writeEvent_def

record IoHandle =
  h_fd :: int
  eventsInterested :: u32
  eventsReceived :: u32
  handlingEvents :: bool
  ownerLoop :: bool

datatype 'h ctl = CtlAdd int u32 'h | CtlMod int u32 'h | CtlDel int

record 'h reactor =
  loop_channels :: "'h list"
  io_handles :: "'h \<Rightarrow> IoHandle option"
  ctl_calls :: "'h ctl list"

definition EventReactor_new :: "'h reactor" where
  "EventReactor_new = \<lparr>loop_channels = [], io_handles = (\<lambda>_. None), ctl_calls = []\<rparr>"

subsection \<open>SysPoller\<close>

definition ctl :: "'h ctl \<Rightarrow> 'h reactor \<Rightarrow> 'h reactor" where
  "ctl c r = r\<lparr>ctl_calls := ctl_calls r @ [c]\<rparr>"

definition poller_addChannel :: "'h \<Rightarrow> 'h reactor \<Rightarrow> 'h reactor res" where
  "poller_addChannel c r = bindr (liver (io_handles r c)) (\<lambda>i. Inr (ctl (CtlAdd (h_fd i) (eventsInterested i) c) r))"

definition poller_removeChannel :: "'h \<Rightarrow> 'h reactor \<Rightarrow> 'h reactor res" where
  "poller_removeChannel c r = bindr (liver (io_handles r c)) (\<lambda>i. Inr (ctl (CtlDel (h_fd i)) r))"

definition poller_updateChannel :: "'h \<Rightarrow> 'h reactor \<Rightarrow> 'h reactor res" where
  "poller_updateChannel c r = bindr (liver (io_handles r c)) (\<lambda>i. Inr (ctl (CtlMod (h_fd i) (eventsInterested i) c) r))"

subsection \<open>EventReactor\<close>

definition hasChannel :: "'h \<Rightarrow> 'h reactor \<Rightarrow> bool" where
  "hasChannel c r \<longleftrightarrow> List.member (loop_channels r) c"

definition addChannel :: "'h \<Rightarrow> 'h reactor \<Rightarrow> 'h reactor res" where
  "addChannel c r =
     (if \<not> hasChannel c r
      then bindr (poller_addChannel c r) (\<lambda>r1. Inr (r1\<lparr>loop_channels := loop_channels r1 @ [c]\<rparr>))
      else Inr r)"

definition removeChannel :: "'h \<Rightarrow> 'h reactor \<Rightarrow> 'h reactor res" where
  "removeChannel c r =
     (if hasChannel c r
      then bindr (poller_removeChannel c r) (\<lambda>r1. Inr (r1\<lparr>loop_channels := remove1 c (loop_channels r1)\<rparr>))
      else Inr r)"

definition updateChannel :: "'h \<Rightarrow> 'h reactor \<Rightarrow> 'h reactor res" where
  "updateChannel c r = (if hasChannel c r then poller_updateChannel c r else Inr r)"

subsection \<open>IoHandle\<close>

definition put_handle :: "'h \<Rightarrow> IoHandle option \<Rightarrow> 'h reactor \<Rightarrow> 'h reactor" where
  "put_handle h i r = r\<lparr>io_handles := (io_handles r)(h := i)\<rparr>"

definition IoHandle_new :: "'h \<Rightarrow> int \<Rightarrow> 'h reactor \<Rightarrow> 'h reactor" where
  "IoHandle_new h fd r = put_handle h (Some \<lparr>h_fd = fd, eventsInterested = noneEvent, eventsReceived = noneEvent,
     handlingEvents = False, ownerLoop = False\<rparr>) r"

text \<open>The five operations that change the interesting events differ in the new mask only.\<close>

definition set_interest :: "(u32 \<Rightarrow> u32) \<Rightarrow> 'h \<Rightarrow> 'h reactor \<Rightarrow> 'h reactor res" where
  "set_interest f h r = bindr (liver (io_handles r h)) (\<lambda>i.
     let r1 = put_handle h (Some (i\<lparr>eventsInterested := f (eventsInterested i)\<rparr>)) r
     in if ownerLoop i then updateChannel h r1 else Inr r1)"

definition enableReading :: "'h \<Rightarrow> 'h reactor \<Rightarrow> 'h reactor res" where
  "enableReading = set_interest (\<lambda>e. e OR readEvent)"

definition disableReading :: "'h \<Rightarrow> 'h reactor \<Rightarrow> 'h reactor res" where
  "disableReading = set_interest (\<lambda>e. e AND noneEvent)"

definition enableWriting :: "'h \<Rightarrow> 'h reactor \<Rightarrow> 'h reactor res" where
  "enableWriting = set_interest (\<lambda>e. e OR writeEvent)"

definition disableWriting :: "'h \<Rightarrow> 'h reactor \<Rightarrow> 'h reactor res" where
  "disableWriting = set_interest (\<lambda>e. e AND NOT writeEvent)"

definition disableAll :: "'h \<Rightarrow> 'h reactor \<Rightarrow> 'h reactor res" where
  "disableAll = set_interest (\<lambda>e. e AND noneEvent)"

definition setOwnerEventReactor :: "'h \<Rightarrow> bool \<Rightarrow> 'h reactor \<Rightarrow> 'h reactor res" where
  "setOwnerEventReactor h l r = bindr (liver (io_handles r h)) (\<lambda>i. Inr (put_handle h (Some (i\<lparr>ownerLoop := l\<rparr>)) r))"

definition unregisterSelf :: "'h \<Rightarrow> 'h reactor \<Rightarrow> 'h reactor res" where
  "unregisterSelf h r = bindr (liver (io_handles r h)) (\<lambda>i.
     bindr (if ownerLoop i then removeChannel h r else Inr r) (setOwnerEventReactor h False))"

text \<open>The destructor.\<close>

definition IoHandle_delete :: "'h \<Rightarrow> 'h reactor \<Rightarrow> 'h reactor res" where
  "IoHandle_delete h r = bindr (liver (io_handles r h)) (\<lambda>i.
     bindr (if ownerLoop i then removeChannel h r else Inr r) (\<lambda>r1. Inr (put_handle h None r1)))"

text \<open>The two calls by which the arbiter and the dispatcher register a handle.\<close>

definition add_owned :: "'h \<Rightarrow> 'h reactor \<Rightarrow> 'h reactor res" where
  "add_owned h r = bindr (addChannel h r) (setOwnerEventReactor h True)"

subsection \<open>Dispatching events\<close>

datatype callback = OnRead | OnWrite | OnClose | OnError

text \<open>
  \<open>handleEventsReceived\<close>, in a program state \<open>'s\<close> that holds the reactor (\<open>get\<close>,
  \<open>upd\<close>) and with the registered callbacks as functions on it. The callbacks may destroy the
  handle; every later access to its members then is a use after free.
\<close>

definition call_back :: "('s \<Rightarrow> 'h reactor) \<Rightarrow> ('h \<Rightarrow> callback \<Rightarrow> ('s \<Rightarrow> 's res) option) \<Rightarrow> 'h \<Rightarrow> callback \<Rightarrow> 's \<Rightarrow> 's res" where
  "call_back get cb h k s = bindr (liver (io_handles (get s) h)) (\<lambda>_. case cb h k of None \<Rightarrow> Inr s | Some f \<Rightarrow> f s)"

definition set_handling :: "('s \<Rightarrow> 'h reactor) \<Rightarrow> ('h reactor \<Rightarrow> 's \<Rightarrow> 's) \<Rightarrow> 'h \<Rightarrow> bool \<Rightarrow> 's \<Rightarrow> 's res" where
  "set_handling get upd h b s = bindr (liver (io_handles (get s) h)) (\<lambda>i.
     Inr (upd (put_handle h (Some (i\<lparr>handlingEvents := b\<rparr>)) (get s)) s))"

definition callbacks_for :: "u32 \<Rightarrow> callback list" where
  "callbacks_for revents =
     (if revents AND POLLHUP \<noteq> 0 \<and> revents AND POLLIN = 0 then [OnClose] else []) @
     (if revents AND (POLLERR OR POLLNVAL) \<noteq> 0 then [OnError] else []) @
     (if revents AND (POLLIN OR POLLPRI OR POLLRDHUP) \<noteq> 0 then [OnRead] else []) @
     (if revents AND POLLOUT \<noteq> 0 then [OnWrite] else [])"

fun call_backs :: "('s \<Rightarrow> 'h reactor) \<Rightarrow> ('h \<Rightarrow> callback \<Rightarrow> ('s \<Rightarrow> 's res) option) \<Rightarrow> 'h \<Rightarrow> callback list \<Rightarrow> 's \<Rightarrow> 's res" where
  "call_backs get cb h [] s = Inr s"
| "call_backs get cb h (k # ks) s = bindr (call_back get cb h k s) (call_backs get cb h ks)"

definition handleEventsReceived :: "('s \<Rightarrow> 'h reactor) \<Rightarrow> ('h reactor \<Rightarrow> 's \<Rightarrow> 's) \<Rightarrow>
    ('h \<Rightarrow> callback \<Rightarrow> ('s \<Rightarrow> 's res) option) \<Rightarrow> 'h \<Rightarrow> 's \<Rightarrow> 's res" where
  "handleEventsReceived get upd cb h s =
     bindr (set_handling get upd h True s) (\<lambda>s0.
     bindr (liver (io_handles (get s0) h)) (\<lambda>i.
     bindr (call_backs get cb h (callbacks_for (eventsReceived i)) s0) (set_handling get upd h False)))"

text \<open>
  \<open>SysPoller::poll\<close>. What \<open>epoll_wait\<close> reports is \<open>polled\<close>, at most 64 events; \<open>None\<close> is its failure, after which the
  vector of active descriptors is empty and its last element is used all the same. First the descriptors
  of all reported handles are collected for the log, then the events are stored in the handles.
\<close>

definition maxEventsReceivedEachPoll :: nat where "maxEventsReceivedEachPoll = 64"

fun active_fds :: "('h \<times> u32) list \<Rightarrow> 'h reactor \<Rightarrow> int list res" where
  "active_fds [] r = Inr []"
| "active_fds ((h, e) # hs) r = bindr (liver (io_handles r h)) (\<lambda>i. bindr (active_fds hs r) (\<lambda>fds. Inr (h_fd i # fds)))"

definition last_fd :: "int list \<Rightarrow> int res" where
  "last_fd fds = (if fds = [] then Inl OutOfBounds else Inr (last fds))"

fun mark_received :: "('h \<times> u32) list \<Rightarrow> 'h reactor \<Rightarrow> 'h reactor res" where
  "mark_received [] r = Inr r"
| "mark_received ((h, e) # hs) r = bindr (liver (io_handles r h)) (\<lambda>i.
     mark_received hs (put_handle h (Some (i\<lparr>eventsReceived := e\<rparr>)) r))"

definition poller_poll :: "('h \<times> u32) list option \<Rightarrow> 'h reactor \<Rightarrow> ('h list \<times> 'h reactor) res" where
  "poller_poll polled r =
     (let events = (case polled of None \<Rightarrow> [] | Some evs \<Rightarrow> take maxEventsReceivedEachPoll evs) in
      if polled \<noteq> None \<and> events = [] then Inr ([], r)
      else bindr (active_fds events r) (\<lambda>fds.
        bindr (last_fd fds) (\<lambda>_.
        bindr (mark_received events r) (\<lambda>r1. Inr (map fst events, r1)))))"

text \<open>One turn of \<open>loop\<close>.\<close>

fun handle_all :: "('h \<Rightarrow> 's \<Rightarrow> 's res) \<Rightarrow> 'h list \<Rightarrow> 's \<Rightarrow> 's res" where
  "handle_all f [] s = Inr s"
| "handle_all f (h # hs) s = bindr (f h s) (handle_all f hs)"

definition loop_turn :: "('s \<Rightarrow> 'h reactor) \<Rightarrow> ('h reactor \<Rightarrow> 's \<Rightarrow> 's) \<Rightarrow>
    ('h \<Rightarrow> callback \<Rightarrow> ('s \<Rightarrow> 's res) option) \<Rightarrow> ('h \<times> u32) list option \<Rightarrow> 's \<Rightarrow> 's res" where
  "loop_turn get upd cb polled s =
     bindr (poller_poll polled (get s)) (\<lambda>(actives, r).
     handle_all (handleEventsReceived get upd cb) actives (upd r s))"

lemma poller_poll_failed [simp]: "poller_poll None r = Inl OutOfBounds"
  by (simp add: poller_poll_def last_fd_def)

lemma poller_poll_one [simp]:
  "poller_poll (Some [(h, e)]) r = bindr (liver (io_handles r h)) (\<lambda>i. Inr ([h], put_handle h (Some (i\<lparr>eventsReceived := e\<rparr>)) r))"
  by (cases "io_handles r h") (simp_all add: poller_poll_def last_fd_def maxEventsReceivedEachPoll_def)

text \<open>Polling goes well when all that is reported is alive.\<close>

lemma active_fds_alive: "\<forall>x \<in> set evs. io_handles r (fst x) \<noteq> None \<Longrightarrow> \<exists>fds. active_fds evs r = Inr fds \<and> length fds = length evs"
proof (induction evs)
  case (Cons x evs)
  then show ?case by (cases x) auto
qed simp

lemma mark_received_alive:
  "\<forall>x \<in> set evs. io_handles r (fst x) \<noteq> None \<Longrightarrow> \<exists>r1. mark_received evs r = Inr r1 \<and> loop_channels r1 = loop_channels r \<and>
     ctl_calls r1 = ctl_calls r \<and> (\<forall>h. io_handles r1 h = None \<longleftrightarrow> io_handles r h = None)"
proof (induction evs arbitrary: r)
  case (Cons x evs)
  obtain h e where x: "x = (h, e)" by (cases x)
  obtain i where i: "io_handles r h = Some i" using Cons.prems x by auto
  let ?r = "put_handle h (Some (i\<lparr>eventsReceived := e\<rparr>)) r"
  have "\<forall>x \<in> set evs. io_handles ?r (fst x) \<noteq> None" using Cons.prems by (simp add: put_handle_def)
  then show ?case using Cons.IH [of ?r] x i by (auto simp: put_handle_def split: if_splits)
qed simp

lemma poller_poll_alive:
  assumes "\<forall>x \<in> set (take maxEventsReceivedEachPoll evs). io_handles r (fst x) \<noteq> None"
  shows "\<exists>r1. poller_poll (Some evs) r = Inr (map fst (take maxEventsReceivedEachPoll evs), r1) \<and> loop_channels r1 = loop_channels r \<and>
    ctl_calls r1 = ctl_calls r \<and> (\<forall>h. io_handles r1 h = None \<longleftrightarrow> io_handles r h = None)"
  using active_fds_alive [OF assms] mark_received_alive [OF assms]
  by (cases evs) (auto simp: poller_poll_def last_fd_def Let_def maxEventsReceivedEachPoll_def)

subsection \<open>The interest list of the kernel\<close>

text \<open>epoll(7): adding a registered descriptor, or changing or removing an unregistered one, fails
  and changes nothing.\<close>

fun interest_step :: "'h ctl \<Rightarrow> (int \<Rightarrow> (u32 \<times> 'h) option) \<Rightarrow> (int \<Rightarrow> (u32 \<times> 'h) option)" where
  "interest_step (CtlAdd fd ev h) m = (if m fd = None then m(fd := Some (ev, h)) else m)"
| "interest_step (CtlMod fd ev h) m = (if m fd = None then m else m(fd := Some (ev, h)))"
| "interest_step (CtlDel fd) m = m(fd := None)"

definition interest :: "'h ctl list \<Rightarrow> int \<Rightarrow> (u32 \<times> 'h) option" where
  "interest cs = fold interest_step cs (\<lambda>_. None)"

lemma interest_Nil [simp]: "interest [] fd = None"
  by (simp add: interest_def)

lemma interest_snoc [simp]: "interest (cs @ [c]) = interest_step c (interest cs)"
  by (simp add: interest_def)

text \<open>
  The invariant: the vector holds exactly the live handles that know their loop, each once; no
  two live handles share a descriptor; and the kernel's list is the vector's handles with the
  events they are interested in now.
\<close>

definition wanted :: "'h reactor \<Rightarrow> 'h \<Rightarrow> int \<Rightarrow> u32 \<Rightarrow> bool" where
  "wanted r h fd ev \<longleftrightarrow> h \<in> set (loop_channels r) \<and>
     (\<exists>i. io_handles r h = Some i \<and> h_fd i = fd \<and> eventsInterested i = ev)"

definition reactor_wf :: "'h reactor \<Rightarrow> bool" where
  "reactor_wf r \<longleftrightarrow> distinct (loop_channels r) \<and>
     (\<forall>h. h \<in> set (loop_channels r) \<longleftrightarrow> (\<exists>i. io_handles r h = Some i \<and> ownerLoop i)) \<and>
     (\<forall>h k i j. io_handles r h = Some i \<longrightarrow> io_handles r k = Some j \<longrightarrow> h_fd i = h_fd j \<longrightarrow> h = k) \<and>
     (\<forall>fd ev h. interest (ctl_calls r) fd = Some (ev, h) \<longleftrightarrow> wanted r h fd ev)"

definition fresh_handle :: "'h \<Rightarrow> int \<Rightarrow> 'h reactor \<Rightarrow> bool" where
  "fresh_handle h fd r \<longleftrightarrow> io_handles r h = None \<and> (\<forall>k j. io_handles r k = Some j \<longrightarrow> h_fd j \<noteq> fd)"

lemmas reactor_defs = put_handle_def ctl_def hasChannel_def addChannel_def removeChannel_def updateChannel_def
  poller_addChannel_def poller_removeChannel_def poller_updateChannel_def setOwnerEventReactor_def

lemma reactor_wfD:
  assumes "reactor_wf r"
  shows "distinct (loop_channels r)"
    and "h \<in> set (loop_channels r) \<longleftrightarrow> (\<exists>i. io_handles r h = Some i \<and> ownerLoop i)"
    and "io_handles r h = Some i \<Longrightarrow> io_handles r k = Some j \<Longrightarrow> h_fd i = h_fd j \<Longrightarrow> h = k"
    and "interest (ctl_calls r) fd = Some (ev, h) \<longleftrightarrow> wanted r h fd ev"
  using assms unfolding reactor_wf_def by blast+

lemma interest_None:
  assumes "reactor_wf r" "io_handles r h = Some i" "h \<notin> set (loop_channels r)"
  shows "interest (ctl_calls r) (h_fd i) = None"
proof (rule ccontr)
  assume "interest (ctl_calls r) (h_fd i) \<noteq> None"
  then obtain ev k where "interest (ctl_calls r) (h_fd i) = Some (ev, k)" by auto
  then have "wanted r k (h_fd i) ev" using reactor_wfD(4) [OF assms(1)] by blast
  then show False using assms reactor_wfD(3) [OF assms(1)] by (auto simp: wanted_def)
qed

lemma reactor_wf_init: "reactor_wf EventReactor_new"
  by (simp add: reactor_wf_def EventReactor_new_def wanted_def)

lemma reactor_wf_new:
  assumes wf: "reactor_wf r" and fresh: "fresh_handle h fd r"
  shows "reactor_wf (IoHandle_new h fd r)"
proof -
  have h: "io_handles r h = None" and fd: "\<And>k j. io_handles r k = Some j \<Longrightarrow> h_fd j \<noteq> fd"
    using fresh by (auto simp: fresh_handle_def)
  have "h \<notin> set (loop_channels r)" using reactor_wfD(2) [OF wf] h by simp
  then have w: "wanted (IoHandle_new h fd r) k f e = wanted r k f e" for k f e
    using h by (auto simp: wanted_def IoHandle_new_def put_handle_def)
  show ?thesis
    unfolding reactor_wf_def w using reactor_wfD [OF wf] h
    by (auto simp: IoHandle_new_def put_handle_def dest: fd)
qed

lemma add_owned_ok:
  assumes wf: "reactor_wf r" and h: "io_handles r h = Some i" and u: "h \<notin> set (loop_channels r)"
  shows "\<exists>r'. add_owned h r = Inr r' \<and> reactor_wf r' \<and> loop_channels r' = loop_channels r @ [h] \<and>
    io_handles r' = (io_handles r)(h := Some (i\<lparr>ownerLoop := True\<rparr>))"
proof -
  let ?r = "r\<lparr>loop_channels := loop_channels r @ [h], ctl_calls := ctl_calls r @ [CtlAdd (h_fd i) (eventsInterested i) h],
    io_handles := (io_handles r)(h := Some (i\<lparr>ownerLoop := True\<rparr>))\<rparr>"
  have e: "add_owned h r = Inr ?r"
    using h u by (simp add: add_owned_def reactor_defs)
  have w: "wanted ?r k fd ev \<longleftrightarrow> (if k = h then fd = h_fd i \<and> ev = eventsInterested i else wanted r k fd ev)" for k fd ev
    using h by (auto simp: wanted_def)
  have n: "interest (ctl_calls r) (h_fd i) = None" using interest_None [OF wf h u] .
  have "interest (ctl_calls ?r) fd = Some (ev, k) \<longleftrightarrow> wanted ?r k fd ev" for fd ev k
  proof -
    have "\<not> wanted r h fd ev" for fd ev using u by (simp add: wanted_def)
    moreover have "\<not> wanted r k (h_fd i) ev" for k ev using n reactor_wfD(4) [OF wf, of "h_fd i" ev k] by simp
    ultimately show ?thesis unfolding w using n reactor_wfD(4) [OF wf] by auto
  qed
  then have "reactor_wf ?r"
    using reactor_wfD(1-3) [OF wf] u h unfolding reactor_wf_def by (auto split: if_splits)
  then show ?thesis using e by simp
qed

text \<open>Taking a handle out of the vector: with \<open>i' = Some (i without owner)\<close> this is
  \<open>unregisterSelf\<close>, with \<open>i' = None\<close> the destructor.\<close>

lemma reactor_wf_drop:
  assumes wf: "reactor_wf r" and h: "io_handles r h = Some i" and "i' = None \<or> i' = Some (i\<lparr>ownerLoop := False\<rparr>)"
  shows "reactor_wf (r\<lparr>loop_channels := remove1 h (loop_channels r),
    ctl_calls := (if ownerLoop i then ctl_calls r @ [CtlDel (h_fd i)] else ctl_calls r),
    io_handles := (io_handles r)(h := i')\<rparr>)" (is "reactor_wf ?r")
proof -
  have u: "h \<in> set (loop_channels r) \<longleftrightarrow> ownerLoop i" using reactor_wfD(2) [OF wf, of h] h by simp
  have w: "wanted ?r k fd ev \<longleftrightarrow> k \<noteq> h \<and> wanted r k fd ev" for k fd ev
    using reactor_wfD(1) [OF wf] by (auto simp: wanted_def)
  have "interest (ctl_calls ?r) fd = Some (ev, k) \<longleftrightarrow> wanted ?r k fd ev" for fd ev k
  proof (cases "fd = h_fd i")
    case True
    have "\<not> (k \<noteq> h \<and> wanted r k fd ev)" using reactor_wfD(3) [OF wf h] True by (auto simp: wanted_def)
    moreover have "interest (ctl_calls ?r) fd = None"
      using True u interest_None [OF wf h] by auto
    ultimately show ?thesis unfolding w by simp
  next
    case False
    have "wanted r k fd ev \<Longrightarrow> k \<noteq> h" using False h by (auto simp: wanted_def)
    then show ?thesis unfolding w using False reactor_wfD(4) [OF wf] by auto
  qed
  then show ?thesis
    using reactor_wfD(1-3) [OF wf] u h assms(3) unfolding reactor_wf_def by (auto split: if_splits)
qed

lemma drop_owned:
  assumes "reactor_wf r" "io_handles r h = Some i"
  shows "(if ownerLoop i then removeChannel h r else Inr r) =
    Inr (r\<lparr>loop_channels := remove1 h (loop_channels r),
      ctl_calls := (if ownerLoop i then ctl_calls r @ [CtlDel (h_fd i)] else ctl_calls r)\<rparr>)"
  using assms reactor_wfD(2) [OF assms(1), of h] by (simp add: reactor_defs remove1_idem)

lemma unregisterSelf_ok:
  assumes "reactor_wf r" "io_handles r h = Some i"
  shows "\<exists>r'. unregisterSelf h r = Inr r' \<and> reactor_wf r' \<and> loop_channels r' = remove1 h (loop_channels r) \<and>
    io_handles r' = (io_handles r)(h := Some (i\<lparr>ownerLoop := False\<rparr>))"
  using drop_owned [OF assms] reactor_wf_drop [OF assms, of "Some (i\<lparr>ownerLoop := False\<rparr>)"] assms(2)
  by (simp add: unregisterSelf_def setOwnerEventReactor_def put_handle_def)

lemma IoHandle_delete_ok:
  assumes "reactor_wf r" "io_handles r h = Some i"
  shows "\<exists>r'. IoHandle_delete h r = Inr r' \<and> reactor_wf r' \<and> loop_channels r' = remove1 h (loop_channels r) \<and>
    io_handles r' = (io_handles r)(h := None)"
  using drop_owned [OF assms] reactor_wf_drop [OF assms, of None] assms(2)
  by (simp add: IoHandle_delete_def put_handle_def)

lemma set_interest_ok:
  assumes wf: "reactor_wf r" and h: "io_handles r h = Some i"
  shows "\<exists>r'. set_interest f h r = Inr r' \<and> reactor_wf r' \<and> loop_channels r' = loop_channels r \<and>
    io_handles r' = (io_handles r)(h := Some (i\<lparr>eventsInterested := f (eventsInterested i)\<rparr>))"
proof -
  let ?i = "i\<lparr>eventsInterested := f (eventsInterested i)\<rparr>"
  let ?r = "r\<lparr>io_handles := (io_handles r)(h := Some ?i),
    ctl_calls := (if ownerLoop i then ctl_calls r @ [CtlMod (h_fd i) (eventsInterested ?i) h] else ctl_calls r)\<rparr>"
  have u: "h \<in> set (loop_channels r) \<longleftrightarrow> ownerLoop i" using reactor_wfD(2) [OF wf, of h] h by simp
  have e: "set_interest f h r = Inr ?r"
    using h u by (simp add: set_interest_def reactor_defs Let_def)
  have w: "wanted ?r k fd ev \<longleftrightarrow>
      (if k = h then ownerLoop i \<and> fd = h_fd i \<and> ev = f (eventsInterested i) else wanted r k fd ev)" for k fd ev
    using h u by (auto simp: wanted_def)
  have o': "ownerLoop i \<Longrightarrow> interest (ctl_calls r) (h_fd i) = Some (eventsInterested i, h)"
    using reactor_wfD(4) [OF wf] u h by (simp add: wanted_def)
  have "interest (ctl_calls ?r) fd = Some (ev, k) \<longleftrightarrow> wanted ?r k fd ev" for fd ev k
  proof (cases "fd = h_fd i")
    case True
    have "\<not> (k \<noteq> h \<and> wanted r k fd ev)" using reactor_wfD(3) [OF wf h] True by (auto simp: wanted_def)
    then show ?thesis unfolding w using True o' u interest_None [OF wf h] by auto
  next
    case False
    have "wanted r k fd ev \<Longrightarrow> k \<noteq> h" using False h by (auto simp: wanted_def)
    then show ?thesis unfolding w using False o' reactor_wfD(4) [OF wf] by auto
  qed
  then have "reactor_wf ?r"
    using reactor_wfD(1-3) [OF wf] u h unfolding reactor_wf_def by (auto split: if_splits)
  then show ?thesis using e by simp
qed

lemmas interest_ops_ok =
  set_interest_ok [where f = "\<lambda>e. e OR readEvent", folded enableReading_def]
  set_interest_ok [where f = "\<lambda>e. e AND noneEvent", folded disableReading_def]
  set_interest_ok [where f = "\<lambda>e. e OR writeEvent", folded enableWriting_def]
  set_interest_ok [where f = "\<lambda>e. e AND NOT writeEvent", folded disableWriting_def]

subsection \<open>What a program can do with handles\<close>

inductive reactor_step :: "'h reactor \<Rightarrow> 'h reactor \<Rightarrow> bool" where
  rs_new: "fresh_handle h fd r \<Longrightarrow> reactor_step r (IoHandle_new h fd r)"
| rs_interest: "io_handles r h \<noteq> None \<Longrightarrow> op \<in> {enableReading, disableReading, enableWriting, disableWriting, disableAll} \<Longrightarrow>
    op h r = Inr r' \<Longrightarrow> reactor_step r r'"
| rs_register: "io_handles r h \<noteq> None \<Longrightarrow> \<not> hasChannel h r \<Longrightarrow> add_owned h r = Inr r' \<Longrightarrow> reactor_step r r'"
| rs_unregister: "io_handles r h \<noteq> None \<Longrightarrow> unregisterSelf h r = Inr r' \<Longrightarrow> reactor_step r r'"
| rs_delete: "io_handles r h \<noteq> None \<Longrightarrow> IoHandle_delete h r = Inr r' \<Longrightarrow> reactor_step r r'"

definition reactor_init :: "'h reactor \<Rightarrow> bool" where
  "reactor_init r \<longleftrightarrow> r = EventReactor_new"

interpretation reactor_sys: transition_system reactor_init reactor_step .

lemma disableAll_disableReading: "disableAll = disableReading"
  by (simp add: disableAll_def disableReading_def)

lemma reactor_wf_step:
  assumes "reactor_wf r" "reactor_step r r'"
  shows "reactor_wf r'"
  using assms(2)
proof (cases rule: reactor_step.cases)
  case (rs_new h fd)
  then show ?thesis using reactor_wf_new [OF assms(1)] by blast
next
  case (rs_interest h op)
  then obtain i where "io_handles r h = Some i" by blast
  from interest_ops_ok [OF assms(1) this] show ?thesis
    using rs_interest(2,3) by (auto simp: disableAll_disableReading)
next
  case (rs_register h)
  then show ?thesis using add_owned_ok [OF assms(1), of h] by (auto simp: hasChannel_def)
next
  case (rs_unregister h)
  then show ?thesis using unregisterSelf_ok [OF assms(1), of h] by auto
next
  case (rs_delete h)
  then show ?thesis using IoHandle_delete_ok [OF assms(1), of h] by auto
qed

lemma reactor_reachable_wf: "reactor_sys.reachable r \<Longrightarrow> reactor_wf r"
  by (rule reactor_sys.invariant) (auto simp: reactor_init_def reactor_wf_init intro: reactor_wf_step)

text \<open>(C21) The reactor and the kernel agree: however handles are created, changed, registered,
  unregistered and destroyed, the vector never holds a handle twice or a destroyed one, and the
  interest list that epoll keeps for the calls made so far has exactly one entry for each handle
  of the vector, under its descriptor and with the events it is interested in now. A destroyed
  handle is out of both.\<close>

theorem reactor_epoll_in_sync:
  assumes "reactor_sys.reachable r"
  shows "distinct (loop_channels r) \<and>
    (\<forall>h. io_handles r h = None \<longrightarrow> \<not> hasChannel h r \<and> (\<forall>fd ev. interest (ctl_calls r) fd \<noteq> Some (ev, h))) \<and>
    (\<forall>fd ev h. interest (ctl_calls r) fd = Some (ev, h) \<longleftrightarrow>
      hasChannel h r \<and> (\<exists>i. io_handles r h = Some i \<and> h_fd i = fd \<and> eventsInterested i = ev))"
  using reactor_wfD [OF reactor_reachable_wf [OF assms]] by (auto simp: hasChannel_def wanted_def)

definition reactor_ex :: "nat reactor" where
  "reactor_ex = \<lparr>loop_channels = [0], io_handles = (\<lambda>_. None)(0 := Some \<lparr>h_fd = 9, eventsInterested = 3,
     eventsReceived = 0, handlingEvents = False, ownerLoop = True\<rparr>), ctl_calls = [CtlAdd 9 3 0]\<rparr>"

lemma reactor_ex_reachable: "reactor_sys.reachable reactor_ex"
proof -
  let ?r1 = "IoHandle_new 0 9 (EventReactor_new :: nat reactor)"
  obtain r2 where e: "enableReading 0 ?r1 = Inr r2"
    by (simp add: enableReading_def set_interest_def IoHandle_new_def put_handle_def Let_def)
  have "reactor_sys.reachable (EventReactor_new :: nat reactor)"
    by (rule reactor_sys.reach_init) (simp add: reactor_init_def)
  moreover have "reactor_step EventReactor_new ?r1"
    by (rule rs_new) (simp add: fresh_handle_def EventReactor_new_def)
  moreover have "reactor_step ?r1 r2"
    by (rule rs_interest [where h = 0 and op = enableReading]) (rule e | simp add: IoHandle_new_def put_handle_def)+
  moreover have "reactor_step r2 reactor_ex"
    using e by (intro rs_register [of _ 0])
      (auto simp: enableReading_def set_interest_def IoHandle_new_def Let_def reactor_defs EventReactor_new_def
         add_owned_def reactor_ex_def poll_defs)
  ultimately show ?thesis by (blast intro: reactor_sys.reach_step)
qed

theorem reactor_epoll_in_sync_witness:
  "interest (ctl_calls reactor_ex) 9 = Some (3, 0) \<and> hasChannel 0 reactor_ex"
  using reactor_epoll_in_sync [OF reactor_ex_reachable] by (simp add: reactor_ex_def hasChannel_def)

end
