(* ===== verification/Udp_Session.thy ===== *)
theory Udp_Session
  imports Ip_Tx Sessions
begin

section \<open>UDP sessions (src/veloxd/udp/UdpSession.cpp)\<close>

text \<open>
  A UDP session is a plain session. \<open>send\<close> builds one datagram (the UDP checksum is left at
  zero, "none"), \<open>send\<close> with an address connects, sends and disconnects, \<open>recv\<close> strips
  the header and queues the packet at the endpoint (the argument \<open>put\<close>).
\<close>

definition udp_send :: "byte list \<Rightarrow> Session \<Rightarrow> 'x net_scheme \<Rightarrow> (int \<times> Session \<times> 'x net_scheme) res" where
  "udp_send buf s st =
     (case session_send s (udp_port st) of (_, s1, p1) \<Rightarrow>
      let fb = FrameBuf_new\<lparr>hdrs_begin := Raw 40, network_hdr := Raw 40, transport_hdr := Raw 60,
                 hdrs_end := Raw (40 + 28)\<rparr>;
          r1 = put32 (40 + 16) (faddr s1) (put32 (40 + 12) (laddr s1)
                (put16 (40 + 10) (bswap16 (of_nat (length buf + 8))) (put8 (40 + 9) 17 (rawBytes fb))));
          r2 = put16 (60 + 6) 0 (put16 (60 + 4) (bswap16 (of_nat (length buf + 8)))
                (put16 (60 + 2) (fport s1) (put16 60 (lport s1) r1)));
          r3 = put16 (40 + 2) (bswap16 (of_nat (length buf + 28))) (put8 (40 + 1) 0 (put8 (40 + 8) 64 r2));
          r4 = put16 (40 + 10) 0 r3
      in bindr (ip_tx (fb\<lparr>rawBytes := r4\<rparr>) buf (st\<lparr>udp_port := p1\<rparr>)) (\<lambda>st1.
         Inr (int (length buf), s1, st1)))"

definition udp_connect :: "u32 \<Rightarrow> u16 \<Rightarrow> Session \<Rightarrow> 'x net_scheme \<Rightarrow> int \<times> Session \<times> 'x net_scheme" where
  "udp_connect fa fp s st =
     (case session_connect fa fp s (udp_port st) of (s1, p1) \<Rightarrow> (0, s1, st\<lparr>udp_port := p1\<rparr>))"

definition udp_send_to :: "u32 \<Rightarrow> u16 \<Rightarrow> byte list \<Rightarrow> Session \<Rightarrow> 'x net_scheme \<Rightarrow>
    (int \<times> Session \<times> 'x net_scheme) res" where
  "udp_send_to fa fp buf s st =
     (case session_send_to fa fp s (udp_port st) of (_, s1, p1) \<Rightarrow>
      case udp_connect fa fp s1 (st\<lparr>udp_port := p1\<rparr>) of (_, s2, st2) \<Rightarrow>
      bindr (udp_send buf s2 st2) (\<lambda>(ret', s3, st3). Inr (ret', session_disconnect s3, st3)))"

definition udp_recv :: "(FrameBuf \<Rightarrow> 's \<Rightarrow> 's res) \<Rightarrow> FrameBuf \<Rightarrow> 's \<Rightarrow> 's res" where
  "udp_recv put fb st = put (fb\<lparr>user_payload_begin := ptr_add (transport_hdr fb) 8\<rparr>) st"

subsection \<open>Reading a datagram back\<close>

record datagram =
  dg_source :: u16
  dg_dest :: u16
  dg_len :: u16
  dg_check :: u16
  dg_data :: "byte list"

definition datagram_of :: "byte list \<Rightarrow> datagram" where
  "datagram_of pkt = (let h = drop 20 pkt; r = (\<lambda>i. h ! i) in
     \<lparr>dg_source = get16 r 0, dg_dest = get16 r 2, dg_len = bswap16 (get16 r 4), dg_check = get16 r 6,
      dg_data = drop 8 h\<rparr>)"

lemma udp_send_tx:
  assumes "lport s \<noteq> 0" "length buf \<le> 65507"
  shows "\<exists>st' pkt. udp_send buf s st = Inr (int (length buf), s, st') \<and>
    st' = st\<lparr>ip_last := snd (ip_id_next (ip_last st)), wire := wire st @ [pkt]\<rparr> \<and>
    valid_ip_packet 17 (laddr s) (faddr s) pkt \<and> length pkt = length buf + 28 \<and>
    datagram_of pkt = \<lparr>dg_source = lport s, dg_dest = fport s, dg_len = of_nat (length buf + 8), dg_check = 0,
      dg_data = buf\<rparr>"
proof -
  define fb where "fb = FrameBuf_new\<lparr>hdrs_begin := Raw 40, network_hdr := Raw 40, transport_hdr := Raw 60,
    hdrs_end := Raw 68\<rparr>"
  define r where "r = put16 50 0 (put16 42 (bswap16 (of_nat (length buf + 28))) (put8 41 0 (put8 48 64
    (put16 66 0 (put16 64 (bswap16 (of_nat (length buf + 8))) (put16 62 (fport s) (put16 60 (lport s)
    (put32 56 (faddr s) (put32 52 (laddr s) (put16 50 (bswap16 (of_nat (length buf + 8)))
    (put8 49 17 (\<lambda>_. 0))))))))))))"
  have send: "udp_send buf s st = bindr (ip_tx (fb\<lparr>rawBytes := r\<rparr>) buf st) (\<lambda>st1. Inr (int (length buf), s, st1))"
    using assms(1) by (simp add: udp_send_def session_send_def fb_def r_def Let_def FrameBuf_new_def)
  let ?i = "fst (ip_id_next (ip_last st))"
  let ?ip = "\<lambda>c. ip_header_bytes (of_nat (length buf + 28)) ?i 64 17 c (laddr s) (faddr s)"
  have "hslice r 40 60 = [0, 0] @ be16_bytes (of_nat (length buf + 28)) @ [0, 0, 0, 0, 64, 17, 0, 0] @
      addr_bytes (laddr s) @ addr_bytes (faddr s)"
    by (simp add: hslice_def r_def put_defs be16_bytes_def addr_bytes_def bswap16_def)
  from ip_header_out_bytes [OF this, of ?i] obtain c where
    c: "hslice (ip_header_out r 40 ?i) 40 60 = ?ip c" "lo16 (checksum (?ip c) 0) = 0" by blast
  define h where "h = hslice r 60 68"
  have h: "h = [lo8 (lport s), hi8 (lport s), lo8 (fport s), hi8 (fport s)] @ be16_bytes (of_nat (length buf + 8)) @ [0, 0]"
    by (simp add: h_def hslice_def r_def put_defs be16_bytes_def bswap16_def)
  have out: "hslice (ip_header_out r 40 ?i) 40 68 = ?ip c @ h"
    using hslice_split [of 40 60 68 "ip_header_out r 40 ?i"] c(1) ip_header_out_rest [of 60 r ?i 68] by (simp add: h_def)
  have "tx_layout (fb\<lparr>rawBytes := r\<rparr>) 28" by (simp add: tx_layout_def fb_def FrameBuf_new_def)
  from ip_tx_eq [OF this, of buf st] out have tx: "ip_tx (fb\<lparr>rawBytes := r\<rparr>) buf st =
      Inr (st\<lparr>ip_last := snd (ip_id_next (ip_last st)), wire := wire st @ [?ip c @ h @ buf]\<rparr>)" by simp
  have "length h = 8" by (simp add: h be16_bytes_def)
  then have "valid_ip_packet 17 (laddr s) (faddr s) (?ip c @ h @ buf)"
    using valid_ip_packetI [of "h @ buf" ?i 64 17 c "laddr s" "faddr s"] c(2) assms(2) by (simp add: add.commute)
  moreover have "datagram_of (?ip c @ h @ buf) = \<lparr>dg_source = lport s, dg_dest = fport s,
      dg_len = of_nat (length buf + 8), dg_check = 0, dg_data = buf\<rparr>"
    by (simp add: datagram_of_def Let_def get16_def h be16_bytes_def bswap16_def)
  moreover have "udp_send buf s st = Inr (int (length buf), s,
      st\<lparr>ip_last := snd (ip_id_next (ip_last st)), wire := wire st @ [?ip c @ h @ buf]\<rparr>)" using send tx by simp
  moreover have "length (?ip c @ h @ buf) = length buf + 28"
    using \<open>length h = 8\<close> by (simp add: ip_header_bytes_def addr_bytes_def be16_bytes_def)
  ultimately show ?thesis by blast
qed

lemma udp_send_to_tx:
  assumes "lport s \<noteq> 0" and "length buf \<le> 65507"
  shows "\<exists>st' pkt. udp_send_to fa fp buf s st = Inr (int (length buf), s\<lparr>faddr := 0, fport := 0\<rparr>, st') \<and>
    wire st' = wire st @ [pkt] \<and> valid_ip_packet 17 (laddr s) fa pkt \<and> length pkt = length buf + 28 \<and>
    datagram_of pkt = \<lparr>dg_source = lport s, dg_dest = fp, dg_len = of_nat (length buf + 8), dg_check = 0,
      dg_data = buf\<rparr>"
proof -
  let ?s = "s\<lparr>faddr := fa, fport := fp\<rparr>"
  obtain st' pkt where "udp_send buf ?s st = Inr (int (length buf), ?s, st')"
    "st' = st\<lparr>ip_last := snd (ip_id_next (ip_last st)), wire := wire st @ [pkt]\<rparr>"
    "valid_ip_packet 17 (laddr s) fa pkt" "length pkt = length buf + 28"
    "datagram_of pkt = \<lparr>dg_source = lport s, dg_dest = fp, dg_len = of_nat (length buf + 8), dg_check = 0, dg_data = buf\<rparr>"
    using udp_send_tx [of ?s buf st] assms by auto
  then show ?thesis
    using assms(1) by (simp add: udp_send_to_def udp_connect_def session_connect_def session_send_to_def
        session_disconnect_def Let_def)
qed

subsection \<open>Properties\<close>

text \<open>A datagram to a given address: \<open>send\<close> with an address on a bound session returns the
  payload's length and puts exactly one packet on the wire - a valid IPv4 packet to that address
  whose UDP header names both ports and the length and whose data is the payload. Afterwards the
  session has no peer, also when it had one before: sending to an explicit address drops the
  connection of a connected socket.\<close>

theorem udp_send_to_datagram:
  assumes "lport s \<noteq> 0" and "length buf \<le> 65507"
  shows "\<exists>st' pkt. udp_send_to fa fp buf s st = Inr (int (length buf), s\<lparr>faddr := 0, fport := 0\<rparr>, st') \<and>
    wire st' = wire st @ [pkt] \<and> valid_ip_packet 17 (laddr s) fa pkt \<and>
    datagram_of pkt = \<lparr>dg_source = lport s, dg_dest = fp, dg_len = of_nat (length buf + 8), dg_check = 0,
      dg_data = buf\<rparr>"
  using udp_send_to_tx [OF assms] by blast

theorem udp_send_to_datagram_witness:
  "\<exists>st' pkt. udp_send_to 9 53 [1, 2] ((Session_new 1)\<lparr>lport := 1025, faddr := 7, fport := 80\<rparr>)
      \<lparr>ip_last = 0, tcp_port = 1024, udp_port = 1024, wire = []\<rparr> =
      Inr (2, (Session_new 1)\<lparr>lport := 1025\<rparr>, st') \<and> wire st' = [pkt] \<and> dg_data (datagram_of pkt) = [1, 2]"
  using udp_send_to_datagram [of "(Session_new 1)\<lparr>lport := 1025, faddr := 7, fport := 80\<rparr>" "[1, 2]" 9 53
      "\<lparr>ip_last = 0, tcp_port = 1024, udp_port = 1024, wire = []\<rparr>"]
  by (fastforce simp: Session_new_def)

end
