(* ===== verification/Reassembler.thy ===== *)
theory Reassembler
  imports Ip_Header "HOL-Library.Multiset"
begin

unbundle bit_operations_syntax

section \<open>Reassembly of fragments (src/veloxd/ip/reassembly/Reassembler.cpp, FragGroup.h)\<close>

text \<open>
  A \<open>FragGroup\<close> collects the fragments of one packet; \<open>defrag\<close> adds a fragment to its
  group (a new one when there is none), and gives back the chain of buffers when it is complete.
  The list of groups is the state; a group's fragments are a list in the order of the
  \<open>next\<close> links. The 60 second timer that removes a group is \<open>timeout_cb\<close>; when it runs
  is up to the event library. The mutex makes each call one step, see Reassembler_Lock.
\<close>

record FragGroup =
  fg_ip_id :: u16
  fg_ip_protocol :: byte
  fg_ip_saddr :: u32
  fg_ip_daddr :: u32
  fg_first :: chain

subsection \<open>Fields of a fragment\<close>

text \<open>Fragments in a group have their network header set (\<open>group_wf\<close>), so the other cases
  of the pointer do not occur.\<close>

definition net_off :: "FrameBuf \<Rightarrow> nat" where
  "net_off fb = (case network_hdr fb of Raw n \<Rightarrow> n | _ \<Rightarrow> 0)"

text \<open>The offset in units of eight bytes, and the one \<open>defrag\<close> uses to find the place in the
  chain, which is not converted from network order.\<close>

definition frag_units :: "FrameBuf \<Rightarrow> nat" where
  "frag_units fb = unat (bswap16 (ip_frag_off (rawBytes fb) (net_off fb)) AND IP_OFF_MASK)"

definition ours_off :: "FrameBuf \<Rightarrow> nat" where
  "ours_off fb = unat (ip_frag_off (rawBytes fb) (net_off fb) AND IP_OFF_MASK)"

definition frag_len :: "FrameBuf \<Rightarrow> int" where
  "frag_len fb = int (unat (bswap16 (ip_tot_len (rawBytes fb) (net_off fb)))) - int (ip_ihl (rawBytes fb) (net_off fb) * 4)"

definition more_frags :: "FrameBuf \<Rightarrow> bool" where
  "more_frags fb \<longleftrightarrow> bswap16 (ip_frag_off (rawBytes fb) (net_off fb)) AND IP_MF_MASK \<noteq> 0"

subsection \<open>defrag\<close>

definition same_packet :: "(nat \<Rightarrow> byte) \<Rightarrow> nat \<Rightarrow> FragGroup \<Rightarrow> bool" where
  "same_packet r o' c \<longleftrightarrow> fg_ip_id c = ip_id r o' \<and> fg_ip_protocol c = ip_protocol r o' \<and>
     fg_ip_saddr c = ip_saddr r o' \<and> fg_ip_daddr c = ip_daddr r o'"

definition new_group :: "(nat \<Rightarrow> byte) \<Rightarrow> nat \<Rightarrow> FragGroup" where
  "new_group r o' = \<lparr>fg_ip_id = ip_id r o', fg_ip_protocol = ip_protocol r o', fg_ip_saddr = ip_saddr r o',
     fg_ip_daddr = ip_daddr r o', fg_first = []\<rparr>"

text \<open>Step 3. When the walk stops at once, \<open>prev\<close> is still null.\<close>

definition insert_frag :: "FrameBuf \<Rightarrow> chain \<Rightarrow> chain res" where
  "insert_frag fb first =
     (if first = [] \<or> frag_units (hd first) > frag_units fb then Inr (fb # first)
      else let before = takeWhile (\<lambda>c. ours_off fb > frag_units c) first;
               after = dropWhile (\<lambda>c. ours_off fb > frag_units c) first
           in if before = [] then Inl NullDeref else Inr (before @ fb # after))"

text \<open>Step 4.\<close>

fun contiguous :: "int \<Rightarrow> chain \<Rightarrow> bool" where
  "contiguous expectedOff [] = True"
| "contiguous expectedOff (c # cs) =
     (let currOff = int (frag_units c) * 8 in
      if currOff \<noteq> expectedOff then False else contiguous (currOff + frag_len c) cs)"

definition complete :: "chain \<Rightarrow> bool" where
  "complete ch \<longleftrightarrow> contiguous 0 ch \<and> \<not> more_frags (last ch)"

text \<open>Step 5: the total length goes into the first header; the others lose their headers.\<close>

definition adjust_first :: "FrameBuf \<Rightarrow> FrameBuf \<Rightarrow> FrameBuf" where
  "adjust_first fin fb =
     (let payloadlen = (of_int (int (frag_units fin) * 8 + frag_len fin) :: u16);
          o' = net_off fb
      in fb\<lparr>rawBytes := put16 (o' + 2)
           (bswap16 (payloadlen + of_nat (ip_ihl (rawBytes fb) o' * 4))) (rawBytes fb)\<rparr>)"

definition adjust_rest :: "FrameBuf \<Rightarrow> FrameBuf" where
  "adjust_rest fb =
     (let iphdrlen = ip_ihl (rawBytes fb) (net_off fb)
      in fb\<lparr>network_hdr := Null, user_payload_begin := Raw iphdrlen\<rparr>)"

definition reassemble :: "chain \<Rightarrow> chain" where
  "reassemble ch = adjust_first (last ch) (hd ch) # map adjust_rest (tl ch)"

definition defrag :: "FrameBuf \<Rightarrow> FragGroup list \<Rightarrow> (chain option \<times> FragGroup list) res" where
  "defrag fb ctxs =
     bindr (hdr_at (network_hdr fb)) (\<lambda>o'.
     let r = rawBytes fb;
         before = takeWhile (\<lambda>c. \<not> same_packet r o' c) ctxs;
         (ctx, after) = (case dropWhile (\<lambda>c. \<not> same_packet r o' c) ctxs of
            [] \<Rightarrow> (new_group r o', []) | c # cs \<Rightarrow> (c, cs))
     in bindr (insert_frag fb (fg_first ctx)) (\<lambda>ch.
        if complete ch then Inr (Some (reassemble ch), before @ after)
        else Inr (None, before @ ctx\<lparr>fg_first := ch\<rparr> # after)))"

text \<open>\<open>timeout_cb\<close> for the \<open>i\<close>th group: it is removed if it is still there.\<close>

definition timeout_cb :: "nat \<Rightarrow> FragGroup list \<Rightarrow> FragGroup list" where
  "timeout_cb i ctxs = take i ctxs @ drop (Suc i) ctxs"

subsection \<open>Lemmas\<close>

definition group_wf :: "FragGroup \<Rightarrow> bool" where
  "group_wf c \<longleftrightarrow> fg_first c \<noteq> [] \<and> list_all (\<lambda>fb. \<exists>n. network_hdr fb = Raw n \<and>
     same_packet (rawBytes fb) n c) (fg_first c)"

lemma insert_frag_mset: "insert_frag fb first = Inr ch \<Longrightarrow> mset ch = mset (fb # first)"
proof -
  have "mset (takeWhile P first @ fb # dropWhile P first) = mset (fb # first)" for P
    by (metis mset_append mset.simps(2) takeWhile_dropWhile_id union_mset_add_mset_right)
  then show "insert_frag fb first = Inr ch \<Longrightarrow> mset ch = mset (fb # first)"
    by (auto simp: insert_frag_def Let_def split: if_splits)
qed

lemma contiguous_sums:
  assumes "contiguous e ch" "i < length ch"
  shows "int (frag_units (ch ! i)) * 8 = e + sum_list (map frag_len (take i ch))"
  using assms
proof (induction e ch arbitrary: i rule: contiguous.induct)
  case (2 e c cs)
  then show ?case by (cases i) (auto simp: Let_def split: if_splits)
qed simp

lemma defrag_cases:
  assumes "defrag fb ctxs = Inr (p, ctxs')"
  obtains o' before ctx after ch where "network_hdr fb = Raw o'"
    "insert_frag fb (fg_first ctx) = Inr ch" "same_packet (rawBytes fb) o' ctx"
    "ctxs = before @ ctx # after \<or> ctxs = before \<and> after = [] \<and> fg_first ctx = []"
    "list_all (\<lambda>c. \<not> same_packet (rawBytes fb) o' c) before"
    "p = (if complete ch then Some (reassemble ch) else None)"
    "ctxs' = before @ (if complete ch then [] else [ctx\<lparr>fg_first := ch\<rparr>]) @ after"
proof -
  obtain o' where o': "network_hdr fb = Raw o'"
    using assms by (cases "network_hdr fb") (auto simp: defrag_def)
  let ?P = "\<lambda>c. \<not> same_packet (rawBytes fb) o' c"
  have none: "list_all ?P (takeWhile ?P ctxs)" by (auto simp: list_all_iff dest: set_takeWhileD)
  show thesis
  proof (cases "dropWhile ?P ctxs")
    case Nil
    then have all: "takeWhile ?P ctxs = ctxs" by (metis append_Nil2 takeWhile_dropWhile_id)
    have "same_packet (rawBytes fb) o' (new_group (rawBytes fb) o')" "fg_first (new_group (rawBytes fb) o') = []"
      by (simp_all add: same_packet_def new_group_def)
    then show thesis
      using that [of o' "new_group (rawBytes fb) o'" _ ctxs "[]"] assms o' Nil none
      by (auto simp: defrag_def Let_def bindr_eq_Inr all split: if_splits)
  next
    case (Cons c cs)
    then have "same_packet (rawBytes fb) o' c" by (metis (no_types, lifting) hd_dropWhile list.sel(1) list.distinct(1))
    moreover have "ctxs = takeWhile ?P ctxs @ c # cs" using Cons by (metis takeWhile_dropWhile_id)
    ultimately show thesis
      using that [of o' c _ "takeWhile ?P ctxs" cs] assms o' Cons none
      by (auto simp: defrag_def Let_def bindr_eq_Inr split: if_splits)
  qed
qed

subsection \<open>The invariant of the list of groups\<close>

definition fg_key :: "FragGroup \<Rightarrow> u16 \<times> byte \<times> u32 \<times> u32" where
  "fg_key c = (fg_ip_id c, fg_ip_protocol c, fg_ip_saddr c, fg_ip_daddr c)"

lemma same_packet_key: "same_packet r o' c \<longleftrightarrow> fg_key c = (ip_id r o', ip_protocol r o', ip_saddr r o', ip_daddr r o')"
  by (simp add: same_packet_def fg_key_def)

definition groups_ok :: "FragGroup list \<Rightarrow> bool" where
  "groups_ok ctxs \<longleftrightarrow> list_all group_wf ctxs \<and> distinct (map fg_key ctxs)"

lemma defrag_group_wf:
  assumes "network_hdr fb = Raw o'" "insert_frag fb (fg_first ctx) = Inr ch" "same_packet (rawBytes fb) o' ctx"
    "fg_first ctx = [] \<or> group_wf ctx"
  shows "group_wf (ctx\<lparr>fg_first := ch\<rparr>)"
proof -
  have m: "mset ch = mset (fb # fg_first ctx)" using insert_frag_mset [OF assms(2)] .
  then have s: "set ch = insert fb (set (fg_first ctx))" by (metis set_mset_mset list.set(2))
  have "ch \<noteq> []" using m by auto
  then show ?thesis
    using assms(1,3,4) s by (auto simp: group_wf_def list_all_iff same_packet_def)
qed

lemma defrag_groups_ok:
  assumes "groups_ok ctxs" "defrag fb ctxs = Inr (p, ctxs')"
  shows "groups_ok ctxs'"
  using assms(2)
proof (cases rule: defrag_cases)
  case (1 o' before ctx after ch)
  have wf: "group_wf (ctx\<lparr>fg_first := ch\<rparr>)"
    using defrag_group_wf [OF 1(1-3)] 1(4) assms(1) by (auto simp: groups_ok_def)
  have key: "fg_key (ctx\<lparr>fg_first := ch\<rparr>) = fg_key ctx" by (simp add: fg_key_def)
  have "fg_key ctx \<notin> fg_key ` set before"
    using 1(3,5) by (auto simp: same_packet_key list_all_iff)
  then show ?thesis
    using 1(4,7) assms(1) wf by (elim disjE conjE) (simp_all add: groups_ok_def key)
qed

lemma timeout_groups_ok:
  assumes "groups_ok ctxs"
  shows "groups_ok (timeout_cb i ctxs)"
proof -
  have "distinct (map fg_key ctxs)" using assms by (simp add: groups_ok_def)
  then have "distinct (take i (map fg_key ctxs) @ drop (Suc i) (map fg_key ctxs))"
    unfolding distinct_append by (simp only: distinct_take distinct_drop set_take_disj_set_drop_if_distinct)
  then have "distinct (map fg_key (take i ctxs @ drop (Suc i) ctxs))" by (simp add: take_map drop_map)
  then show ?thesis
    using assms by (auto simp: groups_ok_def timeout_cb_def list_all_iff dest: in_set_takeD in_set_dropD)
qed

subsection \<open>Properties\<close>

definition frag0 :: "nat \<Rightarrow> nat \<Rightarrow> bool \<Rightarrow> FrameBuf" where
  "frag0 units len mf = FrameBuf_new\<lparr>network_hdr := Raw 0, hdrs_begin := Raw 0, user_payload_end := Raw (20 + len),
     rawBytes := put16 6 (bswap16 (of_nat units OR (if mf then 8192 else 0)))
       (put16 2 (bswap16 (of_nat (20 + len))) ((\<lambda>_. 0)(0 := 69)))\<rparr>"

text \<open>At most one group stands for a packet.\<close>

lemma same_packet_filter:
  assumes "distinct (map fg_key (before @ ctx # after))" "same_packet r o' ctx"
  shows "filter (same_packet r o') (before @ ctx # after) = [ctx]" "filter (\<lambda>c. \<not> same_packet r o' c) (before @ ctx # after) = before @ after"
proof -
  have "\<not> same_packet r o' c" if "c \<in> set before \<union> set after" for c
    using assms that by (force simp: same_packet_key)
  then show "filter (same_packet r o') (before @ ctx # after) = [ctx]" "filter (\<lambda>c. \<not> same_packet r o' c) (before @ ctx # after) = before @ after"
    using assms(2) by (auto simp: filter_empty_conv intro: filter_True)
qed

text \<open>(C20) A packet is only given up when it is whole: its chain holds the new fragment and all the fragments its group had collected, each as
  often as it came, and nothing else, all of the same packet; the first starts at offset 0, each starts where the
  ones before it end, and the last one says that no more follow. The group is gone afterwards, the others are as they were.\<close>

theorem defrag_complete:
  assumes "groups_ok ctxs" and "defrag fb ctxs = Inr (Some pk, ctxs')"
  shows "\<exists>ch o'. pk = reassemble ch \<and> network_hdr fb = Raw o' \<and>
    mset ch = mset (fb # concat (map fg_first (filter (same_packet (rawBytes fb) o') ctxs))) \<and>
    list_all (\<lambda>i. int (frag_units (ch ! i)) * 8 = sum_list (map frag_len (take i ch))) [0..<length ch] \<and>
    \<not> more_frags (last ch) \<and>
    list_all (\<lambda>c. \<exists>n. network_hdr c = Raw n \<and> ip_id (rawBytes c) n = ip_id (rawBytes fb) o' \<and> ip_protocol (rawBytes c) n = ip_protocol (rawBytes fb) o' \<and>
      ip_saddr (rawBytes c) n = ip_saddr (rawBytes fb) o' \<and> ip_daddr (rawBytes c) n = ip_daddr (rawBytes fb) o') ch \<and>
    ctxs' = filter (\<lambda>c. \<not> same_packet (rawBytes fb) o' c) ctxs"
  using assms(2)
proof (cases rule: defrag_cases)
  case (1 o' before ctx after ch)
  have c: "complete ch" "pk = reassemble ch" "ctxs' = before @ after" using 1(6,7) by (auto split: if_splits)
  have wf: "group_wf (ctx\<lparr>fg_first := ch\<rparr>)"
    using defrag_group_wf [OF 1(1-3)] 1(4) assms(1) by (auto simp: groups_ok_def)
  have "concat (map fg_first (filter (same_packet (rawBytes fb) o') ctxs)) = fg_first ctx \<and>
      ctxs' = filter (\<lambda>c. \<not> same_packet (rawBytes fb) o' c) ctxs"
    using 1(4)
  proof
    assume "ctxs = before @ ctx # after"
    then show ?thesis using same_packet_filter [of before ctx after, OF _ 1(3)] assms(1) c(3) by (simp add: groups_ok_def)
  next
    assume "ctxs = before \<and> after = [] \<and> fg_first ctx = []"
    then show ?thesis using 1(5) c(3) by (auto simp: list_all_iff filter_empty_conv)
  qed
  moreover have "mset ch = mset (fb # fg_first ctx)" using insert_frag_mset [OF 1(2)] .
  moreover have "list_all (\<lambda>i. int (frag_units (ch ! i)) * 8 = sum_list (map frag_len (take i ch))) [0..<length ch]"
    using c(1) contiguous_sums [of 0 ch] by (simp add: complete_def list_all_iff)
  moreover have "list_all (\<lambda>c. \<exists>n. network_hdr c = Raw n \<and> ip_id (rawBytes c) n = ip_id (rawBytes fb) o' \<and> ip_protocol (rawBytes c) n = ip_protocol (rawBytes fb) o' \<and>
      ip_saddr (rawBytes c) n = ip_saddr (rawBytes fb) o' \<and> ip_daddr (rawBytes c) n = ip_daddr (rawBytes fb) o') ch"
    using wf 1(3) by (fastforce simp: group_wf_def list_all_iff same_packet_def)
  ultimately show ?thesis using c 1(1) by (auto simp: complete_def)
qed

text \<open>(C39) Two fragments stop the daemon: the position of a later fragment is looked up with the
  offset in the wrong byte order, and when that makes the walk stop at the first fragment, a null
  pointer is written through. A fragment at offset 16 (two units) followed by the last fragment
  at offset 4096 (512 units, byte-swapped 2) of the same packet is enough.\<close>

theorem defrag_null_deref:
  shows "case defrag (frag0 2 8 True) [] of Inl e \<Rightarrow> False
    | Inr (p, ctxs) \<Rightarrow> p = None \<and> groups_ok ctxs \<and> defrag (frag0 512 8 False) ctxs = Inl NullDeref"
proof -
  have u: "frag_units (frag0 2 8 True) = 2" "frag_units (frag0 512 8 False) = 512" "ours_off (frag0 512 8 False) = 2"
    by (simp_all add: frag0_def frag_units_def ours_off_def net_off_def ip_frag_off_def get16_def put16_def
        IP_OFF_MASK_def bswap16_def lo8_def hi8_def le16_def)
  define c where "c = (new_group (rawBytes (frag0 2 8 True)) 0)\<lparr>fg_first := [frag0 2 8 True]\<rparr>"
  have n: "network_hdr (frag0 2 8 True) = Raw 0" "network_hdr (frag0 512 8 False) = Raw 0"
    by (simp_all add: frag0_def)
  have one: "defrag (frag0 2 8 True) [] = Inr (None, [c])"
    by (simp add: defrag_def n insert_frag_def complete_def u c_def new_group_def Let_def)
  have two: "same_packet (rawBytes (frag0 512 8 False)) 0 c" "fg_first c = [frag0 2 8 True]"
    by (simp_all add: c_def same_packet_def new_group_def)
      (simp_all add: frag0_def ip_field_defs get32_def get16_def put16_def)
  have "defrag (frag0 512 8 False) [c] = Inl NullDeref"
    by (simp add: defrag_def n two insert_frag_def u)
  then show ?thesis using one defrag_groups_ok [OF _ one] by (simp add: groups_ok_def)
qed

theorem defrag_complete_witness:
  "\<exists>ctxs pk ch. defrag (frag0 0 16 True) [] = Inr (None, ctxs) \<and> defrag (frag0 2 8 False) ctxs = Inr (Some pk, []) \<and>
     pk = reassemble ch \<and> mset ch = {#frag0 2 8 False, frag0 0 16 True#} \<and> \<not> more_frags (last ch)"
proof -
  have u: "frag_units (frag0 0 16 True) = 0" "more_frags (frag0 0 16 True)" "frag_len (frag0 0 16 True) = 16"
    "frag_units (frag0 2 8 False) = 2" "ours_off (frag0 2 8 False) = 512" "\<not> more_frags (frag0 2 8 False)"
    by (simp_all add: frag0_def frag_units_def ours_off_def frag_len_def more_frags_def net_off_def
        ip_field_defs get16_def put16_def IP_OFF_MASK_def IP_MF_MASK_def bswap16_def lo8_def hi8_def le16_def)
  have n: "network_hdr (frag0 0 16 True) = Raw 0" "network_hdr (frag0 2 8 False) = Raw 0" by (simp_all add: frag0_def)
  define c where "c = (new_group (rawBytes (frag0 0 16 True)) 0)\<lparr>fg_first := [frag0 0 16 True]\<rparr>"
  have one: "defrag (frag0 0 16 True) [] = Inr (None, [c])"
    by (simp add: defrag_def n insert_frag_def complete_def u c_def new_group_def Let_def)
  have c: "same_packet (rawBytes (frag0 2 8 False)) 0 c" "fg_first c = [frag0 0 16 True]"
    by (simp_all add: c_def same_packet_def new_group_def)
      (simp_all add: frag0_def ip_field_defs get32_def get16_def put16_def)
  have two: "defrag (frag0 2 8 False) [c] = Inr (Some (reassemble [frag0 0 16 True, frag0 2 8 False]), [])"
    by (simp add: defrag_def n c insert_frag_def u complete_def Let_def)
  have "groups_ok [c]" using defrag_groups_ok [OF _ one] by (simp add: groups_ok_def)
  from defrag_complete [OF this two] obtain ch where "reassemble [frag0 0 16 True, frag0 2 8 False] = reassemble ch"
    "mset ch = {#frag0 2 8 False, frag0 0 16 True#}" "\<not> more_frags (last ch)" using n(2) c by auto
  with one two show ?thesis by blast
qed

text \<open>The data of a reassembled packet is not the data that was sent: for every fragment but the
  first the payload begins as many \<^emph>\<open>bytes\<close> into the buffer as the header has words, so the last
  fifteen bytes of a twenty byte header are delivered in front of the data.\<close>

theorem reassembled_payload_has_header:
  assumes "network_hdr fb = Raw 0" and "ip_ihl (rawBytes fb) 0 = 5" and "user_payload_end fb = Raw e"
    and "20 \<le> e" and "e \<le> maxRawBytesSize"
  shows "drain_skbuf_chain [adjust_rest fb] = Inr (hslice (rawBytes fb) 5 20 @ hslice (rawBytes fb) 20 e)"
  using assms hslice_split [of 5 20 e "rawBytes fb"]
  by (simp add: adjust_rest_def net_off_def span_def)

theorem reassembled_payload_has_header_witness:
  "drain_skbuf_chain [adjust_rest (frag0 2 8 False)] =
     Inr (hslice (rawBytes (frag0 2 8 False)) 5 20 @ hslice (rawBytes (frag0 2 8 False)) 20 28)"
  by (rule reassembled_payload_has_header)
    (simp_all add: frag0_def ip_ihl_def put16_def maxRawBytesSize_def)

end
