(* ===== verification/Ip_Rx.thy ===== *)
theory Ip_Rx
  imports Reassembler Ip_Tx
begin

unbundle bit_operations_syntax

section \<open>Receiving (src/veloxd/interface/TunIface.cpp: rx; Interface.cpp; ip/Ip.cpp: enRxQue, rx loop)\<close>

text \<open>
  The way up: the interface thread reads a packet from the TUN device into a fresh buffer and
  queues it unless it is not IPv4; the IP thread takes it, reassembles fragments and passes the
  packet to UDP or TCP. \<open>ip_rx\<close> is one turn of the IP thread's loop, with what it decides
  as its result.
\<close>

subsection \<open>The TUN device and the receive queue\<close>

definition raw_of :: "byte list \<Rightarrow> nat \<Rightarrow> byte" where
  "raw_of bs i = (if i < length bs then bs ! i else 0)"

text \<open>\<open>None\<close> is a failed read, which ends the daemon. The kernel stores at most as many bytes
  as the buffer has.\<close>

definition tun_rx :: "byte list option \<Rightarrow> FrameBuf res" where
  "tun_rx rd = (case rd of None \<Rightarrow> Inl ProcessExit
     | Some bs \<Rightarrow> let data = take maxRawBytesSize bs in
         Inr (FrameBuf_new\<lparr>rawBytes := raw_of data, network_hdr := Raw 0, hdrs_begin := Raw 0,
                user_payload_end := Raw (length data)\<rparr>))"

definition enRxQue :: "FrameBuf \<Rightarrow> FrameBuf list \<Rightarrow> FrameBuf list res" where
  "enRxQue fb q = bindr (hdr_at (network_hdr fb)) (\<lambda>o'.
     if ip_version (rawBytes fb) o' \<noteq> 4 then Inr q else Inr (q @ [fb]))"

text \<open>One turn of the interface thread.\<close>

definition interface_rx :: "byte list option \<Rightarrow> FrameBuf list \<Rightarrow> FrameBuf list res" where
  "interface_rx rd q = bindr (tun_rx rd) (\<lambda>fb. enRxQue fb q)"

subsection \<open>The IP thread\<close>

datatype rx_action = RxDrop | ToUdp chain | ToTcp chain

text \<open>The header the checksum test gets is the one of the packet before (null at first); the
  test does not look at it. After reassembly, header length and protocol are still read from the
  fragment that arrived last.\<close>

definition ip_rx :: "FrameBuf \<Rightarrow> FragGroup list \<Rightarrow> (rx_action \<times> FragGroup list) res" where
  "ip_rx fb ctxs =
     bindr (assertr (hdrs_begin fb \<noteq> Null \<and> user_payload_end fb \<noteq> Null \<and> network_hdr fb \<noteq> Null)) (\<lambda>_.
     bindr (ptr_diff (user_payload_end fb) (hdrs_begin fb)) (\<lambda>n.
     if n < 20 \<or> \<not> checksum_ok None then Inr (RxDrop, ctxs)
     else
       bindr (hdr_at (network_hdr fb)) (\<lambda>o'.
       let r = rawBytes fb in
       bindr (if isFrag r o' then defrag fb ctxs else Inr (Some [fb], ctxs)) (\<lambda>(p, ctxs1).
       case p of
         None \<Rightarrow> Inr (RxDrop, ctxs1)
       | Some pk \<Rightarrow>
           let h = hd pk; h' = h\<lparr>transport_hdr := ptr_add (network_hdr h) (ip_ihl r o' * 4)\<rparr> in
           bindr (protocol r o') (\<lambda>px.
           Inr (case px of P_UDP \<Rightarrow> ToUdp (h' # tl pk) | P_TCP \<Rightarrow> ToTcp (h' # tl pk) | _ \<Rightarrow> RxDrop, ctxs1))))))"

subsection \<open>Lemmas\<close>

lemma hslice_raw_of: "hslice (raw_of bs) a (length bs) = drop a bs"
  by (rule nth_equalityI) (auto simp: hslice_def raw_of_def)

lemma tun_rx_Some: "length bs \<le> maxRawBytesSize \<Longrightarrow> tun_rx (Some bs) =
    Inr (FrameBuf_new\<lparr>rawBytes := raw_of bs, network_hdr := Raw 0, hdrs_begin := Raw 0, user_payload_end := Raw (length bs)\<rparr>)"
  by (simp add: tun_rx_def Let_def)

lemma ip_rx_whole:
  assumes "tun_rx (Some bs) = Inr fb" "length bs \<le> maxRawBytesSize" "20 \<le> length bs" "\<not> isFrag (raw_of bs) 0"
  shows "ip_rx fb ctxs =
    (let fb' = fb\<lparr>transport_hdr := Raw (ip_ihl (raw_of bs) 0 * 4)\<rparr> in
     bindr (protocol (raw_of bs) 0) (\<lambda>px.
     Inr (case px of P_UDP \<Rightarrow> ToUdp [fb'] | P_TCP \<Rightarrow> ToTcp [fb'] | _ \<Rightarrow> RxDrop, ctxs)))"
proof -
  have fb: "fb = FrameBuf_new\<lparr>rawBytes := raw_of bs, network_hdr := Raw 0, hdrs_begin := Raw 0,
      user_payload_end := Raw (length bs)\<rparr>"
    using assms(1) tun_rx_Some [OF assms(2)] by simp
  show ?thesis
    using assms(3,4) by (simp add: fb ip_rx_def checksum_ok_def Let_def cong: ProtocolX.case_cong)
qed

subsection \<open>Properties\<close>

text \<open>(C31) What becomes of an unfragmented packet from the device. The interface thread queues it behind what is queued if it says it is
  version 4, and drops it otherwise. What the IP thread does with a queued one goes by its protocol number:
  17 goes to UDP, 6 to TCP, each with the transport header where the header length says; every
  other number is dropped, except 255, which is looked up past the end of the table. Packets of
  less than 20 bytes are dropped.\<close>

theorem ip_rx_dispatch:
  assumes "length bs \<le> maxRawBytesSize" and "\<not> isFrag (raw_of bs) 0"
  shows "if ip_version (raw_of bs) 0 \<noteq> 4 then interface_rx (Some bs) q = Inr q
    else \<exists>fb. interface_rx (Some bs) q = Inr (q @ [fb]) \<and> rawBytes fb = raw_of bs \<and> user_payload_end fb = Raw (length bs) \<and>
      ip_rx fb ctxs =
        (let p = unat (ip_protocol (raw_of bs) 0); fb' = fb\<lparr>transport_hdr := Raw (ip_ihl (raw_of bs) 0 * 4)\<rparr> in
         if length bs < 20 then Inr (RxDrop, ctxs)
         else if p = 255 then Inl OutOfBounds
         else if p = 17 then Inr (ToUdp [fb'], ctxs)
         else if p = 6 then Inr (ToTcp [fb'], ctxs)
         else Inr (RxDrop, ctxs))"
proof -
  let ?fb = "FrameBuf_new\<lparr>rawBytes := raw_of bs, network_hdr := Raw 0, hdrs_begin := Raw 0,
      user_payload_end := Raw (length bs)\<rparr>"
  have rx: "tun_rx (Some bs) = Inr ?fb" by (rule tun_rx_Some [OF assms(1)])
  then have i: "interface_rx (Some bs) q = (if ip_version (raw_of bs) 0 \<noteq> 4 then Inr q else Inr (q @ [?fb]))"
    by (simp add: interface_rx_def enRxQue_def)
  have "ip_rx ?fb ctxs = (let p = unat (ip_protocol (raw_of bs) 0); fb' = ?fb\<lparr>transport_hdr := Raw (ip_ihl (raw_of bs) 0 * 4)\<rparr> in
     if length bs < 20 then Inr (RxDrop, ctxs) else if p = 255 then Inl OutOfBounds else if p = 17 then Inr (ToUdp [fb'], ctxs)
     else if p = 6 then Inr (ToTcp [fb'], ctxs) else Inr (RxDrop, ctxs))"
  proof (cases "length bs < 20")
    case True
    then show ?thesis by (simp add: ip_rx_def)
  next
    case False
    have "unat (ip_protocol (raw_of bs) 0) < 256" by (rule unat_byte_less)
    then show ?thesis
      using ip_rx_whole [OF rx assms(1) _ assms(2), of ctxs] False
      by (auto simp: protocol_def Let_def)
  qed
  then show ?thesis using i by simp
qed

theorem ip_rx_dispatch_witness:
  "(\<exists>fb. interface_rx (Some (69 # replicate 8 0 @ [255] @ replicate 10 0)) [] = Inr [fb] \<and> ip_rx fb [] = Inl OutOfBounds) \<and>
   interface_rx (Some (96 # replicate 39 0)) [] = Inr []"
proof -
  let ?a = "69 # replicate 8 0 @ [255] @ replicate 10 (0 :: byte)" and ?b = "96 # replicate 39 (0 :: byte)"
  have "\<not> isFrag (raw_of ?a) 0" "unat (ip_protocol (raw_of ?a) 0) = 255" "ip_version (raw_of ?a) 0 = 4"
    "\<not> isFrag (raw_of ?b) 0" "ip_version (raw_of ?b) 0 = 6"
    by (simp_all add: isFrag_def ip_field_defs get16_def raw_of_def nth_append nth_Cons' bswap16_def)
  then show ?thesis
    using ip_rx_dispatch [of ?a "[]" "[]"] ip_rx_dispatch [of ?b "[]" "[]"]
    by (auto simp: maxRawBytesSize_def Let_def)
qed

end
