(* ===== verification/Daemon.thy ===== *)
theory Daemon
  imports Reactor Endpoint_Queue Tcp_Session Udp_Session Ip_Rx
begin

section \<open>The daemon's objects (src/veloxd/arbiter: Arbiter, AgentHub, AgentChannel; tcp/Tcp.cpp, udp/Udp.cpp)\<close>

text \<open>
  The daemon's state extends the network state of \<open>Ip_Tx\<close>. Objects are numbered when they are
  created and kept in stores; a destroyed object is \<open>None\<close>. The owners are as the code has
  them: the arbiter's list owns the channels, a channel owns its endpoint (\<open>socket\<close>), an
  endpoint owns its session (\<open>pcb\<close>), each of them owns its \<open>IoHandle\<close>; all other links
  are weak. So destroying a channel destroys the rest in the order of the destructors.

  A record \<open>denv\<close> holds what the kernel and the protobuf library answer during one turn: what
  is read from the channels, the connections accepted, the request a message parses to (the
  argument is \<open>None\<close> for a negative length), the size and the fate of a written response,
  the read ends of new pipes.
\<close>

datatype handle = HListener | HChannel nat | HSocket nat | HEstab nat

datatype pcb = TcpPcb TcpSession | UdpPcb Session

record AgentChannel =
  ch_peer :: string
  ch_peerPid :: "nat option"
  ch_socket :: "nat option"

record daemon = net +
  stack_addr :: u32
  d_loop :: "handle reactor"
  rrChannels :: "nat list"
  d_chans :: "nat \<Rightarrow> AgentChannel option"
  d_eps :: "nat \<Rightarrow> Endpoint option"
  d_pcbs :: "nat \<Rightarrow> pcb option"
  tcp_pcbs :: "nat list"
  udp_pcbs :: "nat list"
  d_rxQ :: "FrameBuf list"
  d_groups :: "FragGroup list"
  sent_resps :: "(nat \<times> Response) list"
  d_fresh :: nat

text \<open>What \<open>read\<close> on a channel gives: an error (and whether it is EAGAIN), end of file, a
  message.\<close>

datatype rd = RdError bool | RdEof | RdBytes "byte list"

record denv =
  read_msg :: "nat \<Rightarrow> rd"
  accepted :: "int list"
  ParseFromArray :: "byte list option \<Rightarrow> Request"
  byte_size :: "Response \<Rightarrow> nat"
  nwritten :: "Response \<Rightarrow> int"
  so_pipe :: int
  estab_pipe :: int

subsection \<open>Access\<close>

definition on_loop :: "(handle reactor \<Rightarrow> handle reactor res) \<Rightarrow> daemon \<Rightarrow> daemon res" where
  "on_loop f d = bindr (f (d_loop d)) (\<lambda>r. Inr (d\<lparr>d_loop := r\<rparr>))"

definition put_ep :: "nat \<Rightarrow> Endpoint option \<Rightarrow> daemon \<Rightarrow> daemon" where
  "put_ep e v d = d\<lparr>d_eps := (d_eps d)(e := v)\<rparr>"

definition put_pcb :: "nat \<Rightarrow> pcb option \<Rightarrow> daemon \<Rightarrow> daemon" where
  "put_pcb p v d = d\<lparr>d_pcbs := (d_pcbs d)(p := v)\<rparr>"

definition put_chan :: "nat \<Rightarrow> AgentChannel option \<Rightarrow> daemon \<Rightarrow> daemon" where
  "put_chan c v d = d\<lparr>d_chans := (d_chans d)(c := v)\<rparr>"

text \<open>\<open>rrChannel->socket()\<close> and \<open>socket->pcb()\<close>: the pointers are null before \<open>socketCall\<close>.\<close>

definition chan_socket :: "nat \<Rightarrow> daemon \<Rightarrow> (nat \<times> Endpoint) res" where
  "chan_socket c d = bindr (liver (d_chans d c)) (\<lambda>ch. bindr (derefr (ch_socket ch)) (\<lambda>e.
     bindr (liver (d_eps d e)) (\<lambda>ep. Inr (e, ep))))"

definition ep_session :: "Endpoint \<Rightarrow> daemon \<Rightarrow> (nat \<times> pcb) res" where
  "ep_session ep d = bindr (derefr (ep_pcb ep)) (\<lambda>p. bindr (liver (d_pcbs d p)) (\<lambda>s. Inr (p, s)))"

fun pcb_session :: "pcb \<Rightarrow> Session" where
  "pcb_session (TcpPcb s) = Session.truncate s"
| "pcb_session (UdpPcb s) = s"

subsection \<open>Creation\<close>

text \<open>\<open>make_shared<Endpoint>(type, nonblocking)\<close>.\<close>

definition new_endpoint :: "denv \<Rightarrow> ep_type \<Rightarrow> bool \<Rightarrow> daemon \<Rightarrow> (nat \<times> daemon) res" where
  "new_endpoint E t nb d = (let e = d_fresh d; d1 = d\<lparr>d_fresh := d_fresh d + 1\<rparr> in
     bindr (on_loop (\<lambda>r. enableReading (HSocket e) (IoHandle_new (HSocket e) (so_pipe E) r)) d1) (\<lambda>d2.
     Inr (e, put_ep e (Some (Endpoint_new t nb)) d2)))"

text \<open>\<open>Tcp::newSession\<close> and \<open>Udp::newSession\<close>: only weak references are kept.\<close>

definition tcp_newSession :: "denv \<Rightarrow> daemon \<Rightarrow> (nat \<times> daemon) res" where
  "tcp_newSession E d = (let p = d_fresh d; d1 = d\<lparr>d_fresh := d_fresh d + 1\<rparr> in
     bindr (on_loop (\<lambda>r. enableReading (HEstab p) (IoHandle_new (HEstab p) (estab_pipe E) r)) d1) (\<lambda>d2.
     Inr (p, put_pcb p (Some (TcpPcb (TcpSession_new (stack_addr d)))) (d2\<lparr>tcp_pcbs := tcp_pcbs d2 @ [p]\<rparr>))))"

definition udp_newSession :: "daemon \<Rightarrow> nat \<times> daemon" where
  "udp_newSession d = (let p = d_fresh d in
     (p, put_pcb p (Some (UdpPcb (Session_new (stack_addr d))))
           (d\<lparr>d_fresh := d_fresh d + 1, udp_pcbs := udp_pcbs d @ [p]\<rparr>)))"

text \<open>The arbiter's callback for a new connection.\<close>

definition onNewConnection :: "int \<Rightarrow> daemon \<Rightarrow> daemon res" where
  "onNewConnection connfd d = (let c = d_fresh d; d1 = d\<lparr>d_fresh := d_fresh d + 1\<rparr> in
     bindr (on_loop (\<lambda>r. enableReading (HChannel c) (IoHandle_new (HChannel c) connfd r)) d1) (\<lambda>d2.
     let d3 = put_chan c (Some \<lparr>ch_peer = [], ch_peerPid = None, ch_socket = None\<rparr>)
                (d2\<lparr>rrChannels := rrChannels d2 @ [c]\<rparr>)
     in on_loop (add_owned (HChannel c)) d3))"

text \<open>\<open>AgentHub::Impl::onReadReady\<close>: accept until it fails.\<close>

fun hub_onReadReady :: "int list \<Rightarrow> daemon \<Rightarrow> daemon res" where
  "hub_onReadReady [] d = Inr d"
| "hub_onReadReady (connfd # fds) d = bindr (onNewConnection connfd d) (hub_onReadReady fds)"

subsection \<open>Destruction\<close>

definition delete_pcb :: "nat \<Rightarrow> daemon \<Rightarrow> daemon res" where
  "delete_pcb p d = bindr (liver (d_pcbs d p)) (\<lambda>s.
     case s of
       UdpPcb _ \<Rightarrow> Inr (put_pcb p None d)
     | TcpPcb _ \<Rightarrow> bindr (on_loop (IoHandle_delete (HEstab p)) d) (\<lambda>d1. Inr (put_pcb p None d1)))"

definition delete_endpoint :: "nat \<Rightarrow> daemon \<Rightarrow> daemon res" where
  "delete_endpoint e d = bindr (liver (d_eps d e)) (\<lambda>ep.
     bindr (case ep_pcb ep of None \<Rightarrow> Inr d | Some p \<Rightarrow> delete_pcb p d) (\<lambda>d1.
     bindr (on_loop (IoHandle_delete (HSocket e)) d1) (\<lambda>d2. Inr (put_ep e None d2))))"

definition delete_channel :: "nat \<Rightarrow> daemon \<Rightarrow> daemon res" where
  "delete_channel c d = bindr (liver (d_chans d c)) (\<lambda>ch.
     bindr (on_loop (unregisterSelf (HChannel c)) d) (\<lambda>d1.
     bindr (case ch_socket ch of None \<Rightarrow> Inr d1 | Some e \<Rightarrow> delete_endpoint e d1) (\<lambda>d2.
     bindr (on_loop (IoHandle_delete (HChannel c)) d2) (\<lambda>d3. Inr (put_chan c None d3)))))"

text \<open>\<open>Arbiter::removeRRChannel\<close>. The callers hold the channel until they return, and do
  nothing more with it; then the last reference is gone.\<close>

definition removeRRChannel :: "nat \<Rightarrow> daemon \<Rightarrow> daemon res" where
  "removeRRChannel c d =
     (if List.member (rrChannels d) c then delete_channel c (d\<lparr>rrChannels := removeAll c (rrChannels d)\<rparr>) else Inr d)"

text \<open>\<open>AgentChannel::setSocket\<close>: an endpoint the channel had before is destroyed.\<close>

definition setSocket :: "nat \<Rightarrow> nat \<Rightarrow> daemon \<Rightarrow> daemon res" where
  "setSocket c e d = bindr (liver (d_chans d c)) (\<lambda>ch.
     let d1 = put_chan c (Some (ch\<lparr>ch_socket := Some e\<rparr>)) d
     in case ch_socket ch of None \<Rightarrow> Inr d1 | Some old \<Rightarrow> delete_endpoint old d1)"

subsection \<open>Writing a response (AgentChannel::write)\<close>

definition chan_write :: "denv \<Rightarrow> nat \<Rightarrow> Response \<Rightarrow> daemon \<Rightarrow> daemon res" where
  "chan_write E c resp d =
     bindr (liver (d_chans d c)) (\<lambda>_.
     bindr (assertr (IsInitialized resp)) (\<lambda>_.
     bindr (assertr (byte_size E resp \<le> RPC_MESSAGE_MAX_SIZE)) (\<lambda>_.
     if nwritten E resp = -1 then on_loop (unregisterSelf (HChannel c)) d
     else Inr (d\<lparr>sent_resps := sent_resps d @ [(c, resp)]\<rparr>))))"

subsection \<open>Packets arriving (Tcp::rx, Udp::rx)\<close>

text \<open>The callback \<open>connectCall\<close> registers; it is called on the IP thread.\<close>

definition connect_answer :: Response where
  "connect_answer = \<lparr>retcode = Some RC_OK, returning = RetConnect \<lparr>ret = 0, errno' = None\<rparr>\<rparr>"

definition conn_established :: "denv \<Rightarrow> nat \<Rightarrow> daemon \<Rightarrow> daemon res" where
  "conn_established E c d =
     (case d_chans d c of
        None \<Rightarrow> Inr d
      | Some _ \<Rightarrow>
          bindr (chan_socket c d) (\<lambda>(_, ep).
          bindr (ep_session ep d) (\<lambda>(p, s).
          case s of
            UdpPcb _ \<Rightarrow> Inl NullDeref
          | TcpPcb _ \<Rightarrow> bindr (on_loop (unregisterSelf (HEstab p)) d) (chan_write E c connect_answer))))"

text \<open>\<open>this->socket().lock()->putToRecvQ(...)\<close>.\<close>

definition put_to_socket :: "nat option \<Rightarrow> packet \<Rightarrow> daemon \<Rightarrow> daemon res" where
  "put_to_socket so pk d = bindr (derefr (Option.bind so (d_eps d))) (\<lambda>ep.
     Inr (put_ep (the so) (Some (putToRecvQ pk ep)) d))"

definition demux :: "(nat \<Rightarrow> pcb option) \<Rightarrow> nat list \<Rightarrow> (nat \<Rightarrow> byte) \<Rightarrow> nat \<Rightarrow> nat \<Rightarrow> nat option" where
  "demux pcbs ids r o' t = find_session (\<lambda>i. map_option pcb_session (pcbs i)) ids
     (ip_saddr r o') (get16 r t) (ip_daddr r o') (get16 r (t + 2))"

definition tcp_rx :: "denv \<Rightarrow> chain \<Rightarrow> daemon \<Rightarrow> daemon res" where
  "tcp_rx E fbs d = (let h = hd fbs; r = rawBytes h in
     bindr (hdr_at (network_hdr h)) (\<lambda>o'. bindr (hdr_at (transport_hdr h)) (\<lambda>t.
     case demux (d_pcbs d) (tcp_pcbs d) r o' t of
       None \<Rightarrow> Inr d
     | Some p \<Rightarrow>
         (case d_pcbs d p of
            Some (TcpPcb s) \<Rightarrow>
              bindr (tcp_recv (\<lambda>fb. put_to_socket (socket_of s) (None, fb # tl fbs)) (conn_established E) h s d)
                (\<lambda>(s', d'). Inr (put_pcb p (Some (TcpPcb s')) d'))
          | _ \<Rightarrow> Inr d))))"

definition peer_sockaddr :: "(nat \<Rightarrow> byte) \<Rightarrow> nat \<Rightarrow> nat \<Rightarrow> sockaddr_in" where
  "peer_sockaddr r o' t = \<lparr>sin_family = 2, sin_port = get16 r t, sin_addr = ip_saddr r o', sin_zero = replicate 8 0\<rparr>"

definition udp_rx :: "chain \<Rightarrow> daemon \<Rightarrow> daemon res" where
  "udp_rx fbs d = (let h = hd fbs; r = rawBytes h in
     bindr (hdr_at (network_hdr h)) (\<lambda>o'. bindr (hdr_at (transport_hdr h)) (\<lambda>t.
     case demux (d_pcbs d) (udp_pcbs d) r o' t of
       None \<Rightarrow> Inr d
     | Some p \<Rightarrow>
         (case d_pcbs d p of
            Some (UdpPcb s) \<Rightarrow>
              udp_recv (\<lambda>fb. put_to_socket (socket_of s) (Some (peer_sockaddr r o' t), fb # tl fbs)) h d
          | _ \<Rightarrow> Inr d))))"

text \<open>One turn of the interface thread and one of the IP thread.\<close>

definition interface_turn :: "byte list option \<Rightarrow> daemon \<Rightarrow> daemon res" where
  "interface_turn rd d = bindr (interface_rx rd (d_rxQ d)) (\<lambda>q. Inr (d\<lparr>d_rxQ := q\<rparr>))"

definition ip_turn :: "denv \<Rightarrow> daemon \<Rightarrow> daemon res" where
  "ip_turn E d =
     (case d_rxQ d of
        [] \<Rightarrow> Inl WouldBlock
      | fb # q \<Rightarrow>
          bindr (ip_rx fb (d_groups d)) (\<lambda>(act, g).
          let d1 = d\<lparr>d_rxQ := q, d_groups := g\<rparr> in
          (case act of RxDrop \<Rightarrow> Inr d1 | ToUdp fbs \<Rightarrow> udp_rx fbs d1 | ToTcp fbs \<Rightarrow> tcp_rx E fbs d1)))"

end
