(* ===== verification/Rpc_Dispatch.thy ===== *)
theory Rpc_Dispatch
  imports Daemon
begin

unbundle bit_operations_syntax

section \<open>Serving requests (src/veloxd/arbiter/RpcDispatch.cpp, agent/AgentChannel.cpp)\<close>

text \<open>
  One definition per call of \<open>RpcDispatch\<close>; each gets the response under construction and
  returns it. What a call leaves out stays unset: \<open>retcode = None\<close>. The second half is the
  channel: reading a request, dispatching it, writing the response, and the callbacks of the
  event loop.
\<close>

definition EAGAIN :: int where "EAGAIN = 11"
definition EINPROGRESS :: int where "EINPROGRESS = 115"
definition SOCK_STREAM_BIT :: int where "SOCK_STREAM_BIT = 1"
definition SOCK_DGRAM_BIT :: int where "SOCK_DGRAM_BIT = 2"
definition SOCK_NONBLOCK :: int where "SOCK_NONBLOCK = 2048"

definition plain_ret :: "int \<Rightarrow> call_ret" where
  "plain_ret n = \<lparr>ret = n, errno' = None\<rparr>"

definition answer_ok :: "returning \<Rightarrow> Response \<Rightarrow> Response" where
  "answer_ok v resp = resp\<lparr>retcode := Some RC_OK, returning := v\<rparr>"

subsection \<open>Sessions through their virtual functions\<close>

fun pcb_connect :: "u32 \<Rightarrow> u16 \<Rightarrow> pcb \<Rightarrow> daemon \<Rightarrow> (int \<times> pcb \<times> daemon) res" where
  "pcb_connect fa fp (TcpPcb s) d = bindr (tcp_connect fa fp s d) (\<lambda>(n, s', d'). Inr (n, TcpPcb s', d'))"
| "pcb_connect fa fp (UdpPcb s) d = (case udp_connect fa fp s d of (n, s', d') \<Rightarrow> Inr (n, UdpPcb s', d'))"

fun pcb_send :: "byte list \<Rightarrow> pcb \<Rightarrow> daemon \<Rightarrow> (int \<times> pcb \<times> daemon) res" where
  "pcb_send buf (TcpPcb s) d = bindr (tcp_send buf s d) (\<lambda>(n, s', d'). Inr (n, TcpPcb s', d'))"
| "pcb_send buf (UdpPcb s) d = bindr (udp_send buf s d) (\<lambda>(n, s', d'). Inr (n, UdpPcb s', d'))"

fun pcb_send_to :: "u32 \<Rightarrow> u16 \<Rightarrow> byte list \<Rightarrow> pcb \<Rightarrow> daemon \<Rightarrow> (int \<times> pcb \<times> daemon) res" where
  "pcb_send_to fa fp buf (TcpPcb s) d =
     (case session_send_to fa fp s (tcp_port d) of (n, s', p) \<Rightarrow> Inr (n, TcpPcb s', d\<lparr>tcp_port := p\<rparr>))"
| "pcb_send_to fa fp buf (UdpPcb s) d = bindr (udp_send_to fa fp buf s d) (\<lambda>(n, s', d'). Inr (n, UdpPcb s', d'))"

fun pcb_setSocket :: "nat \<Rightarrow> pcb \<Rightarrow> pcb" where
  "pcb_setSocket e (TcpPcb s) = TcpPcb (s\<lparr>socket_of := Some e\<rparr>)"
| "pcb_setSocket e (UdpPcb s) = UdpPcb (s\<lparr>socket_of := Some e\<rparr>)"

fun pcb_setOnConnEstabCB :: "nat \<Rightarrow> pcb \<Rightarrow> pcb" where
  "pcb_setOnConnEstabCB c (TcpPcb s) = TcpPcb (s\<lparr>onConnEstabCB := Some c\<rparr>)"
| "pcb_setOnConnEstabCB c (UdpPcb s) = UdpPcb s"

text \<open>\<open>getConnEstabNotifyChannel\<close>: null for UDP.\<close>

fun pcb_estab_handle :: "nat \<Rightarrow> pcb \<Rightarrow> handle option" where
  "pcb_estab_handle p (TcpPcb s) = Some (HEstab p)"
| "pcb_estab_handle p (UdpPcb s) = None"

text \<open>\<open>memcpy\<close> of a \<open>sockaddr_in\<close> out of \<open>c_str()\<close>, which ends in a null byte.\<close>

definition sockaddr_of_c_str :: "byte list \<Rightarrow> sockaddr_in res" where
  "sockaddr_of_c_str bs = sockaddr_of_bytes (bs @ [0])"

subsection \<open>The calls\<close>

text \<open>Step 1 of \<open>socketCall\<close>: the endpoint and its session.\<close>

definition create_pair :: "denv \<Rightarrow> bool \<Rightarrow> bool \<Rightarrow> daemon \<Rightarrow> (nat \<times> nat \<times> daemon) res" where
  "create_pair E stream nonblocking d =
     (if stream
      then bindr (new_endpoint E EP_TCP nonblocking d) (\<lambda>(e, d1).
           bindr (tcp_newSession E d1) (\<lambda>(p, d2). Inr (e, p, d2)))
      else bindr (new_endpoint E EP_UDP nonblocking d) (\<lambda>(e, d1).
           case udp_newSession d1 of (p, d2) \<Rightarrow> Inr (e, p, d2)))"

definition socketCall :: "denv \<Rightarrow> nat \<Rightarrow> int \<Rightarrow> int \<Rightarrow> Response \<Rightarrow> daemon \<Rightarrow> (Response \<times> daemon) res" where
  "socketCall E c domain type resp d =
     bindr (assertr (domain = AF_INET)) (\<lambda>_.
     bindr (assertr (type AND SOCK_STREAM_BIT \<noteq> 0 \<or> type AND SOCK_DGRAM_BIT \<noteq> 0)) (\<lambda>_.
     bindr (create_pair E (type AND SOCK_STREAM_BIT \<noteq> 0) (type AND SOCK_NONBLOCK \<noteq> 0) d) (\<lambda>(e, p, d2).
     bindr (liver (d_pcbs d2 p)) (\<lambda>s. bindr (liver (d_eps d2 e)) (\<lambda>ep.
     let s1 = pcb_setSocket e s;
         d3 = put_ep e (Some (setAgentChannel c (setSession p ep))) (put_pcb p (Some s1) d2)
     in bindr (setSocket c e d3) (\<lambda>d4.
        bindr (on_loop (add_owned (HSocket e)) d4) (\<lambda>d5.
        bindr (case pcb_estab_handle p s1 of None \<Rightarrow> Inr d5 | Some h \<Rightarrow> on_loop (add_owned h) d5) (\<lambda>d6.
        Inr (answer_ok (RetSocket (plain_ret 0)) resp, d6)))))))))"

definition connectCall :: "denv \<Rightarrow> nat \<Rightarrow> byte list \<Rightarrow> Response \<Rightarrow> daemon \<Rightarrow> (Response \<times> daemon) res" where
  "connectCall E c addr resp d =
     bindr (sockaddr_of_c_str addr) (\<lambda>dest.
     bindr (chan_socket c d) (\<lambda>(e, ep).
     if ep_type ep = EP_UDP then
       bindr (ep_session ep d) (\<lambda>(p, s).
       bindr (pcb_connect (sin_addr dest) (sin_port dest) s d) (\<lambda>(n, s', d1).
       Inr (resp\<lparr>returning := RetConnect (if n = 0 then plain_ret 0 else \<lparr>ret = -1, errno' = Some n\<rparr>)\<rparr>,
            put_pcb p (Some s') d1)))
     else if ep_nonblocking ep then
       Inr (answer_ok (RetRecvfrom \<lparr>ret = EINPROGRESS, errno' = None, buf' = None, addr' = None\<rparr>) resp, d)
     else
       bindr (ep_session ep d) (\<lambda>(p, s).
       bindr (pcb_connect (sin_addr dest) (sin_port dest) (pcb_setOnConnEstabCB c s) d) (\<lambda>(_, s', d1).
       Inr (resp\<lparr>retcode := Some RC_WAIT_NEXT\<rparr>, put_pcb p (Some s') d1)))))"

definition closeCall :: "Response \<Rightarrow> Response" where
  "closeCall resp = answer_ok (RetClose (plain_ret 0)) resp"

definition sendtoCall :: "nat \<Rightarrow> byte list \<Rightarrow> byte list option \<Rightarrow> Response \<Rightarrow> daemon \<Rightarrow> (Response \<times> daemon) res" where
  "sendtoCall c buf addr resp d =
     bindr (chan_socket c d) (\<lambda>(e, ep).
     bindr (ep_session ep d) (\<lambda>(p, s).
     bindr (case ep_type ep of
              EP_UDP \<Rightarrow>
                (case addr of
                   Some a \<Rightarrow> bindr (sockaddr_of_c_str a) (\<lambda>dest. pcb_send_to (sin_addr dest) (sin_port dest) buf s d)
                 | None \<Rightarrow> pcb_send buf s d)
            | EP_TCP \<Rightarrow> pcb_send buf s d) (\<lambda>(n, s', d1).
     Inr (answer_ok (RetSendto (plain_ret n)) resp, put_pcb p (Some s') d1))))"

text \<open>The answer with a packet; an address nobody has set is read when the caller wants one.\<close>

definition recv_answer :: "bool \<Rightarrow> packet \<Rightarrow> Response \<Rightarrow> Response res" where
  "recv_answer require_addr pk resp =
     bindr (drain_skbuf_chain (snd pk)) (\<lambda>buf.
     bindr (if require_addr then bindr (initr (fst pk)) (\<lambda>a. Inr (Some (sockaddr_bytes a))) else Inr None) (\<lambda>addr.
     Inr (answer_ok (RetRecvfrom \<lparr>ret = int (length buf), errno' = None, buf' = Some buf, addr' = addr\<rparr>) resp)))"

definition recvfromCall :: "nat \<Rightarrow> bool \<Rightarrow> Response \<Rightarrow> daemon \<Rightarrow> (Response \<times> daemon) res" where
  "recvfromCall c require_addr resp d =
     bindr (chan_socket c d) (\<lambda>(e, ep).
     case try_takeFromRecvQ ep of
       (Some pk, ep1) \<Rightarrow> bindr (recv_answer require_addr pk resp) (\<lambda>resp1. Inr (resp1, put_ep e (Some ep1) d))
     | (None, ep1) \<Rightarrow>
         if ep_nonblocking ep
         then Inr (answer_ok (RetRecvfrom \<lparr>ret = EAGAIN, errno' = None, buf' = None, addr' = None\<rparr>) resp, d)
         else
           let cb = (case ep_type ep of EP_UDP \<Rightarrow> OnAsyncNewUdpPacket c require_addr | EP_TCP \<Rightarrow> OnAsyncNewTcpPacket c)
           in Inr (resp\<lparr>retcode := Some RC_WAIT_NEXT\<rparr>,
                   put_ep e (Some (setWaiting True (setOnAsyncNewPacketCB cb ep1))) d))"

definition name_of :: "u32 \<Rightarrow> u16 \<Rightarrow> name_ret" where
  "name_of a p = \<lparr>ret = 0, errno' = None,
     name' = Some (sockaddr_bytes \<lparr>sin_family = 2, sin_port = p, sin_addr = a, sin_zero = replicate 8 0\<rparr>)\<rparr>"

definition getpeernameCall :: "nat \<Rightarrow> Response \<Rightarrow> daemon \<Rightarrow> Response res" where
  "getpeernameCall c resp d = bindr (chan_socket c d) (\<lambda>(e, ep). bindr (ep_session ep d) (\<lambda>(p, s).
     Inr (answer_ok (RetGetpeername (name_of (faddr (pcb_session s)) (fport (pcb_session s)))) resp)))"

definition getsocknameCall :: "nat \<Rightarrow> Response \<Rightarrow> daemon \<Rightarrow> Response res" where
  "getsocknameCall c resp d = bindr (chan_socket c d) (\<lambda>(e, ep). bindr (ep_session ep d) (\<lambda>(p, s).
     Inr (answer_ok (RetGetsockname (name_of (laddr (pcb_session s)) (lport (pcb_session s)))) resp)))"

definition getsockoptCall :: "Response \<Rightarrow> Response" where
  "getsockoptCall resp = answer_ok (RetGetsockopt (plain_ret 0)) resp"

definition setsockoptCall :: "Response \<Rightarrow> Response" where
  "setsockoptCall resp = resp"

definition fcntlCall :: "Response \<Rightarrow> Response" where
  "fcntlCall resp = answer_ok (RetFcntl (plain_ret 0)) resp"

definition atstartAction :: "nat \<Rightarrow> nat \<Rightarrow> string \<Rightarrow> Response \<Rightarrow> daemon \<Rightarrow> (Response \<times> daemon) res" where
  "atstartAction c pid progname resp d = bindr (liver (d_chans d c)) (\<lambda>ch.
     Inr (answer_ok (RetAtstart 4096 (Some 1024)) resp,
          put_chan c (Some (ch\<lparr>ch_peer := progname, ch_peerPid := Some pid\<rparr>)) d))"

definition handleRequest :: "denv \<Rightarrow> nat \<Rightarrow> Request \<Rightarrow> daemon \<Rightarrow> (Response \<times> daemon) res" where
  "handleRequest E c req d =
     (let resp = Response_new in
      case req_calling req of
        CallSocket domain type proto \<Rightarrow> socketCall E c domain type resp d
      | CallConnect addr \<Rightarrow> connectCall E c addr resp d
      | CallClose \<Rightarrow> Inr (closeCall resp, d)
      | CallRecvfrom len flags requireAddr \<Rightarrow> recvfromCall c requireAddr resp d
      | CallSendto buf flags addr \<Rightarrow> sendtoCall c buf addr resp d
      | CallPoll \<Rightarrow> Inr (resp, d)
      | CallSelect \<Rightarrow> Inr (resp, d)
      | CallGetpeername \<Rightarrow> bindr (getpeernameCall c resp d) (\<lambda>resp1. Inr (resp1, d))
      | CallGetsockname \<Rightarrow> bindr (getsocknameCall c resp d) (\<lambda>resp1. Inr (resp1, d))
      | CallGetsockopt \<Rightarrow> Inr (getsockoptCall resp, d)
      | CallSetsockopt \<Rightarrow> Inr (setsockoptCall resp, d)
      | CallFcntl \<Rightarrow> Inr (fcntlCall resp, d)
      | ActionAtstart progname \<Rightarrow> atstartAction c (req_pid req) progname resp d
      | CallingNotSet \<Rightarrow> Inr (resp, d))"

subsection \<open>The channel and the callbacks of the event loop\<close>

definition onReadReady :: "denv \<Rightarrow> nat \<Rightarrow> daemon \<Rightarrow> daemon res" where
  "onReadReady E c d =
     bindr (liver (d_chans d c)) (\<lambda>_.
     let serve = (\<lambda>bs. bindr (handleRequest E c (ParseFromArray E bs) d) (\<lambda>(resp, d1). chan_write E c resp d1))
     in case read_msg E c of
          RdError eagain \<Rightarrow> if eagain then Inr d else serve None
        | RdEof \<Rightarrow> removeRRChannel c d
        | RdBytes bs \<Rightarrow> serve (Some bs))"

definition onPeerWritingClose :: "nat \<Rightarrow> daemon \<Rightarrow> daemon res" where
  "onPeerWritingClose c d = removeRRChannel c d"

definition deliver :: "denv \<Rightarrow> nat \<Rightarrow> bool \<Rightarrow> daemon \<Rightarrow> daemon res" where
  "deliver E c require_addr d =
     bindr (chan_socket c d) (\<lambda>(e, ep).
     bindr (takeFromRecvQ ep) (\<lambda>(pk, ep1).
     bindr (recv_answer require_addr pk Response_new) (\<lambda>resp.
     chan_write E c resp (put_ep e (Some ep1) d))))"

definition onAsyncNewUdpPacket :: "denv \<Rightarrow> nat \<Rightarrow> bool \<Rightarrow> daemon \<Rightarrow> daemon res" where
  "onAsyncNewUdpPacket E c require_addr d = (if d_chans d c = None then Inr d else deliver E c require_addr d)"

definition onAsyncNewTcpPacket :: "denv \<Rightarrow> nat \<Rightarrow> daemon \<Rightarrow> daemon res" where
  "onAsyncNewTcpPacket E c d = (if d_chans d c = None then Inr d else deliver E c False d)"

definition sChannelReadCb :: "denv \<Rightarrow> nat \<Rightarrow> daemon \<Rightarrow> daemon res" where
  "sChannelReadCb E e d =
     bindr (liver (d_eps d e)) (\<lambda>ep.
     let ep0 = drain_pipe ep; d0 = put_ep e (Some ep0) d in
     if \<not> ep_waiting ep0 then Inr d0
     else
       bindr (case calls_back ep0 of
                None \<Rightarrow> Inr d0
              | Some (OnAsyncNewUdpPacket c ra) \<Rightarrow> onAsyncNewUdpPacket E c ra d0
              | Some (OnAsyncNewTcpPacket c) \<Rightarrow> onAsyncNewTcpPacket E c d0) (\<lambda>d1.
       bindr (liver (d_eps d1 e)) (\<lambda>ep1. Inr (put_ep e (Some (setWaiting False ep1)) d1))))"

definition estabReadCb :: "denv \<Rightarrow> nat \<Rightarrow> daemon \<Rightarrow> daemon res" where
  "estabReadCb E p d = bindr (liver (d_pcbs d p)) (\<lambda>s.
     case s of
       TcpPcb t \<Rightarrow> (case onConnEstabCB t of None \<Rightarrow> Inr d | Some c \<Rightarrow> conn_established E c d)
     | UdpPcb _ \<Rightarrow> Inr d)"

fun daemon_cb :: "denv \<Rightarrow> handle \<Rightarrow> callback \<Rightarrow> (daemon \<Rightarrow> daemon res) option" where
  "daemon_cb E HListener OnRead = Some (hub_onReadReady (accepted E))"
| "daemon_cb E (HChannel c) OnRead = Some (onReadReady E c)"
| "daemon_cb E (HChannel c) OnClose = Some (onPeerWritingClose c)"
| "daemon_cb E (HSocket e) OnRead = Some (sChannelReadCb E e)"
| "daemon_cb E (HEstab p) OnRead = Some (estabReadCb E p)"
| "daemon_cb E _ _ = None"

definition set_loop :: "handle reactor \<Rightarrow> daemon \<Rightarrow> daemon" where
  "set_loop r d = d\<lparr>d_loop := r\<rparr>"

text \<open>One turn of the event loop thread.\<close>

definition reactor_turn :: "denv \<Rightarrow> (handle \<times> u32) list option \<Rightarrow> daemon \<Rightarrow> daemon res" where
  "reactor_turn E polled d = loop_turn d_loop set_loop (daemon_cb E) polled d"

text \<open>\<open>Arbiter::init\<close>: the listener is the first handle of the loop. The daemon starts with
  the counters of the sources.\<close>

definition daemon_start :: "u32 \<Rightarrow> int \<Rightarrow> daemon res" where
  "daemon_start addr listenfd =
     bindr (enableReading HListener (IoHandle_new HListener listenfd EventReactor_new)) (\<lambda>r0.
     bindr (add_owned HListener r0) (\<lambda>r.
     Inr \<lparr>ip_last = 0, tcp_port = 1024, udp_port = 1024, wire = [], stack_addr = addr, d_loop = r, rrChannels = [],
       d_chans = (\<lambda>_. None), d_eps = (\<lambda>_. None), d_pcbs = (\<lambda>_. None), tcp_pcbs = [], udp_pcbs = [],
       d_rxQ = [], d_groups = [], sent_resps = [], d_fresh = 0\<rparr>))"

end
