(* ===== verification/Daemon_Inv.thy ===== *)
theory Daemon_Inv
  imports Rpc_Dispatch Tcp_Protocol
begin

unbundle bit_operations_syntax

section \<open>Ownership in the daemon\<close>

text \<open>
  The invariant of the daemon's objects: every live channel, endpoint and session is linked to its
  owner and its owner to it, the handles that live are exactly those of live objects, the event
  loop holds no pointer to a destroyed one, and the receive queues stay within their bound. It is
  kept by every callback of the event loop and every packet of the IP thread that returns.
\<close>

subsection \<open>What sending leaves alone\<close>

lemma interface_tx_frame: "interface_tx fbs buf st = Inr st' \<Longrightarrow> net.more st' = net.more st"
  by (auto simp: interface_tx_def tun_tx_def bindr_eq_Inr)

lemma ip_tx_frame:
  assumes "ip_tx fb buf st = Inr st'"
  shows "net.more st' = net.more st"
proof -
  obtain i l where "ip_id_next (ip_last st) = (i, l)" by fastforce
  then show ?thesis using assms by (auto simp: ip_tx_def Let_def bindr_eq_Inr dest: interface_tx_frame)
qed

lemma session_bind_links: "session_bind s p = (s', p') \<Longrightarrow> socket_of s' = socket_of s \<and> Session.more s' = Session.more s"
  by (auto simp: session_bind_def nextAvailPort_def split: if_splits)

lemma session_links:
  "session_send s p = (r, s', p') \<Longrightarrow> socket_of s' = socket_of s \<and> Session.more s' = Session.more s"
  "session_send_to fa fp s p = (r, s', p') \<Longrightarrow> socket_of s' = socket_of s \<and> Session.more s' = Session.more s"
  "session_connect fa fp s p = (s', p') \<Longrightarrow> socket_of s' = socket_of s \<and> Session.more s' = Session.more s"
  by (auto simp: session_send_def session_send_to_def session_connect_def Let_def
      split: if_splits prod.splits dest: session_bind_links)

lemma session_more_cb: "Session.more (s' :: TcpSession) = Session.more s \<Longrightarrow> onConnEstabCB s' = onConnEstabCB s"
  by (cases s, cases s') simp

lemma tcp_send_links:
  assumes "tcp_send buf s st = Inr (n, s', st')"
  shows "net.more st' = net.more st \<and> socket_of s' = socket_of s \<and> onConnEstabCB s' = onConnEstabCB s"
proof -
  obtain r s1 p1 where ss: "session_send s (tcp_port st) = (r, s1, p1)" by (metis prod.exhaust)
  have "socket_of s1 = socket_of s \<and> onConnEstabCB s1 = onConnEstabCB s"
    using session_links(1) [OF ss] session_more_cb [of s1 s] by simp
  moreover have "net.more st' = net.more st \<and> socket_of s' = socket_of s1 \<and> onConnEstabCB s' = onConnEstabCB s1"
    using assms ss by (auto simp: tcp_send_def Let_def bindr_eq_Inr split: TcpState.splits dest!: ip_tx_frame)
  ultimately show ?thesis by simp
qed

lemma tcp_connect_links:
  assumes "tcp_connect fa fp s st = Inr (n, s', st')"
  shows "net.more st' = net.more st \<and> socket_of s' = socket_of s \<and> onConnEstabCB s' = onConnEstabCB s"
proof -
  obtain s1 p1 r1 where c: "session_connect fa fp s (tcp_port st) = (s1, p1)"
    and sd: "tcp_send [] s1 (st\<lparr>tcp_port := p1\<rparr>) = Inr (r1, s', st')"
    using assms by (auto simp: tcp_connect_def bindr_eq_Inr split: prod.splits)
  show ?thesis using session_links(3) [OF c] session_more_cb [of s1 s] tcp_send_links [OF sd] by simp
qed

lemma udp_send_links:
  "udp_send buf s st = Inr (n, s', st') \<Longrightarrow> net.more st' = net.more st \<and> socket_of s' = socket_of s"
  by (auto simp: udp_send_def Let_def bindr_eq_Inr split: prod.splits dest!: ip_tx_frame session_links)

lemma udp_connect_links:
  "udp_connect fa fp s st = (n, s', st') \<Longrightarrow> net.more st' = net.more st \<and> socket_of s' = socket_of s"
  by (auto simp: udp_connect_def split: prod.splits dest!: session_links)

lemma udp_send_to_links:
  "udp_send_to fa fp buf s st = Inr (n, s', st') \<Longrightarrow> net.more st' = net.more st \<and> socket_of s' = socket_of s"
  by (auto simp: udp_send_to_def bindr_eq_Inr session_disconnect_def split: prod.splits
      dest!: udp_send_links udp_connect_links session_links)

fun pcb_cb :: "pcb \<Rightarrow> nat option" where
  "pcb_cb (TcpPcb s) = onConnEstabCB s"
| "pcb_cb (UdpPcb s) = None"

fun pcb_type :: "pcb \<Rightarrow> ep_type" where
  "pcb_type (TcpPcb s) = EP_TCP"
| "pcb_type (UdpPcb s) = EP_UDP"

fun pcb_ok :: "pcb \<Rightarrow> bool" where
  "pcb_ok (TcpPcb s) = tcp_wf s"
| "pcb_ok (UdpPcb s) = True"

definition pcb_so :: "pcb \<Rightarrow> nat option" where
  "pcb_so s = socket_of (pcb_session s)"

lemma pcb_so_simps [simp]: "pcb_so (TcpPcb s) = socket_of s" "pcb_so (UdpPcb u) = socket_of u"
  by (simp_all add: pcb_so_def Session.truncate_def)

definition same_pcb :: "pcb \<Rightarrow> pcb \<Rightarrow> bool" where
  "same_pcb s s' \<longleftrightarrow> pcb_so s' = pcb_so s \<and> pcb_type s' = pcb_type s \<and> pcb_cb s' = pcb_cb s \<and> (pcb_ok s \<longrightarrow> pcb_ok s')"

lemma pcb_op_links:
  "pcb_connect fa fp s d = Inr (n, s', d') \<Longrightarrow> net.more d' = net.more d \<and> same_pcb s s'"
  "pcb_send buf s d = Inr (n, s', d') \<Longrightarrow> net.more d' = net.more d \<and> same_pcb s s'"
  "pcb_send_to fa fp buf s d = Inr (n, s', d') \<Longrightarrow> net.more d' = net.more d \<and> same_pcb s s'"
proof -
  show "net.more d' = net.more d \<and> same_pcb s s'" if "pcb_connect fa fp s d = Inr (n, s', d')"
    using that by (cases s) (auto simp: bindr_eq_Inr same_pcb_def split: prod.splits
        dest: tcp_connect_links tcp_connect_state udp_connect_links)
  show "net.more d' = net.more d \<and> same_pcb s s'" if "pcb_send buf s d = Inr (n, s', d')"
    using that by (cases s) (auto simp: bindr_eq_Inr same_pcb_def dest: tcp_send_links tcp_send_state udp_send_links)
  show "net.more d' = net.more d \<and> same_pcb s s'" if a: "pcb_send_to fa fp buf s d = Inr (n, s', d')"
  proof (cases s)
    case (TcpPcb t)
    then obtain r t' p where e: "session_send_to fa fp t (tcp_port d) = (r, t', p)" "s' = TcpPcb t'" "d' = d\<lparr>tcp_port := p\<rparr>"
      using a by (auto split: prod.splits)
    have "Session.more t' = Session.more t" using session_links(2) [OF e(1)] by simp
    then have "tcp_wf t' = tcp_wf t" by (cases t, cases t') (simp add: tcp_wf_def)
    then show ?thesis using TcpPcb e session_links(2) [OF e(1)] session_more_cb [of t' t] by (simp add: same_pcb_def)
  next
    case (UdpPcb u)
    then show ?thesis using a by (auto simp: bindr_eq_Inr same_pcb_def dest: udp_send_to_links)
  qed
qed

subsection \<open>The invariant\<close>

fun live :: "daemon \<Rightarrow> handle \<Rightarrow> bool" where
  "live d HListener \<longleftrightarrow> True"
| "live d (HChannel c) \<longleftrightarrow> d_chans d c \<noteq> None"
| "live d (HSocket e) \<longleftrightarrow> d_eps d e \<noteq> None"
| "live d (HEstab p) \<longleftrightarrow> (\<exists>s. d_pcbs d p = Some (TcpPcb s))"

text \<open>Handles, numbers, and the links between endpoints and sessions.\<close>

definition handles_wf :: "daemon \<Rightarrow> bool" where
  "handles_wf d \<longleftrightarrow> reactor_wf (d_loop d) \<and> (\<forall>h. io_handles (d_loop d) h \<noteq> None \<longleftrightarrow> live d h)"

definition fresh_wf :: "daemon \<Rightarrow> bool" where
  "fresh_wf d \<longleftrightarrow> (\<forall>n. d_fresh d \<le> n \<longrightarrow> d_chans d n = None \<and> d_eps d n = None \<and> d_pcbs d n = None)"

fun listed :: "nat list \<Rightarrow> nat list \<Rightarrow> nat \<Rightarrow> pcb \<Rightarrow> bool" where
  "listed ts us p (TcpPcb s) \<longleftrightarrow> p \<in> set ts"
| "listed ts us p (UdpPcb s) \<longleftrightarrow> p \<in> set us"

definition sessions_wf :: "daemon \<Rightarrow> bool" where
  "sessions_wf d \<longleftrightarrow>
     (\<forall>e ep. d_eps d e = Some ep \<longrightarrow> ep_bounded ep \<and>
       (\<exists>p s. ep_pcb ep = Some p \<and> d_pcbs d p = Some s \<and> pcb_so s = Some e \<and> pcb_type s = ep_type ep)) \<and>
     (\<forall>p s. d_pcbs d p = Some s \<longrightarrow> pcb_ok s \<and> listed (tcp_pcbs d) (udp_pcbs d) p s \<and>
       (\<exists>e ep. pcb_so s = Some e \<and> d_eps d e = Some ep \<and> ep_pcb ep = Some p))"

definition objects_wf :: "daemon \<Rightarrow> bool" where
  "objects_wf d \<longleftrightarrow> handles_wf d \<and> fresh_wf d \<and> sessions_wf d"

text \<open>The links between channels and endpoints, what the callbacks refer to, and the registration of
  the endpoints.\<close>

fun cb_chan :: "async_cb \<Rightarrow> nat" where
  "cb_chan (OnAsyncNewUdpPacket c ra) = c"
| "cb_chan (OnAsyncNewTcpPacket c) = c"

definition channels_wf :: "daemon \<Rightarrow> bool" where
  "channels_wf d \<longleftrightarrow> distinct (rrChannels d) \<and> (\<forall>c. c \<in> set (rrChannels d) \<longleftrightarrow> d_chans d c \<noteq> None) \<and>
     (\<forall>c ch e. d_chans d c = Some ch \<longrightarrow> ch_socket ch = Some e \<longrightarrow> (\<exists>ep. d_eps d e = Some ep \<and> ep_rrChannel ep = Some c)) \<and>
     (\<forall>e ep. d_eps d e = Some ep \<longrightarrow> (\<exists>c ch. ep_rrChannel ep = Some c \<and> d_chans d c = Some ch \<and> ch_socket ch = Some e))"

definition callbacks_wf :: "daemon \<Rightarrow> bool" where
  "callbacks_wf d \<longleftrightarrow>
     (\<forall>e ep cb. d_eps d e = Some ep \<longrightarrow> ep_onAsyncNewPacket ep = Some cb \<longrightarrow> ep_rrChannel ep = Some (cb_chan cb)) \<and>
     (\<forall>e ep p s c. d_eps d e = Some ep \<longrightarrow> ep_pcb ep = Some p \<longrightarrow> d_pcbs d p = Some s \<longrightarrow> pcb_cb s = Some c \<longrightarrow>
        ep_rrChannel ep = Some c)"

definition registered :: "daemon \<Rightarrow> bool" where
  "registered d \<longleftrightarrow> hasChannel HListener (d_loop d) \<and> (\<forall>e. d_eps d e \<noteq> None \<longrightarrow> hasChannel (HSocket e) (d_loop d))"

definition daemon_wf :: "daemon \<Rightarrow> bool" where
  "daemon_wf d \<longleftrightarrow> objects_wf d \<and> channels_wf d \<and> callbacks_wf d \<and> registered d"

lemmas wf_defs = objects_wf_def handles_wf_def fresh_wf_def sessions_wf_def channels_wf_def callbacks_wf_def
  registered_def daemon_wf_def

lemma daemon_more:
  assumes "net.more d' = net.more d"
  shows "d_loop d' = d_loop d" "rrChannels d' = rrChannels d" "d_chans d' = d_chans d" "d_eps d' = d_eps d"
    "d_pcbs d' = d_pcbs d" "tcp_pcbs d' = tcp_pcbs d" "udp_pcbs d' = udp_pcbs d" "d_fresh d' = d_fresh d"
    "sent_resps d' = sent_resps d" "stack_addr d' = stack_addr d" "d_rxQ d' = d_rxQ d" "d_groups d' = d_groups d"
  using assms by (cases d, cases d', simp)+

text \<open>The fields the invariant speaks about.\<close>

definition same_objects :: "daemon \<Rightarrow> daemon \<Rightarrow> bool" where
  "same_objects d d' \<longleftrightarrow> d_loop d' = d_loop d \<and> rrChannels d' = rrChannels d \<and> d_chans d' = d_chans d \<and>
     d_eps d' = d_eps d \<and> d_pcbs d' = d_pcbs d \<and> tcp_pcbs d' = tcp_pcbs d \<and> udp_pcbs d' = udp_pcbs d \<and> d_fresh d' = d_fresh d"

lemma same_objects_more:
  assumes "net.more d' = net.more d"
  shows "same_objects d d'"
  unfolding same_objects_def by (simp only: daemon_more [OF assms])

lemma live_cong: "d_chans d' = d_chans d \<Longrightarrow> d_eps d' = d_eps d \<Longrightarrow> d_pcbs d' = d_pcbs d \<Longrightarrow> live d' h = live d h"
  by (cases h) simp_all

lemma daemon_wf_cong:
  assumes "same_objects d d'"
  shows "daemon_wf d' = daemon_wf d"
proof -
  note eqs = assms [unfolded same_objects_def]
  have l: "live d' = live d" using live_cong [of d' d] eqs by blast
  show ?thesis unfolding wf_defs l by (simp only: eqs)
qed

lemma objects_wfD:
  assumes "objects_wf d"
  shows "reactor_wf (d_loop d)" "io_handles (d_loop d) h \<noteq> None \<longleftrightarrow> live d h"
    and "d_fresh d \<le> n \<Longrightarrow> d_chans d n = None" "d_fresh d \<le> n \<Longrightarrow> d_eps d n = None" "d_fresh d \<le> n \<Longrightarrow> d_pcbs d n = None"
    and "d_eps d e = Some ep \<Longrightarrow> \<exists>p s. ep_pcb ep = Some p \<and> d_pcbs d p = Some s \<and> pcb_so s = Some e \<and> pcb_type s = ep_type ep"
    and "d_pcbs d p = Some s \<Longrightarrow> \<exists>e ep. pcb_so s = Some e \<and> d_eps d e = Some ep \<and> ep_pcb ep = Some p"
    and "d_eps d e = Some ep \<Longrightarrow> ep_bounded ep" and "d_pcbs d p = Some s \<Longrightarrow> pcb_ok s"
  using assms unfolding wf_defs by blast+

subsection \<open>Destroying objects\<close>

text \<open>A handle is destroyed together with the object it belongs to.\<close>

lemma handles_wf_drop:
  assumes "handles_wf d" "reactor_wf r" "io_handles r = (io_handles (d_loop d))(h := None)" "d_loop d' = r"
    and "\<And>k. live d' k \<longleftrightarrow> k \<noteq> h \<and> live d k"
  shows "handles_wf d'"
  using assms by (auto simp: handles_wf_def)

lemma delete_pcb_ok:
  assumes wf: "handles_wf d" and p: "d_pcbs d p = Some s"
  shows "\<exists>r. delete_pcb p d = Inr (d\<lparr>d_loop := r, d_pcbs := (d_pcbs d)(p := None)\<rparr>) \<and>
    handles_wf (d\<lparr>d_loop := r, d_pcbs := (d_pcbs d)(p := None)\<rparr>) \<and>
    set (loop_channels r) = set (loop_channels (d_loop d)) - {HEstab p}"
proof (cases s)
  case (UdpPcb u)
  have n: "HEstab p \<notin> set (loop_channels (d_loop d))"
    using wf p UdpPcb reactor_wfD(2) [of "d_loop d" "HEstab p"] by (force simp: handles_wf_def)
  have "live (d\<lparr>d_loop := d_loop d, d_pcbs := (d_pcbs d)(p := None)\<rparr>) k = live d k" for k
    using p UdpPcb by (cases k) auto
  then show ?thesis
    using wf p UdpPcb n by (intro exI [of _ "d_loop d"]) (auto simp: delete_pcb_def put_pcb_def handles_wf_def)
next
  case (TcpPcb t)
  obtain i where i: "io_handles (d_loop d) (HEstab p) = Some i"
    using wf p TcpPcb by (force simp: handles_wf_def)
  have rwf: "reactor_wf (d_loop d)" using wf by (simp add: handles_wf_def)
  obtain r where r: "IoHandle_delete (HEstab p) (d_loop d) = Inr r" "reactor_wf r"
    "loop_channels r = remove1 (HEstab p) (loop_channels (d_loop d))" "io_handles r = (io_handles (d_loop d))(HEstab p := None)"
    using IoHandle_delete_ok [OF rwf i] by blast
  have "live (d\<lparr>d_loop := r, d_pcbs := (d_pcbs d)(p := None)\<rparr>) k \<longleftrightarrow> k \<noteq> HEstab p \<and> live d k" for k
    by (cases k) auto
  then have "handles_wf (d\<lparr>d_loop := r, d_pcbs := (d_pcbs d)(p := None)\<rparr>)"
    using handles_wf_drop [OF wf r(2,4)] by simp
  moreover have "delete_pcb p d = Inr (d\<lparr>d_loop := r, d_pcbs := (d_pcbs d)(p := None)\<rparr>)"
    using p TcpPcb r(1) by (simp add: delete_pcb_def put_pcb_def on_loop_def)
  ultimately show ?thesis using r(3) reactor_wfD(1) [OF rwf] by auto
qed

definition without_endpoint :: "nat \<Rightarrow> nat \<Rightarrow> handle reactor \<Rightarrow> daemon \<Rightarrow> daemon" where
  "without_endpoint e p r d = d\<lparr>d_loop := r, d_eps := (d_eps d)(e := None), d_pcbs := (d_pcbs d)(p := None)\<rparr>"

lemma sessions_wfD:
  assumes "sessions_wf d"
  shows "d_eps d e = Some ep \<Longrightarrow> ep_bounded ep"
    and "d_eps d e = Some ep \<Longrightarrow> \<exists>p s. ep_pcb ep = Some p \<and> d_pcbs d p = Some s \<and> pcb_so s = Some e \<and> pcb_type s = ep_type ep"
    and "d_pcbs d p = Some s \<Longrightarrow> pcb_ok s"
    and "d_pcbs d p = Some s \<Longrightarrow> listed (tcp_pcbs d) (udp_pcbs d) p s"
    and "d_pcbs d p = Some s \<Longrightarrow> \<exists>e ep. pcb_so s = Some e \<and> d_eps d e = Some ep \<and> ep_pcb ep = Some p"
  using assms unfolding sessions_wf_def by blast+

lemma sessions_wf_without:
  assumes wf: "sessions_wf d" and e: "d_eps d e = Some ep" and p: "ep_pcb ep = Some p"
    and s: "d_pcbs d p = Some s" "pcb_so s = Some e"
  shows "sessions_wf (without_endpoint e p r d)" (is "sessions_wf ?d")
  unfolding sessions_wf_def
proof (intro conjI allI impI)
  fix e' ep'
  assume "d_eps ?d e' = Some ep'"
  then have *: "e' \<noteq> e" "d_eps d e' = Some ep'" by (auto simp: without_endpoint_def split: if_splits)
  show "ep_bounded ep'" using sessions_wfD(1) [OF wf *(2)] .
  obtain p' s' where "ep_pcb ep' = Some p'" "d_pcbs d p' = Some s'" "pcb_so s' = Some e'" "pcb_type s' = ep_type ep'"
    using sessions_wfD(2) [OF wf *(2)] by blast
  with * s show "\<exists>p s. ep_pcb ep' = Some p \<and> d_pcbs ?d p = Some s \<and> pcb_so s = Some e' \<and> pcb_type s = ep_type ep'"
    by (intro exI [of _ p'] exI [of _ s']) (auto simp: without_endpoint_def)
next
  fix p' s'
  assume "d_pcbs ?d p' = Some s'"
  then have *: "p' \<noteq> p" "d_pcbs d p' = Some s'" by (auto simp: without_endpoint_def split: if_splits)
  show "pcb_ok s'" using sessions_wfD(3) [OF wf *(2)] .
  show "listed (tcp_pcbs ?d) (udp_pcbs ?d) p' s'"
    using sessions_wfD(4) [OF wf *(2)] by (simp add: without_endpoint_def)
  obtain e' ep' where "pcb_so s' = Some e'" "d_eps d e' = Some ep'" "ep_pcb ep' = Some p'"
    using sessions_wfD(5) [OF wf *(2)] by blast
  with * e p show "\<exists>e ep. pcb_so s' = Some e \<and> d_eps ?d e = Some ep \<and> ep_pcb ep = Some p'"
    by (intro exI [of _ e'] exI [of _ ep']) (auto simp: without_endpoint_def)
qed

lemma delete_endpoint_ok:
  assumes wf: "objects_wf d" and e: "d_eps d e = Some ep" and p: "ep_pcb ep = Some p"
  shows "\<exists>r. delete_endpoint e d = Inr (without_endpoint e p r d) \<and> objects_wf (without_endpoint e p r d) \<and>
    set (loop_channels r) = set (loop_channels (d_loop d)) - {HSocket e, HEstab p}"
proof -
  obtain s where s: "d_pcbs d p = Some s" "pcb_so s = Some e" using objects_wfD(6) [OF wf e] p by auto
  have h: "handles_wf d" using wf by (simp add: objects_wf_def)
  obtain r1 where d1: "delete_pcb p d = Inr (d\<lparr>d_loop := r1, d_pcbs := (d_pcbs d)(p := None)\<rparr>)"
    "handles_wf (d\<lparr>d_loop := r1, d_pcbs := (d_pcbs d)(p := None)\<rparr>)" (is "handles_wf ?d1")
    "set (loop_channels r1) = set (loop_channels (d_loop d)) - {HEstab p}"
    using delete_pcb_ok [OF h s(1)] by blast
  have rwf: "reactor_wf r1" using d1(2) by (simp add: handles_wf_def)
  obtain i where "io_handles r1 (HSocket e) = Some i" using d1(2) e by (force simp: handles_wf_def)
  from IoHandle_delete_ok [OF rwf this] obtain r where r: "IoHandle_delete (HSocket e) r1 = Inr r" "reactor_wf r"
    "loop_channels r = remove1 (HSocket e) (loop_channels r1)" "io_handles r = (io_handles r1)(HSocket e := None)"
    by blast
  have "live (without_endpoint e p r d) k \<longleftrightarrow> k \<noteq> HSocket e \<and> live ?d1 k" for k
    by (cases k) (auto simp: without_endpoint_def)
  then have "handles_wf (without_endpoint e p r d)"
    using handles_wf_drop [OF d1(2) r(2)] r(4) by (simp add: without_endpoint_def)
  moreover have "sessions_wf (without_endpoint e p r d)"
    by (rule sessions_wf_without [OF _ e p s]) (use wf in \<open>simp add: objects_wf_def\<close>)
  moreover have "fresh_wf (without_endpoint e p r d)"
    using wf by (simp add: objects_wf_def fresh_wf_def without_endpoint_def)
  moreover have "delete_endpoint e d = Inr (without_endpoint e p r d)"
    using e p d1(1) r(1) by (simp add: delete_endpoint_def on_loop_def put_ep_def without_endpoint_def)
  ultimately show ?thesis using r(3) d1(3) reactor_wfD(1) [OF rwf] by (auto simp: objects_wf_def)
qed

lemma objects_wf_loop:
  assumes "objects_wf d" "reactor_wf r" "\<And>h. io_handles r h \<noteq> None \<longleftrightarrow> io_handles (d_loop d) h \<noteq> None"
  shows "objects_wf (d\<lparr>d_loop := r\<rparr>)"
proof -
  have l: "live (d\<lparr>d_loop := r\<rparr>) = live d" by (rule ext, rule live_cong) simp_all
  show ?thesis using assms unfolding objects_wf_def handles_wf_def fresh_wf_def sessions_wf_def l by simp
qed

definition without_channel :: "nat \<Rightarrow> handle reactor \<Rightarrow> daemon \<Rightarrow> daemon" where
  "without_channel c r d = d\<lparr>d_loop := r, d_chans := (d_chans d)(c := None)\<rparr>"

lemma delete_channel_handle:
  assumes wf: "objects_wf d" and c: "d_chans d c \<noteq> None"
  shows "\<exists>r. on_loop (IoHandle_delete (HChannel c)) d = Inr (d\<lparr>d_loop := r\<rparr>) \<and> objects_wf (without_channel c r d) \<and>
    set (loop_channels r) = set (loop_channels (d_loop d)) - {HChannel c}"
proof -
  have rwf: "reactor_wf (d_loop d)" using objects_wfD(1) [OF wf] .
  obtain i where "io_handles (d_loop d) (HChannel c) = Some i" using objects_wfD(2) [OF wf, of "HChannel c"] c by auto
  from IoHandle_delete_ok [OF rwf this] obtain r where r: "IoHandle_delete (HChannel c) (d_loop d) = Inr r" "reactor_wf r"
    "loop_channels r = remove1 (HChannel c) (loop_channels (d_loop d))"
    "io_handles r = (io_handles (d_loop d))(HChannel c := None)" by blast
  have "live (without_channel c r d) k \<longleftrightarrow> k \<noteq> HChannel c \<and> live d k" for k
    by (cases k) (auto simp: without_channel_def)
  moreover have "handles_wf d" using wf by (simp add: objects_wf_def)
  ultimately have "handles_wf (without_channel c r d)"
    using handles_wf_drop [of d r] r(2,4) by (simp add: without_channel_def)
  moreover have "fresh_wf (without_channel c r d)" "sessions_wf (without_channel c r d)"
    using wf by (simp_all add: objects_wf_def fresh_wf_def sessions_wf_def without_channel_def)
  ultimately show ?thesis
    using r(1,3) reactor_wfD(1) [OF rwf] by (auto simp: objects_wf_def on_loop_def)
qed

lemma delete_channel_ok:
  assumes wf: "objects_wf d" and c: "d_chans d c = Some ch"
    and link: "\<And>e. ch_socket ch = Some e \<Longrightarrow> d_eps d e \<noteq> None"
  shows "\<exists>r d'. delete_channel c d = Inr d' \<and> objects_wf d' \<and>
    (case ch_socket ch of
       None \<Rightarrow> d' = without_channel c r d \<and> set (loop_channels r) = set (loop_channels (d_loop d)) - {HChannel c}
     | Some e \<Rightarrow> \<forall>ep p. d_eps d e = Some ep \<longrightarrow> ep_pcb ep = Some p \<longrightarrow>
         d' = without_channel c r (without_endpoint e p r d) \<and>
         set (loop_channels r) = set (loop_channels (d_loop d)) - {HChannel c, HSocket e, HEstab p})"
proof -
  have rwf: "reactor_wf (d_loop d)" using objects_wfD(1) [OF wf] .
  obtain i where i: "io_handles (d_loop d) (HChannel c) = Some i" using objects_wfD(2) [OF wf, of "HChannel c"] c by auto
  obtain r1 where r1: "unregisterSelf (HChannel c) (d_loop d) = Inr r1" "reactor_wf r1"
    "loop_channels r1 = remove1 (HChannel c) (loop_channels (d_loop d))"
    "io_handles r1 = (io_handles (d_loop d))(HChannel c := Some (i\<lparr>ownerLoop := False\<rparr>))"
    using unregisterSelf_ok [OF rwf i] by blast
  let ?d1 = "d\<lparr>d_loop := r1\<rparr>"
  have wf1: "objects_wf ?d1" using objects_wf_loop [OF wf r1(2)] r1(4) i by simp
  have s1: "set (loop_channels r1) = set (loop_channels (d_loop d)) - {HChannel c}"
    using r1(3) reactor_wfD(1) [OF rwf] by simp
  show ?thesis
  proof (cases "ch_socket ch")
    case None
    obtain r where r: "on_loop (IoHandle_delete (HChannel c)) ?d1 = Inr (?d1\<lparr>d_loop := r\<rparr>)"
      "objects_wf (without_channel c r ?d1)" "set (loop_channels r) = set (loop_channels r1) - {HChannel c}"
      using delete_channel_handle [OF wf1, of c] c by auto
    have e: "without_channel c r ?d1 = without_channel c r d" by (simp add: without_channel_def)
    have "delete_channel c d = Inr (without_channel c r d)"
      using c None r1(1) r(1) unfolding delete_channel_def by (simp add: on_loop_def put_chan_def without_channel_def)
    then show ?thesis using None r(2,3) s1 e by (intro exI [of _ r] exI [of _ "without_channel c r d"]) simp
  next
    case (Some e)
    obtain ep where e: "d_eps d e = Some ep" using link [OF Some] by blast
    obtain p where p: "ep_pcb ep = Some p" using objects_wfD(6) [OF wf e] by blast
    obtain r2 where r2: "delete_endpoint e ?d1 = Inr (without_endpoint e p r2 ?d1)" "objects_wf (without_endpoint e p r2 ?d1)"
      "set (loop_channels r2) = set (loop_channels r1) - {HSocket e, HEstab p}"
      using delete_endpoint_ok [OF wf1, of e ep p] e p by auto
    let ?d2 = "without_endpoint e p r2 ?d1"
    obtain r where r: "on_loop (IoHandle_delete (HChannel c)) ?d2 = Inr (?d2\<lparr>d_loop := r\<rparr>)"
      "objects_wf (without_channel c r ?d2)" "set (loop_channels r) = set (loop_channels r2) - {HChannel c}"
      using delete_channel_handle [OF r2(2), of c] c by (auto simp: without_endpoint_def)
    let ?d' = "without_channel c r (without_endpoint e p r d)"
    have d': "without_channel c r ?d2 = ?d'" by (simp add: without_channel_def without_endpoint_def)
    have "delete_channel c d = Inr ?d'"
      using c Some r1(1) r2(1) r(1) d' unfolding delete_channel_def
      by (simp add: on_loop_def put_chan_def without_channel_def without_endpoint_def)
    then show ?thesis using Some e p r(2,3) r2(3) s1 d' by (intro exI [of _ r] exI [of _ ?d']) auto
  qed
qed

lemma daemon_wfD:
  assumes "daemon_wf d"
  shows "objects_wf d" "channels_wf d" "callbacks_wf d" "registered d"
    and "distinct (rrChannels d)" "c \<in> set (rrChannels d) \<longleftrightarrow> d_chans d c \<noteq> None"
    and "d_chans d c = Some ch \<Longrightarrow> ch_socket ch = Some e \<Longrightarrow> \<exists>ep. d_eps d e = Some ep \<and> ep_rrChannel ep = Some c"
    and "d_eps d e = Some ep \<Longrightarrow> \<exists>c ch. ep_rrChannel ep = Some c \<and> d_chans d c = Some ch \<and> ch_socket ch = Some e"
    and "d_eps d e = Some ep \<Longrightarrow> ep_onAsyncNewPacket ep = Some cb \<Longrightarrow> ep_rrChannel ep = Some (cb_chan cb)"
    and "d_eps d e = Some ep \<Longrightarrow> ep_pcb ep = Some p \<Longrightarrow> d_pcbs d p = Some s \<Longrightarrow> pcb_cb s = Some x \<Longrightarrow> ep_rrChannel ep = Some x"
    and "hasChannel HListener (d_loop d)" "d_eps d e \<noteq> None \<Longrightarrow> hasChannel (HSocket e) (d_loop d)"
  using assms unfolding daemon_wf_def channels_wf_def callbacks_wf_def registered_def by blast+

lemma objects_wf_cong: "objects_wf d \<Longrightarrow> same_objects d (d'\<lparr>rrChannels := rrChannels d\<rparr>) \<Longrightarrow> objects_wf d'"
proof -
  assume wf: "objects_wf d" and "same_objects d (d'\<lparr>rrChannels := rrChannels d\<rparr>)"
  then have eqs: "d_loop d' = d_loop d" "d_chans d' = d_chans d" "d_eps d' = d_eps d" "d_pcbs d' = d_pcbs d"
    "tcp_pcbs d' = tcp_pcbs d" "udp_pcbs d' = udp_pcbs d" "d_fresh d' = d_fresh d"
    by (simp_all add: same_objects_def)
  have l: "live d' = live d" using live_cong [of d' d] eqs by blast
  have "objects_wf d' = objects_wf d"
    unfolding objects_wf_def handles_wf_def fresh_wf_def sessions_wf_def l by (simp only: eqs)
  then show ?thesis using wf by simp
qed

text \<open>Taking a channel with all it owns out of the stores keeps the links of the others.\<close>

lemma daemon_wf_remove:
  assumes wf: "daemon_wf d" and o': "objects_wf d'"
    and rr: "rrChannels d' = removeAll c (rrChannels d)" and ch: "d_chans d' = (d_chans d)(c := None)"
    and sub: "\<And>e ep. d_eps d' e = Some ep \<longleftrightarrow> d_eps d e = Some ep \<and> ep_rrChannel ep \<noteq> Some c"
      "\<And>p s. d_pcbs d' p = Some s \<Longrightarrow> d_pcbs d p = Some s"
    and loop: "hasChannel HListener (d_loop d')"
      "\<And>e. d_eps d' e \<noteq> None \<Longrightarrow> hasChannel (HSocket e) (d_loop d) \<Longrightarrow> hasChannel (HSocket e) (d_loop d')"
  shows "daemon_wf d'"
proof -
  have "channels_wf d'"
    unfolding channels_wf_def rr ch
  proof (intro conjI allI impI)
    show "distinct (removeAll c (rrChannels d))" using daemon_wfD(5) [OF wf] by (simp add: distinct_removeAll)
    show "(k \<in> set (removeAll c (rrChannels d))) = (((d_chans d)(c := None)) k \<noteq> None)" for k
      using daemon_wfD(6) [OF wf, of k] by auto
    show "\<exists>ep. d_eps d' e = Some ep \<and> ep_rrChannel ep = Some k"
      if "((d_chans d)(c := None)) k = Some ch'" "ch_socket ch' = Some e" for k ch' e
      using daemon_wfD(7) [OF wf, of k ch' e] that sub(1) by (auto split: if_splits)
    show "\<exists>k ch'. ep_rrChannel ep = Some k \<and> ((d_chans d)(c := None)) k = Some ch' \<and> ch_socket ch' = Some e"
      if "d_eps d' e = Some ep" for e ep
      using daemon_wfD(8) [OF wf, of e ep] that sub(1) by auto
  qed
  moreover have "callbacks_wf d'"
    using daemon_wfD(3) [OF wf] sub unfolding callbacks_wf_def by blast
  moreover have "registered d'"
    using daemon_wfD(4) [OF wf] loop sub(1) unfolding registered_def by blast
  ultimately show ?thesis using o' by (simp add: daemon_wf_def)
qed

lemma removeRRChannel_ok:
  assumes wf: "daemon_wf d" and c: "d_chans d c = Some ch"
  shows "\<exists>d'. removeRRChannel c d = Inr d' \<and> daemon_wf d' \<and> d_chans d' = (d_chans d)(c := None) \<and>
    rrChannels d' = removeAll c (rrChannels d) \<and> sent_resps d' = sent_resps d \<and>
    (\<forall>e ep. d_eps d' e = Some ep \<longleftrightarrow> d_eps d e = Some ep \<and> ep_rrChannel ep \<noteq> Some c)"
proof -
  let ?d0 = "d\<lparr>rrChannels := removeAll c (rrChannels d)\<rparr>"
  have wf0: "objects_wf ?d0"
    by (rule objects_wf_cong [OF daemon_wfD(1) [OF wf]]) (simp add: same_objects_def)
  have e: "removeRRChannel c d = delete_channel c ?d0"
    using daemon_wfD(6) [OF wf, of c] c by (simp add: removeRRChannel_def)
  have L: "hasChannel HListener (d_loop d)" using daemon_wfD(11) [OF wf] .
  show ?thesis
  proof (cases "ch_socket ch")
    case None
    obtain r where r: "delete_channel c ?d0 = Inr (without_channel c r ?d0)" "objects_wf (without_channel c r ?d0)"
      "set (loop_channels r) = set (loop_channels (d_loop d)) - {HChannel c}"
      using delete_channel_ok [OF wf0, of c ch] c None by auto
    have n: "ep_rrChannel ep \<noteq> Some c" if "d_eps d e = Some ep" for e ep
      using daemon_wfD(8) [OF wf that] c None by auto
    have "daemon_wf (without_channel c r ?d0)"
      by (rule daemon_wf_remove [OF wf r(2)]) (use L n r(3) in \<open>auto simp: without_channel_def hasChannel_def\<close>)
    then show ?thesis using e r(1) n by (auto simp: without_channel_def)
  next
    case (Some so)
    obtain ep where ep: "d_eps d so = Some ep" "ep_rrChannel ep = Some c" using daemon_wfD(7) [OF wf c Some] by blast
    obtain p s where p: "ep_pcb ep = Some p" "d_pcbs d p = Some s" "pcb_so s = Some so"
      using objects_wfD(6) [OF daemon_wfD(1) [OF wf] ep(1)] by blast
    obtain r where r: "delete_channel c ?d0 = Inr (without_channel c r (without_endpoint so p r ?d0))"
      "objects_wf (without_channel c r (without_endpoint so p r ?d0))"
      "set (loop_channels r) = set (loop_channels (d_loop d)) - {HChannel c, HSocket so, HEstab p}"
      using delete_channel_ok [OF wf0, of c ch] c Some ep p by auto
    have n: "ep_rrChannel ep' \<noteq> Some c" if "d_eps d e = Some ep'" "e \<noteq> so" for e ep'
      using daemon_wfD(8) [OF wf that(1)] c Some that(2) by auto
    have sub: "d_eps (without_channel c r (without_endpoint so p r ?d0)) e = Some ep' \<longleftrightarrow>
        d_eps d e = Some ep' \<and> ep_rrChannel ep' \<noteq> Some c" for e ep'
      using n [of e ep'] ep by (auto simp: without_channel_def without_endpoint_def)
    have "daemon_wf (without_channel c r (without_endpoint so p r ?d0))"
      by (rule daemon_wf_remove [OF wf r(2) _ _ sub])
        (use L r(3) in \<open>auto simp: without_channel_def without_endpoint_def hasChannel_def split: if_splits\<close>)
    then show ?thesis using e r(1) sub by (auto simp: without_channel_def without_endpoint_def)
  qed
qed

subsection \<open>Creating objects\<close>

lemma new_handle_ok:
  assumes "reactor_wf r" "fresh_handle h fd r"
  shows "\<exists>r' i. enableReading h (IoHandle_new h fd r) = Inr r' \<and> reactor_wf r' \<and> loop_channels r' = loop_channels r \<and>
    io_handles r' = (io_handles r)(h := Some i) \<and> h_fd i = fd"
proof -
  have "io_handles (IoHandle_new h fd r) h = Some \<lparr>h_fd = fd, eventsInterested = noneEvent, eventsReceived = noneEvent,
      handlingEvents = False, ownerLoop = False\<rparr>" by (simp add: IoHandle_new_def put_handle_def)
  from interest_ops_ok(1) [OF reactor_wf_new [OF assms] this] obtain r' where
    "enableReading h (IoHandle_new h fd r) = Inr r'" "reactor_wf r'" "loop_channels r' = loop_channels r"
    "io_handles r' = (io_handles r)(h := Some \<lparr>h_fd = fd, eventsInterested = noneEvent OR readEvent,
      eventsReceived = noneEvent, handlingEvents = False, ownerLoop = False\<rparr>)"
    by (auto simp: IoHandle_new_def put_handle_def)
  then show ?thesis by (intro exI conjI) (assumption | simp)+
qed

text \<open>\<open>accept\<close> and \<open>pipe2\<close> return descriptors that are not open.\<close>

definition unused_fd :: "int \<Rightarrow> daemon \<Rightarrow> bool" where
  "unused_fd fd d \<longleftrightarrow> (\<forall>h i. io_handles (d_loop d) h = Some i \<longrightarrow> h_fd i \<noteq> fd)"

definition env_ok :: "denv \<Rightarrow> daemon \<Rightarrow> bool" where
  "env_ok E d \<longleftrightarrow> unused_fd (so_pipe E) d \<and> unused_fd (estab_pipe E) d \<and> so_pipe E \<noteq> estab_pipe E"

lemma fresh_handleI: "objects_wf d \<Longrightarrow> unused_fd fd d \<Longrightarrow> \<not> live d h \<Longrightarrow> fresh_handle h fd (d_loop d)"
  using objects_wfD(2) [of d h] by (simp add: fresh_handle_def unused_fd_def)

lemma not_hasChannel: "objects_wf d \<Longrightarrow> \<not> live d h \<Longrightarrow> h \<notin> set (loop_channels (d_loop d))"
  using objects_wfD(1,2) [of d] reactor_wfD(2) [of "d_loop d" h] by force

lemma onNewConnection_ok:
  assumes wf: "daemon_wf d" and fd: "unused_fd connfd d"
  shows "\<exists>d'. onNewConnection connfd d = Inr d' \<and> daemon_wf d' \<and> sent_resps d' = sent_resps d \<and>
    loop_channels (d_loop d') = loop_channels (d_loop d) @ [HChannel (d_fresh d)] \<and>
    d_chans d' = (d_chans d)(d_fresh d := Some \<lparr>ch_peer = [], ch_peerPid = None, ch_socket = None\<rparr>)"
proof -
  let ?c = "d_fresh d"
  note ow = daemon_wfD(1) [OF wf]
  have nl: "\<not> live d (HChannel ?c)" using objects_wfD(3) [OF ow] by simp
  obtain r1 i where r1: "enableReading (HChannel ?c) (IoHandle_new (HChannel ?c) connfd (d_loop d)) = Inr r1" "reactor_wf r1"
    "loop_channels r1 = loop_channels (d_loop d)" "io_handles r1 = (io_handles (d_loop d))(HChannel ?c := Some i)"
    using new_handle_ok [OF objects_wfD(1) [OF ow] fresh_handleI [OF ow fd nl]] by blast
  obtain r2 j where r2: "add_owned (HChannel ?c) r1 = Inr r2" "reactor_wf r2"
    "loop_channels r2 = loop_channels (d_loop d) @ [HChannel ?c]" "io_handles r2 = (io_handles (d_loop d))(HChannel ?c := Some j)"
    using add_owned_ok [OF r1(2), of "HChannel ?c" i] r1(3,4) not_hasChannel [OF ow nl] by auto
  let ?n = "\<lparr>ch_peer = [], ch_peerPid = None, ch_socket = None\<rparr>"
  let ?d = "d\<lparr>d_loop := r2, d_fresh := d_fresh d + 1, d_chans := (d_chans d)(?c := Some ?n), rrChannels := rrChannels d @ [?c]\<rparr>"
  have e: "onNewConnection connfd d = Inr ?d"
    using r1(1) r2(1) by (simp add: onNewConnection_def on_loop_def put_chan_def Let_def)
  have lv: "live ?d k \<longleftrightarrow> k = HChannel ?c \<or> live d k" for k by (cases k) auto
  have "handles_wf ?d" unfolding handles_wf_def lv using r2(2,4) objects_wfD(2) [OF ow] by auto
  moreover have "fresh_wf ?d" "sessions_wf ?d" using ow by (auto simp: objects_wf_def fresh_wf_def sessions_wf_def)
  moreover have "channels_wf ?d"
    using daemon_wfD(2) [OF wf] objects_wfD(3) [OF ow, of ?c] unfolding channels_wf_def
    by (auto split: if_splits) (metis option.distinct(1))
  moreover have "callbacks_wf ?d" using daemon_wfD(3) [OF wf] by (simp add: callbacks_wf_def)
  moreover have "registered ?d" using daemon_wfD(4) [OF wf] r2(3) by (auto simp: registered_def hasChannel_def)
  ultimately show ?thesis using e r2(3) by (simp add: daemon_wf_def objects_wf_def)
qed

end
