(* ===== verification/Daemon_Serve.thy ===== *)
theory Daemon_Serve
  imports Daemon_Inv
begin

section \<open>Serving keeps the ownership invariant\<close>

text \<open>
  Each request handler, callback and packet, started in a state of the invariant, leaves one - and
  which of them can fail to return, and how.
\<close>

subsection \<open>socketCall\<close>

text \<open>The new session, by kind.\<close>

definition new_pcb :: "bool \<Rightarrow> u32 \<Rightarrow> pcb" where
  "new_pcb stream a = (if stream then TcpPcb (TcpSession_new a) else UdpPcb (Session_new a))"

definition new_type :: "bool \<Rightarrow> ep_type" where
  "new_type stream = (if stream then EP_TCP else EP_UDP)"

definition with_pair :: "bool \<Rightarrow> handle reactor \<Rightarrow> Endpoint \<Rightarrow> pcb \<Rightarrow> daemon \<Rightarrow> daemon" where
  "with_pair stream r ep s d = d\<lparr>d_loop := r, d_fresh := d_fresh d + 2, d_eps := (d_eps d)(d_fresh d := Some ep),
     d_pcbs := (d_pcbs d)(Suc (d_fresh d) := Some s),
     tcp_pcbs := (if stream then tcp_pcbs d @ [Suc (d_fresh d)] else tcp_pcbs d),
     udp_pcbs := (if stream then udp_pcbs d else udp_pcbs d @ [Suc (d_fresh d)])\<rparr>"

lemma create_pair_ok:
  assumes wf: "objects_wf d" and env: "env_ok E d"
  shows "\<exists>r. create_pair E stream nb d = Inr (d_fresh d, Suc (d_fresh d),
      with_pair stream r (Endpoint_new (new_type stream) nb) (new_pcb stream (stack_addr d)) d) \<and>
    reactor_wf r \<and> loop_channels r = loop_channels (d_loop d) \<and>
    (\<forall>h. io_handles r h \<noteq> None \<longleftrightarrow> h = HSocket (d_fresh d) \<or> stream \<and> h = HEstab (Suc (d_fresh d)) \<or>
      io_handles (d_loop d) h \<noteq> None)"
proof -
  let ?e = "d_fresh d"
  have nl: "\<not> live d (HSocket ?e)" "\<not> live d (HEstab (Suc ?e))" using objects_wfD(4,5) [OF wf] by simp_all
  obtain r1 i where r1: "enableReading (HSocket ?e) (IoHandle_new (HSocket ?e) (so_pipe E) (d_loop d)) = Inr r1" "reactor_wf r1"
    "loop_channels r1 = loop_channels (d_loop d)" "io_handles r1 = (io_handles (d_loop d))(HSocket ?e := Some i)" "h_fd i = so_pipe E"
    using new_handle_ok [OF objects_wfD(1) [OF wf] fresh_handleI [OF wf _ nl(1)], of "so_pipe E"] env by (auto simp: env_ok_def)
  show ?thesis
  proof (cases stream)
    case False
    then show ?thesis
      using r1 by (intro exI [of _ r1]) (auto simp: create_pair_def new_endpoint_def udp_newSession_def on_loop_def put_ep_def
          put_pcb_def with_pair_def new_pcb_def new_type_def Let_def)
  next
    case True
    have "io_handles (d_loop d) (HEstab (Suc ?e)) = None" using objects_wfD(2) [OF wf, of "HEstab (Suc ?e)"] nl(2) by auto
    then have "fresh_handle (HEstab (Suc ?e)) (estab_pipe E) r1"
      using env r1(4,5) by (auto simp: fresh_handle_def env_ok_def unused_fd_def split: if_splits)
    from new_handle_ok [OF r1(2) this] obtain r2 j where r2:
      "enableReading (HEstab (Suc ?e)) (IoHandle_new (HEstab (Suc ?e)) (estab_pipe E) r1) = Inr r2" "reactor_wf r2"
      "loop_channels r2 = loop_channels r1" "io_handles r2 = (io_handles r1)(HEstab (Suc ?e) := Some j)" by blast
    show ?thesis
      using True r1 r2 by (intro exI [of _ r2]) (auto simp: create_pair_def new_endpoint_def tcp_newSession_def on_loop_def
          put_ep_def put_pcb_def with_pair_def new_pcb_def new_type_def Let_def)
  qed
qed

text \<open>The pair linked to each other is a good addition to the stores.\<close>

lemma objects_wf_pair:
  assumes wf: "objects_wf d" and r: "reactor_wf r"
    "\<And>h. io_handles r h \<noteq> None \<longleftrightarrow> h = HSocket (d_fresh d) \<or> stream \<and> h = HEstab (Suc (d_fresh d)) \<or> io_handles (d_loop d) h \<noteq> None"
    and s: "pcb_so s = Some (d_fresh d)" "pcb_type s = new_type stream" "pcb_ok s"
    and ep: "ep_pcb ep = Some (Suc (d_fresh d))" "ep_type ep = new_type stream" "ep_bounded ep"
  shows "objects_wf (with_pair stream r ep s d)" (is "objects_wf ?d")
proof -
  let ?e = "d_fresh d"
  have t: "(\<exists>x. s = TcpPcb x) = stream" using s(2) by (cases s) (auto simp: new_type_def split: if_splits)
  have none: "d_eps d ?e = None" "d_pcbs d (Suc ?e) = None" using objects_wfD(4,5) [OF wf] by simp_all
  have "live ?d k \<longleftrightarrow> k = HSocket ?e \<or> stream \<and> k = HEstab (Suc ?e) \<or> live d k" for k
    using t none by (cases k) (auto simp: with_pair_def)
  then have "handles_wf ?d" using r objects_wfD(2) [OF wf] by (auto simp: handles_wf_def with_pair_def)
  moreover have "fresh_wf ?d" using wf by (simp add: objects_wf_def fresh_wf_def with_pair_def)
  moreover have "sessions_wf ?d"
    unfolding sessions_wf_def
  proof (intro conjI allI impI)
    fix e' ep'
    assume "d_eps ?d e' = Some ep'"
    then consider "e' = ?e" "ep' = ep" | "e' \<noteq> ?e" "d_eps d e' = Some ep'" by (auto simp: with_pair_def split: if_splits)
    then show "ep_bounded ep'" using ep objects_wfD(8) [OF wf] by cases auto
    from \<open>d_eps ?d e' = Some ep'\<close>
    consider "e' = ?e" "ep' = ep" | "e' \<noteq> ?e" "d_eps d e' = Some ep'" by (auto simp: with_pair_def split: if_splits)
    then show "\<exists>p s. ep_pcb ep' = Some p \<and> d_pcbs ?d p = Some s \<and> pcb_so s = Some e' \<and> pcb_type s = ep_type ep'"
    proof cases
      case 1
      then show ?thesis using s ep by (auto simp: with_pair_def)
    next
      case 2
      obtain p' s' where *: "ep_pcb ep' = Some p'" "d_pcbs d p' = Some s'" "pcb_so s' = Some e'" "pcb_type s' = ep_type ep'"
        using objects_wfD(6) [OF wf 2(2)] by blast
      then have "p' \<noteq> Suc ?e" using none by auto
      with * show ?thesis by (intro exI [of _ p'] exI [of _ s']) (simp add: with_pair_def)
    qed
  next
    fix p' s'
    assume a: "d_pcbs ?d p' = Some s'"
    then consider "p' = Suc ?e" "s' = s" | "p' \<noteq> Suc ?e" "d_pcbs d p' = Some s'" by (auto simp: with_pair_def split: if_splits)
    then have "pcb_ok s' \<and> listed (tcp_pcbs ?d) (udp_pcbs ?d) p' s' \<and>
        (\<exists>e ep. pcb_so s' = Some e \<and> d_eps ?d e = Some ep \<and> ep_pcb ep = Some p')"
    proof cases
      case 1
      then show ?thesis using s ep t by (cases s) (auto simp: with_pair_def)
    next
      case 2
      have "listed (tcp_pcbs ?d) (udp_pcbs ?d) p' s'"
        using 2(2) wf unfolding objects_wf_def by (cases s') (auto simp: with_pair_def dest!: sessions_wfD(4))
      moreover obtain e' ep' where "pcb_so s' = Some e'" "d_eps d e' = Some ep'" "ep_pcb ep' = Some p'"
        using objects_wfD(7) [OF wf 2(2)] by blast
      moreover from this have "e' \<noteq> ?e" using none by auto
      ultimately show ?thesis using objects_wfD(9) [OF wf 2(2)] by (auto simp: with_pair_def)
    qed
    then show "pcb_ok s'" "listed (tcp_pcbs ?d) (udp_pcbs ?d) p' s'"
      "\<exists>e ep. pcb_so s' = Some e \<and> d_eps ?d e = Some ep \<and> ep_pcb ep = Some p'" by blast+
  qed
  ultimately show ?thesis by (simp add: objects_wf_def)
qed

lemma objects_wf_chan:
  assumes "objects_wf d" "d_chans d c \<noteq> None"
  shows "objects_wf (put_chan c (Some ch) d)"
proof -
  have "live (put_chan c (Some ch) d) k = live d k" for k using assms(2) by (cases k) (auto simp: put_chan_def)
  then have "handles_wf (put_chan c (Some ch) d)"
    using assms(1) by (simp add: objects_wf_def handles_wf_def) (simp add: put_chan_def)
  moreover have "fresh_wf (put_chan c (Some ch) d)"
    using assms by (auto simp: objects_wf_def fresh_wf_def put_chan_def)
  moreover have "sessions_wf (put_chan c (Some ch) d)"
    using assms(1) by (simp add: objects_wf_def sessions_wf_def put_chan_def)
  ultimately show ?thesis by (simp add: objects_wf_def)
qed

lemma add_owned_objects:
  assumes wf: "objects_wf d" and h: "live d h" "h \<notin> set (loop_channels (d_loop d))"
  shows "\<exists>r. on_loop (add_owned h) d = Inr (d\<lparr>d_loop := r\<rparr>) \<and> objects_wf (d\<lparr>d_loop := r\<rparr>) \<and>
    loop_channels r = loop_channels (d_loop d) @ [h]"
proof -
  obtain i where i: "io_handles (d_loop d) h = Some i" using objects_wfD(2) [OF wf] h(1) by blast
  from add_owned_ok [OF objects_wfD(1) [OF wf] i h(2)] show ?thesis
    using objects_wf_loop [OF wf] i by (fastforce simp: on_loop_def)
qed

text \<open>The channel's new endpoint replaces the one it had.\<close>

lemma setSocket_ok:
  assumes wf: "objects_wf d" and c: "d_chans d c = Some ch" and link: "\<And>e. ch_socket ch = Some e \<Longrightarrow> d_eps d e \<noteq> None"
  shows "\<exists>d'. setSocket c e' d = Inr d' \<and> objects_wf d' \<and> d_chans d' = (d_chans d)(c := Some (ch\<lparr>ch_socket := Some e'\<rparr>)) \<and>
    rrChannels d' = rrChannels d \<and> sent_resps d' = sent_resps d \<and> d_fresh d' = d_fresh d \<and>
    (\<forall>k v. d_eps d' k = Some v \<longleftrightarrow> d_eps d k = Some v \<and> ch_socket ch \<noteq> Some k) \<and>
    (\<forall>k v. d_pcbs d' k = Some v \<longrightarrow> d_pcbs d k = Some v) \<and>
    set (loop_channels (d_loop d')) \<subseteq> set (loop_channels (d_loop d)) \<and>
    (\<forall>h. h \<in> set (loop_channels (d_loop d)) \<longrightarrow> live d' h \<longrightarrow> h \<in> set (loop_channels (d_loop d')))"
proof (cases "ch_socket ch")
  case None
  then show ?thesis using objects_wf_chan [OF wf, of c] c by (simp add: setSocket_def put_chan_def)
next
  case (Some e)
  let ?d1 = "put_chan c (Some (ch\<lparr>ch_socket := Some e'\<rparr>)) d"
  have wf1: "objects_wf ?d1" using objects_wf_chan [OF wf] c by simp
  obtain ep where e: "d_eps d e = Some ep" using link [OF Some] by blast
  obtain p where p: "ep_pcb ep = Some p" using objects_wfD(6) [OF wf e] by blast
  obtain r where r: "delete_endpoint e ?d1 = Inr (without_endpoint e p r ?d1)" "objects_wf (without_endpoint e p r ?d1)"
    "set (loop_channels r) = set (loop_channels (d_loop d)) - {HSocket e, HEstab p}"
    using delete_endpoint_ok [OF wf1, of e ep p] e p by (auto simp: put_chan_def)
  have "setSocket c e' d = Inr (without_endpoint e p r ?d1)" using c Some r(1) by (simp add: setSocket_def)
  moreover have "live (without_endpoint e p r ?d1) h \<Longrightarrow> h \<noteq> HSocket e \<and> h \<noteq> HEstab p" for h
    by (cases h) (auto simp: without_endpoint_def)
  ultimately show ?thesis
    using r(2,3) Some e p
    by (intro exI [of _ "without_endpoint e p r ?d1"] conjI allI impI) (auto simp: without_endpoint_def put_chan_def split: if_splits)
qed

lemma daemon_wf_socket:
  assumes wf: "daemon_wf d" and o': "objects_wf d'" and c: "d_chans d c = Some ch"
    and ch: "d_chans d' = (d_chans d)(c := Some (ch\<lparr>ch_socket := Some e\<rparr>))" and rr: "rrChannels d' = rrChannels d"
    and eps: "\<And>k v. d_eps d' k = Some v \<longleftrightarrow> k = e \<and> v = ep \<or> k \<noteq> e \<and> d_eps d k = Some v \<and> ch_socket ch \<noteq> Some k"
    and new: "d_eps d e = None" "ep_rrChannel ep = Some c" "ep_onAsyncNewPacket ep = None" "ep_pcb ep = Some p"
    and pcbs: "\<And>k v. d_pcbs d' k = Some v \<Longrightarrow> k = p \<and> pcb_cb v = None \<or> k \<noteq> p \<and> d_pcbs d k = Some v"
    and loop: "\<And>h. h \<in> set (loop_channels (d_loop d)) \<Longrightarrow> live d' h \<Longrightarrow> h \<in> set (loop_channels (d_loop d'))"
      "HSocket e \<in> set (loop_channels (d_loop d'))"
  shows "daemon_wf d'"
proof -
  have "channels_wf d'"
    unfolding channels_wf_def rr
  proof (intro conjI allI impI)
    show "distinct (rrChannels d)" using daemon_wfD(5) [OF wf] .
    show "(k \<in> set (rrChannels d)) = (d_chans d' k \<noteq> None)" for k using daemon_wfD(6) [OF wf, of k] c by (simp add: ch)
    show "\<exists>v. d_eps d' k = Some v \<and> ep_rrChannel v = Some i" if a: "d_chans d' i = Some x" "ch_socket x = Some k" for i x k
    proof (cases "i = c")
      case True
      then show ?thesis using a ch new eps by auto
    next
      case False
      then have i: "d_chans d i = Some x" using a ch by simp
      obtain v where v: "d_eps d k = Some v" "ep_rrChannel v = Some i" using daemon_wfD(7) [OF wf i a(2)] by blast
      have "ch_socket ch \<noteq> Some k" using daemon_wfD(7) [OF wf c, of k] v False by auto
      then show ?thesis using v eps new by auto
    qed
    show "\<exists>i x. ep_rrChannel v = Some i \<and> d_chans d' i = Some x \<and> ch_socket x = Some k" if k: "d_eps d' k = Some v" for k v
    proof (cases "k = e")
      case True
      then show ?thesis using k eps new ch by auto
    next
      case False
      then have v: "d_eps d k = Some v" "ch_socket ch \<noteq> Some k" using k eps by blast+
      obtain i x where "ep_rrChannel v = Some i" "d_chans d i = Some x" "ch_socket x = Some k"
        using daemon_wfD(8) [OF wf v(1)] by blast
      moreover from this have "i \<noteq> c" using c v(2) by auto
      ultimately show ?thesis using ch by auto
    qed
  qed
  moreover have "callbacks_wf d'"
    unfolding callbacks_wf_def
  proof (intro conjI allI impI)
    fix k v cb
    assume a: "d_eps d' k = Some v" "ep_onAsyncNewPacket v = Some cb"
    then have "d_eps d k = Some v" using eps new(3) by auto
    then show "ep_rrChannel v = Some (cb_chan cb)" using daemon_wfD(9) [OF wf] a(2) by blast
  next
    fix k v q s x
    assume a: "d_eps d' k = Some v" "ep_pcb v = Some q" "d_pcbs d' q = Some s" "pcb_cb s = Some x"
    then have q: "q \<noteq> p" "d_pcbs d q = Some s" using pcbs [OF a(3)] by auto
    then have "d_eps d k = Some v" using a(1,2) eps new(4) by auto
    then show "ep_rrChannel v = Some x" using daemon_wfD(10) [OF wf _ a(2) q(2) a(4)] by blast
  qed
  moreover have "registered d'"
    using daemon_wfD(11,12) [OF wf] loop eps by (auto simp: registered_def hasChannel_def)
  ultimately show ?thesis using o' by (simp add: daemon_wf_def)
qed

definition fresh_ep :: "nat \<Rightarrow> nat \<Rightarrow> bool \<Rightarrow> bool \<Rightarrow> Endpoint" where
  "fresh_ep c p stream nb = setAgentChannel c (setSession p (Endpoint_new (new_type stream) nb))"

lemma fresh_ep_simps [simp]:
  "ep_rrChannel (fresh_ep c p stream nb) = Some c" "ep_pcb (fresh_ep c p stream nb) = Some p"
  "ep_type (fresh_ep c p stream nb) = new_type stream" "ep_onAsyncNewPacket (fresh_ep c p stream nb) = None"
  "ep_recvQ (fresh_ep c p stream nb) = []" "ep_nonblocking (fresh_ep c p stream nb) = nb"
  by (simp_all add: fresh_ep_def setAgentChannel_def setSession_def Endpoint_new_def)

lemma new_pcb_linked [simp]:
  "pcb_so (pcb_setSocket e (new_pcb stream a)) = Some e" "pcb_type (pcb_setSocket e (new_pcb stream a)) = new_type stream"
  "pcb_cb (pcb_setSocket e (new_pcb stream a)) = None" "pcb_ok (pcb_setSocket e (new_pcb stream a))"
  "pcb_estab_handle p (pcb_setSocket e (new_pcb stream a)) = (if stream then Some (HEstab p) else None)"
  by (simp_all add: new_pcb_def new_type_def TcpSession_new_def Session.defs Session_new_def tcp_wf_def state_order)

text \<open>Registering the endpoint's handle and, for TCP, the session's.\<close>

lemma register_pair:
  assumes wf: "objects_wf d" and e: "d_eps d e = Some ep" "ep_pcb ep = Some p" and s: "d_pcbs d p = Some s"
    and h: "pcb_estab_handle p s = (if stream then Some (HEstab p) else None)"
    and n: "HSocket e \<notin> set (loop_channels (d_loop d))" "HEstab p \<notin> set (loop_channels (d_loop d))"
  shows "\<exists>r. bindr (on_loop (add_owned (HSocket e)) d) (\<lambda>d5.
      case pcb_estab_handle p s of None \<Rightarrow> Inr d5 | Some h \<Rightarrow> on_loop (add_owned h) d5) = Inr (d\<lparr>d_loop := r\<rparr>) \<and>
    objects_wf (d\<lparr>d_loop := r\<rparr>) \<and> set (loop_channels (d_loop d)) \<subseteq> set (loop_channels r) \<and> HSocket e \<in> set (loop_channels r)"
proof -
  obtain r where r: "on_loop (add_owned (HSocket e)) d = Inr (d\<lparr>d_loop := r\<rparr>)" "objects_wf (d\<lparr>d_loop := r\<rparr>)"
    "loop_channels r = loop_channels (d_loop d) @ [HSocket e]"
    using add_owned_objects [OF wf _ n(1)] e by auto
  show ?thesis
  proof (cases stream)
    case False
    then show ?thesis using r h by (intro exI [of _ r]) auto
  next
    case True
    then have "\<exists>t. s = TcpPcb t" using h by (cases s) auto
    then have "live (d\<lparr>d_loop := r\<rparr>) (HEstab p)" using s by auto
    from add_owned_objects [OF r(2) this] n(2) r(3)
    obtain r' where r': "on_loop (add_owned (HEstab p)) (d\<lparr>d_loop := r\<rparr>) = Inr (d\<lparr>d_loop := r'\<rparr>)"
      "objects_wf (d\<lparr>d_loop := r'\<rparr>)" "loop_channels r' = loop_channels r @ [HEstab p]" by auto
    then show ?thesis using r True h by (intro exI [of _ r']) auto
  qed
qed

text \<open>Steps 1 and 2: everything created and linked, the old endpoint gone.\<close>

lemma link_pair:
  assumes wf: "daemon_wf d" and env: "env_ok E d" and c: "d_chans d c = Some ch" and e: "e = d_fresh d"
    and defs: "s = pcb_setSocket e (new_pcb stream (stack_addr d))" "ep = fresh_ep c (Suc e) stream nb"
  shows "\<exists>d2 d4. create_pair E stream nb d = Inr (e, Suc e, d2) \<and> d_pcbs d2 (Suc e) = Some (new_pcb stream (stack_addr d)) \<and>
    d_eps d2 e = Some (Endpoint_new (new_type stream) nb) \<and>
    setSocket c e (put_ep e (Some ep) (put_pcb (Suc e) (Some s) d2)) = Inr d4 \<and> objects_wf d4 \<and>
    d_chans d4 = (d_chans d)(c := Some (ch\<lparr>ch_socket := Some e\<rparr>)) \<and> rrChannels d4 = rrChannels d \<and>
    sent_resps d4 = sent_resps d \<and>
    (\<forall>k v. d_eps d4 k = Some v \<longleftrightarrow> k = e \<and> v = ep \<or> k \<noteq> e \<and> d_eps d k = Some v \<and> ch_socket ch \<noteq> Some k) \<and>
    (\<forall>k v. d_pcbs d4 k = Some v \<longrightarrow> k = Suc e \<and> v = s \<or> k \<noteq> Suc e \<and> d_pcbs d k = Some v) \<and>
    set (loop_channels (d_loop d4)) \<subseteq> set (loop_channels (d_loop d)) \<and>
    (\<forall>h. h \<in> set (loop_channels (d_loop d)) \<longrightarrow> live d4 h \<longrightarrow> h \<in> set (loop_channels (d_loop d4)))"
proof -
  note ow = daemon_wfD(1) [OF wf]
  let ?d2 = "\<lambda>r. with_pair stream r (Endpoint_new (new_type stream) nb) (new_pcb stream (stack_addr d)) d"
  obtain r where r: "create_pair E stream nb d = Inr (e, Suc e, ?d2 r)" "reactor_wf r" "loop_channels r = loop_channels (d_loop d)"
    "\<And>h. io_handles r h \<noteq> None \<longleftrightarrow> h = HSocket e \<or> stream \<and> h = HEstab (Suc e) \<or> io_handles (d_loop d) h \<noteq> None"
    using create_pair_ok [OF ow env] unfolding e by blast
  let ?d3 = "with_pair stream r ep s d"
  have d3: "put_ep e (Some ep) (put_pcb (Suc e) (Some s) (?d2 r)) = ?d3"
    by (simp add: put_ep_def put_pcb_def with_pair_def e)
  have wf3: "objects_wf ?d3"
    by (rule objects_wf_pair [OF ow r(2) r(4) [unfolded e]]) (simp_all add: e defs, simp add: ep_bounded_def)
  have none: "d_eps d e = None" using objects_wfD(4) [OF ow] by (simp add: e)
  have link: "d_eps ?d3 k \<noteq> None" if "ch_socket ch = Some k" for k
    using daemon_wfD(7) [OF wf c that] by (auto simp: with_pair_def)
  have old: "ch_socket ch \<noteq> Some e" using daemon_wfD(7) [OF wf c, of e] none by auto
  have c3: "d_chans ?d3 c = Some ch" using c by (simp add: with_pair_def)
  obtain d4 where d4: "setSocket c e ?d3 = Inr d4" "objects_wf d4"
    "d_chans d4 = (d_chans d)(c := Some (ch\<lparr>ch_socket := Some e\<rparr>))" "rrChannels d4 = rrChannels d" "sent_resps d4 = sent_resps d"
    "\<And>k v. d_eps d4 k = Some v \<longleftrightarrow> d_eps ?d3 k = Some v \<and> ch_socket ch \<noteq> Some k"
    "\<And>k v. d_pcbs d4 k = Some v \<Longrightarrow> d_pcbs ?d3 k = Some v"
    "set (loop_channels (d_loop d4)) \<subseteq> set (loop_channels (d_loop d))"
    "\<And>h. h \<in> set (loop_channels (d_loop d)) \<Longrightarrow> live d4 h \<Longrightarrow> h \<in> set (loop_channels (d_loop d4))"
    using setSocket_ok [OF wf3 c3 link, of e] r(3) by (auto simp: with_pair_def)
  have "d_eps d4 k = Some v \<longleftrightarrow> k = e \<and> v = ep \<or> k \<noteq> e \<and> d_eps d k = Some v \<and> ch_socket ch \<noteq> Some k" for k v
    using d4(6) [of k v] old by (auto simp: with_pair_def e)
  moreover have "k = Suc e \<and> v = s \<or> k \<noteq> Suc e \<and> d_pcbs d k = Some v" if "d_pcbs d4 k = Some v" for k v
    using d4(7) [OF that] by (auto simp: with_pair_def e split: if_splits)
  ultimately show ?thesis
    using r(1) d3 d4(1-5,8,9) by (intro exI [of _ "?d2 r"] exI [of _ d4]) (simp add: with_pair_def e)
qed

lemma socketCall_ok:
  assumes wf: "daemon_wf d" and env: "env_ok E d" and c: "d_chans d c = Some ch"
    and t: "type AND SOCK_STREAM_BIT \<noteq> 0 \<or> type AND SOCK_DGRAM_BIT \<noteq> 0"
    and defs: "stream = (type AND SOCK_STREAM_BIT \<noteq> 0)" "nb = (type AND SOCK_NONBLOCK \<noteq> 0)" "e = d_fresh d"
  shows "\<exists>d'. socketCall E c AF_INET type resp d = Inr (answer_ok (RetSocket (plain_ret 0)) resp, d') \<and> daemon_wf d' \<and>
    sent_resps d' = sent_resps d \<and> d_chans d' = (d_chans d)(c := Some (ch\<lparr>ch_socket := Some e\<rparr>)) \<and>
    d_eps d' e = Some (fresh_ep c (Suc e) stream nb) \<and>
    (\<forall>h. h \<in> set (loop_channels (d_loop d)) \<longrightarrow> live d' h \<longrightarrow> h \<in> set (loop_channels (d_loop d')))"
proof -
  note ow = daemon_wfD(1) [OF wf]
  let ?s = "pcb_setSocket e (new_pcb stream (stack_addr d))" and ?ep = "fresh_ep c (Suc e) stream nb"
  obtain d2 d4 where d2: "create_pair E stream nb d = Inr (e, Suc e, d2)" "d_pcbs d2 (Suc e) = Some (new_pcb stream (stack_addr d))"
    "d_eps d2 e = Some (Endpoint_new (new_type stream) nb)"
    and d4: "setSocket c e (put_ep e (Some ?ep) (put_pcb (Suc e) (Some ?s) d2)) = Inr d4" "objects_wf d4"
    "d_chans d4 = (d_chans d)(c := Some (ch\<lparr>ch_socket := Some e\<rparr>))" "rrChannels d4 = rrChannels d" "sent_resps d4 = sent_resps d"
    "\<And>k v. d_eps d4 k = Some v \<longleftrightarrow> k = e \<and> v = ?ep \<or> k \<noteq> e \<and> d_eps d k = Some v \<and> ch_socket ch \<noteq> Some k"
    "\<And>k v. d_pcbs d4 k = Some v \<Longrightarrow> k = Suc e \<and> v = ?s \<or> k \<noteq> Suc e \<and> d_pcbs d k = Some v"
    "set (loop_channels (d_loop d4)) \<subseteq> set (loop_channels (d_loop d))"
    "\<And>h. h \<in> set (loop_channels (d_loop d)) \<Longrightarrow> live d4 h \<Longrightarrow> h \<in> set (loop_channels (d_loop d4))"
    using link_pair [OF wf env c defs(3) refl refl, of stream nb] by blast
  have none: "d_eps d e = None" "d_pcbs d (Suc e) = None" using objects_wfD(4,5) [OF ow] by (simp_all add: defs(3))
  have e4: "d_eps d4 e = Some ?ep" using d4(6) by simp
  have p4: "d_pcbs d4 (Suc e) = Some ?s" using objects_wfD(6) [OF d4(2) e4] d4(7) [of "Suc e"] none by auto
  have nl: "HSocket e \<notin> set (loop_channels (d_loop d4))" "HEstab (Suc e) \<notin> set (loop_channels (d_loop d4))"
    using not_hasChannel [OF ow, of "HSocket e"] not_hasChannel [OF ow, of "HEstab (Suc e)"] none d4(8) by auto
  obtain r5 where r5: "bindr (on_loop (add_owned (HSocket e)) d4) (\<lambda>d5.
      case pcb_estab_handle (Suc e) ?s of None \<Rightarrow> Inr d5 | Some h \<Rightarrow> on_loop (add_owned h) d5) = Inr (d4\<lparr>d_loop := r5\<rparr>)"
    "objects_wf (d4\<lparr>d_loop := r5\<rparr>)" "set (loop_channels (d_loop d4)) \<subseteq> set (loop_channels r5)" "HSocket e \<in> set (loop_channels r5)"
    using register_pair [OF d4(2) e4 _ p4] nl by auto
  have "socketCall E c AF_INET type resp d = Inr (answer_ok (RetSocket (plain_ret 0)) resp, d4\<lparr>d_loop := r5\<rparr>)"
    using r5(1) d2 d4(1) t unfolding defs(1,2) fresh_ep_def
    by (auto simp: socketCall_def bindr_eq_Inr Let_def)
  moreover have kept: "h \<in> set (loop_channels (d_loop d)) \<Longrightarrow> live (d4\<lparr>d_loop := r5\<rparr>) h \<Longrightarrow>
      h \<in> set (loop_channels (d_loop (d4\<lparr>d_loop := r5\<rparr>)))" for h
    using d4(9) [of h] live_cong [of "d4\<lparr>d_loop := r5\<rparr>" d4 h] r5(3) by auto
  moreover have "daemon_wf (d4\<lparr>d_loop := r5\<rparr>)"
  proof (rule daemon_wf_socket [OF wf r5(2) c, where e = e and ep = ?ep and p = "Suc e"])
    show "k = Suc e \<and> pcb_cb v = None \<or> k \<noteq> Suc e \<and> d_pcbs d k = Some v" if "d_pcbs (d4\<lparr>d_loop := r5\<rparr>) k = Some v" for k v
      using d4(7) [of k v] that by auto
  qed (use d4(3,4,6) none r5(4) kept in simp_all)
  ultimately show ?thesis using d4(3,5) e4 by (intro exI [of _ "d4\<lparr>d_loop := r5\<rparr>"]) simp
qed

end
