(* ===== verification/Daemon_Steps.thy ===== *)
theory Daemon_Steps
  imports Daemon_Serve
begin

section \<open>The daemon as a whole\<close>

text \<open>
  The remaining handlers and callbacks keep the ownership invariant; \<open>daemon_step\<close> collects
  what the threads do, and its reachable states are the states of a running daemon.
\<close>

subsection \<open>Changes of one object\<close>

definition same_ep :: "Endpoint \<Rightarrow> Endpoint \<Rightarrow> bool" where
  "same_ep ep ep' \<longleftrightarrow> ep_type ep' = ep_type ep \<and> ep_rrChannel ep' = ep_rrChannel ep \<and> ep_pcb ep' = ep_pcb ep \<and>
     (ep_bounded ep \<longrightarrow> ep_bounded ep') \<and>
     (ep_onAsyncNewPacket ep' = ep_onAsyncNewPacket ep \<or>
      (\<exists>cb. ep_onAsyncNewPacket ep' = Some cb \<and> ep_rrChannel ep = Some (cb_chan cb)))"

lemma objects_wf_put_ep:
  assumes wf: "objects_wf d" and e: "d_eps d e = Some ep" and s: "same_ep ep ep'"
  shows "objects_wf (put_ep e (Some ep') d)" (is "objects_wf ?d")
proof -
  have "live ?d k = live d k" for k using e by (cases k) (auto simp: put_ep_def)
  then have "handles_wf ?d" using wf by (simp add: objects_wf_def handles_wf_def) (simp add: put_ep_def)
  moreover have "fresh_wf ?d" using wf e by (auto simp: objects_wf_def fresh_wf_def put_ep_def)
  moreover have "sessions_wf ?d"
    unfolding sessions_wf_def
  proof (intro conjI allI impI)
    fix k v
    assume "d_eps ?d k = Some v"
    then obtain v0 where v0: "d_eps d k = Some v0" "ep_pcb v = ep_pcb v0" "ep_type v = ep_type v0" "ep_bounded v0 \<longrightarrow> ep_bounded v"
      using e s by (cases "k = e") (auto simp: put_ep_def same_ep_def)
    show "ep_bounded v" using v0 objects_wfD(8) [OF wf v0(1)] by blast
    show "\<exists>p s. ep_pcb v = Some p \<and> d_pcbs ?d p = Some s \<and> pcb_so s = Some k \<and> pcb_type s = ep_type v"
      using objects_wfD(6) [OF wf v0(1)] v0 by (simp add: put_ep_def)
  next
    fix p s'
    assume "d_pcbs ?d p = Some s'"
    then have p: "d_pcbs d p = Some s'" by (simp add: put_ep_def)
    show "pcb_ok s'" using objects_wfD(9) [OF wf p] .
    show "listed (tcp_pcbs ?d) (udp_pcbs ?d) p s'"
      using wf sessions_wfD(4) [OF _ p] by (simp add: objects_wf_def put_ep_def)
    show "\<exists>e ep. pcb_so s' = Some e \<and> d_eps ?d e = Some ep \<and> ep_pcb ep = Some p"
      using objects_wfD(7) [OF wf p] e s by (auto simp: put_ep_def same_ep_def)
  qed
  ultimately show ?thesis by (simp add: objects_wf_def)
qed

lemma daemon_wf_put_ep:
  assumes wf: "daemon_wf d" and e: "d_eps d e = Some ep" and s: "same_ep ep ep'"
  shows "daemon_wf (put_ep e (Some ep') d)" (is "daemon_wf ?d")
proof -
  have prev: "\<exists>v0. d_eps d k = Some v0 \<and> ep_rrChannel v = ep_rrChannel v0 \<and> ep_pcb v = ep_pcb v0" if "d_eps ?d k = Some v" for k v
    using that e s by (cases "k = e") (auto simp: put_ep_def same_ep_def)
  have "channels_wf ?d"
    unfolding channels_wf_def
  proof (intro conjI allI impI)
    show "distinct (rrChannels ?d)" using daemon_wfD(5) [OF wf] by (simp add: put_ep_def)
    show "(c \<in> set (rrChannels ?d)) = (d_chans ?d c \<noteq> None)" for c using daemon_wfD(6) [OF wf] by (simp add: put_ep_def)
    show "\<exists>ep. d_eps ?d k = Some ep \<and> ep_rrChannel ep = Some c" if a: "d_chans ?d c = Some ch" "ch_socket ch = Some k" for c ch k
      using daemon_wfD(7) [OF wf, of c ch k] a e s by (auto simp: put_ep_def same_ep_def)
    show "\<exists>c ch. ep_rrChannel v = Some c \<and> d_chans ?d c = Some ch \<and> ch_socket ch = Some k" if a: "d_eps ?d k = Some v" for k v
      using prev [OF a] daemon_wfD(8) [OF wf] by (fastforce simp: put_ep_def)
  qed
  moreover have "callbacks_wf ?d"
    unfolding callbacks_wf_def
  proof (intro conjI allI impI)
    show "ep_rrChannel v = Some (cb_chan cb)" if a: "d_eps ?d k = Some v" "ep_onAsyncNewPacket v = Some cb" for k v cb
      using a e s daemon_wfD(9) [OF wf] by (cases "k = e") (auto simp: put_ep_def same_ep_def)
    show "ep_rrChannel v = Some x"
      if a: "d_eps ?d k = Some v" "ep_pcb v = Some p" "d_pcbs ?d p = Some t" "pcb_cb t = Some x" for k v p t x
    proof -
      obtain v0 where "d_eps d k = Some v0" "ep_rrChannel v = ep_rrChannel v0" "ep_pcb v0 = Some p"
        using prev [OF a(1)] a(2) by auto
      then show ?thesis using daemon_wfD(10) [OF wf, of k v0 p t x] a(3,4) by (simp add: put_ep_def)
    qed
  qed
  moreover have "registered ?d" using daemon_wfD(4) [OF wf] e by (auto simp: registered_def put_ep_def)
  ultimately show ?thesis using objects_wf_put_ep [OF daemon_wfD(1) [OF wf] e s] by (simp add: daemon_wf_def)
qed

text \<open>A session changes its own fields, or gets a callback for its own channel.\<close>

lemma daemon_wf_put_pcb:
  assumes wf: "daemon_wf d" and p: "d_pcbs d p = Some s"
    and s: "pcb_so s' = pcb_so s" "pcb_type s' = pcb_type s" "pcb_ok s \<Longrightarrow> pcb_ok s'"
    and cb: "\<And>x e ep. pcb_cb s' = Some x \<Longrightarrow> pcb_so s = Some e \<Longrightarrow> d_eps d e = Some ep \<Longrightarrow> pcb_cb s = Some x \<or> ep_rrChannel ep = Some x"
  shows "daemon_wf (put_pcb p (Some s') d)" (is "daemon_wf ?d")
proof -
  note ow = daemon_wfD(1) [OF wf]
  have tcp: "(\<exists>t. s' = TcpPcb t) = (\<exists>t. s = TcpPcb t)" using s(2) by (cases s; cases s') auto
  have "live ?d k = live d k" for k using p tcp by (cases k) (auto simp: put_pcb_def)
  then have "handles_wf ?d" using ow by (simp add: objects_wf_def handles_wf_def) (simp add: put_pcb_def)
  moreover have "fresh_wf ?d" using ow p by (auto simp: objects_wf_def fresh_wf_def put_pcb_def)
  moreover have "sessions_wf ?d"
    unfolding sessions_wf_def
  proof (intro conjI allI impI)
    fix k v
    assume "d_eps ?d k = Some v"
    then have k: "d_eps d k = Some v" by (simp add: put_pcb_def)
    show "ep_bounded v" using objects_wfD(8) [OF ow k] .
    show "\<exists>q t. ep_pcb v = Some q \<and> d_pcbs ?d q = Some t \<and> pcb_so t = Some k \<and> pcb_type t = ep_type v"
      using objects_wfD(6) [OF ow k] p s by (auto simp: put_pcb_def)
  next
    fix q t
    assume "d_pcbs ?d q = Some t"
    then obtain t0 where t0: "d_pcbs d q = Some t0" "pcb_so t = pcb_so t0" "pcb_type t = pcb_type t0" "pcb_ok t0 \<longrightarrow> pcb_ok t"
      using p s by (cases "q = p") (auto simp: put_pcb_def)
    show "pcb_ok t" using t0 objects_wfD(9) [OF ow t0(1)] by blast
    have "listed (tcp_pcbs d) (udp_pcbs d) q t0" using ow sessions_wfD(4) [OF _ t0(1)] by (simp add: objects_wf_def)
    then show "listed (tcp_pcbs ?d) (udp_pcbs ?d) q t" using t0(3) by (cases t; cases t0) (auto simp: put_pcb_def)
    show "\<exists>e ep. pcb_so t = Some e \<and> d_eps ?d e = Some ep \<and> ep_pcb ep = Some q"
      using objects_wfD(7) [OF ow t0(1)] t0(2) by (simp add: put_pcb_def)
  qed
  moreover have "channels_wf ?d" using daemon_wfD(2) [OF wf] by (simp add: channels_wf_def put_pcb_def)
  moreover have "callbacks_wf ?d"
    unfolding callbacks_wf_def
  proof (intro conjI allI impI)
    show "ep_rrChannel v = Some (cb_chan c)" if a: "d_eps ?d k = Some v" "ep_onAsyncNewPacket v = Some c" for k v c
      using a daemon_wfD(9) [OF wf] by (simp add: put_pcb_def)
    fix k v q t x
    assume a: "d_eps ?d k = Some v" "ep_pcb v = Some q" "d_pcbs ?d q = Some t" "pcb_cb t = Some x"
    have k: "d_eps d k = Some v" using a(1) by (simp add: put_pcb_def)
    show "ep_rrChannel v = Some x"
    proof (cases "q = p")
      case True
      then have "pcb_so s = Some k" using objects_wfD(6) [OF ow k] a(2) p by auto
      then show ?thesis using cb [OF _ _ k, of x] daemon_wfD(10) [OF wf k, of p s x] a True p by (auto simp: put_pcb_def)
    next
      case False
      then show ?thesis using daemon_wfD(10) [OF wf k a(2) _ a(4)] a(3) by (simp add: put_pcb_def)
    qed
  qed
  moreover have "registered ?d" using daemon_wfD(4) [OF wf] by (simp add: registered_def put_pcb_def)
  ultimately show ?thesis by (simp add: daemon_wf_def objects_wf_def)
qed

text \<open>Taking the handle of a channel or of a session out of the loop.\<close>

definition same_stores :: "daemon \<Rightarrow> daemon \<Rightarrow> bool" where
  "same_stores d d' \<longleftrightarrow> d_chans d' = d_chans d \<and> d_eps d' = d_eps d \<and> d_pcbs d' = d_pcbs d"

lemma unregister_ok:
  assumes wf: "daemon_wf d" and h: "live d h" "h \<noteq> HListener" "\<And>e. h \<noteq> HSocket e"
  shows "\<exists>r. on_loop (unregisterSelf h) d = Inr (d\<lparr>d_loop := r\<rparr>) \<and> daemon_wf (d\<lparr>d_loop := r\<rparr>)"
proof -
  note ow = daemon_wfD(1) [OF wf]
  obtain i where i: "io_handles (d_loop d) h = Some i" using objects_wfD(2) [OF ow] h(1) by blast
  obtain r where r: "unregisterSelf h (d_loop d) = Inr r" "reactor_wf r" "loop_channels r = remove1 h (loop_channels (d_loop d))"
    "io_handles r = (io_handles (d_loop d))(h := Some (i\<lparr>ownerLoop := False\<rparr>))"
    using unregisterSelf_ok [OF objects_wfD(1) [OF ow] i] by blast
  have "objects_wf (d\<lparr>d_loop := r\<rparr>)" using objects_wf_loop [OF ow r(2)] r(4) i by simp
  moreover have "channels_wf (d\<lparr>d_loop := r\<rparr>)" using daemon_wfD(2) [OF wf] by (simp add: channels_wf_def)
  moreover have "callbacks_wf (d\<lparr>d_loop := r\<rparr>)" using daemon_wfD(3) [OF wf] by (simp add: callbacks_wf_def)
  moreover have "registered (d\<lparr>d_loop := r\<rparr>)"
    using daemon_wfD(4) [OF wf] h(2,3) r(3) reactor_wfD(1) [OF objects_wfD(1) [OF ow]]
    by (auto simp: registered_def hasChannel_def in_set_remove1)
  ultimately show ?thesis using r(1) by (intro exI [of _ r]) (simp add: on_loop_def daemon_wf_def)
qed

lemma chan_write_wf:
  assumes wf: "daemon_wf d" and w: "chan_write E c resp d = Inr d'"
  shows "daemon_wf d' \<and> same_stores d d' \<and> (sent_resps d' = sent_resps d @ [(c, resp)] \<or> nwritten E resp = -1 \<and> sent_resps d' = sent_resps d)"
proof (cases "nwritten E resp = -1")
  case True
  then have u: "on_loop (unregisterSelf (HChannel c)) d = Inr d'" and "live d (HChannel c)"
    using w by (auto simp: chan_write_def bindr_eq_Inr)
  from unregister_ok [OF wf this(2)] u True show ?thesis by (auto simp: same_stores_def)
next
  case False
  then have "d' = d\<lparr>sent_resps := sent_resps d @ [(c, resp)]\<rparr>" using w by (auto simp: chan_write_def bindr_eq_Inr)
  moreover from this have "daemon_wf d' = daemon_wf d" by (intro daemon_wf_cong) (simp add: same_objects_def)
  ultimately show ?thesis using wf by (simp add: same_stores_def)
qed

text \<open>A response that is complete and not too long is written.\<close>

lemma chan_write_returns:
  assumes wf: "daemon_wf d" and "d_chans d c \<noteq> None" "IsInitialized resp" "byte_size E resp \<le> RPC_MESSAGE_MAX_SIZE"
  shows "\<exists>d'. chan_write E c resp d = Inr d'"
  using assms unregister_ok [OF wf, of "HChannel c"] by (auto simp: chan_write_def)

subsection \<open>Requests\<close>

lemma wf_chan_socket:
  assumes wf: "daemon_wf d" and c: "d_chans d c = Some ch"
  shows "chan_socket c d = (case ch_socket ch of None \<Rightarrow> Inl NullDeref | Some e \<Rightarrow> Inr (e, the (d_eps d e)))"
  using daemon_wfD(7) [OF wf c] c by (auto simp: chan_socket_def split: option.splits)

lemma chan_socketD:
  assumes wf: "daemon_wf d" and s: "chan_socket c d = Inr (e, ep)"
  shows "d_eps d e = Some ep" "ep_rrChannel ep = Some c" "d_chans d c \<noteq> None"
proof -
  obtain ch where ch: "d_chans d c = Some ch" "ch_socket ch = Some e" "d_eps d e = Some ep"
    using s by (auto simp: chan_socket_def bindr_eq_Inr)
  then show "d_eps d e = Some ep" "ep_rrChannel ep = Some c" "d_chans d c \<noteq> None"
    using daemon_wfD(7) [OF wf ch(1,2)] by auto
qed

lemma ep_sessionD:
  assumes wf: "daemon_wf d" and e: "d_eps d e = Some ep" and s: "ep_session ep d = Inr (p, s)"
  shows "ep_pcb ep = Some p" "d_pcbs d p = Some s" "pcb_so s = Some e" "pcb_type s = ep_type ep"
proof -
  have p: "ep_pcb ep = Some p" "d_pcbs d p = Some s" using s by (auto simp: ep_session_def bindr_eq_Inr)
  then show "ep_pcb ep = Some p" "d_pcbs d p = Some s" "pcb_so s = Some e" "pcb_type s = ep_type ep"
    using objects_wfD(6) [OF daemon_wfD(1) [OF wf] e] by auto
qed

lemma wf_ep_session:
  assumes wf: "daemon_wf d" and e: "d_eps d e = Some ep"
  shows "\<exists>p s. ep_session ep d = Inr (p, s)"
  using objects_wfD(6) [OF daemon_wfD(1) [OF wf] e] by (auto simp: ep_session_def)

text \<open>Storing a session back after one of its operations.\<close>

lemma daemon_wf_session_op:
  assumes wf: "daemon_wf d" and p: "d_pcbs d p = Some s0" and m: "net.more d1 = net.more d"
    and s0: "pcb_so s = pcb_so s0" "pcb_type s = pcb_type s0" "pcb_ok s0 \<Longrightarrow> pcb_ok s"
    and cb: "\<And>x e ep. pcb_cb s = Some x \<Longrightarrow> pcb_so s0 = Some e \<Longrightarrow> d_eps d e = Some ep \<Longrightarrow> pcb_cb s0 = Some x \<or> ep_rrChannel ep = Some x"
    and s: "same_pcb s s'"
  shows "daemon_wf (put_pcb p (Some s') d1)"
proof -
  have wf1: "daemon_wf d1" using daemon_wf_cong [OF same_objects_more [OF m]] wf by simp
  note eqs = daemon_more [OF m]
  show ?thesis
  proof (rule daemon_wf_put_pcb [OF wf1, of p s0])
    show "pcb_cb s0 = Some x \<or> ep_rrChannel ep = Some x"
      if "pcb_cb s' = Some x" "pcb_so s0 = Some e" "d_eps d1 e = Some ep" for x e ep
      using cb [of x e ep] that s by (simp add: eqs same_pcb_def)
  qed (use p s0 s in \<open>simp_all add: eqs same_pcb_def\<close>)
qed

lemma same_ep_queue:
  "ep_bounded (ep\<lparr>ep_recvQ := q\<rparr>) \<Longrightarrow> same_ep ep (ep\<lparr>ep_recvQ := q\<rparr>)"
  by (simp add: same_ep_def)

lemma same_ep_take: "try_takeFromRecvQ ep = (y, ep') \<Longrightarrow> same_ep ep ep'"
  by (auto simp: try_takeFromRecvQ_def same_ep_def ep_bounded_def split: list.splits)

lemma same_ep_take_wait: "takeFromRecvQ ep = Inr (y, ep') \<Longrightarrow> same_ep ep ep'"
  by (auto simp: takeFromRecvQ_def same_ep_def ep_bounded_def split: list.splits)

lemma same_ep_put: "same_ep ep (putToRecvQ pk ep)"
  using ep_bounded_put [of ep pk] by (auto simp: same_ep_def putToRecvQ_def enqueue_def markSChannelAsReadable_def)

lemma same_ep_flags: "same_ep ep (setWaiting b ep)" "same_ep ep (drain_pipe ep)"
  by (auto simp: same_ep_def setWaiting_def drain_pipe_def ep_bounded_def)

lemma same_ep_wait: "ep_rrChannel ep = Some (cb_chan cb) \<Longrightarrow> same_ep ep (setWaiting True (setOnAsyncNewPacketCB cb ep))"
  by (simp add: same_ep_def setWaiting_def setOnAsyncNewPacketCB_def ep_bounded_def)

text \<open>What every handler keeps.\<close>

definition served :: "daemon \<Rightarrow> nat \<Rightarrow> daemon \<Rightarrow> bool" where
  "served d c d' \<longleftrightarrow> daemon_wf d' \<and> sent_resps d' = sent_resps d \<and> d_chans d' c \<noteq> None \<and>
     (\<forall>x. HChannel x \<in> set (loop_channels (d_loop d)) \<longrightarrow> HChannel x \<in> set (loop_channels (d_loop d')))"

lemma session_op_served:
  assumes "daemon_wf d" "d_chans d c \<noteq> None" "d_pcbs d p = Some s" "net.more d1 = net.more d \<and> same_pcb s s'"
  shows "served d c (put_pcb p (Some s') d1)"
proof -
  have m: "net.more d1 = net.more d" and s: "same_pcb s s'" using assms(4) by simp_all
  have "daemon_wf (put_pcb p (Some s') d1)" by (rule daemon_wf_session_op [OF assms(1,3) m _ _ _ _ s]) simp_all
  then show ?thesis using assms(2) daemon_more [OF m] by (simp add: served_def put_pcb_def)
qed

lemma connectCall_served:
  assumes wf: "daemon_wf d" and r: "connectCall E c addr resp d = Inr (resp', d')"
  shows "served d c d'"
proof -
  obtain dest e ep where so: "chan_socket c d = Inr (e, ep)" and dest: "sockaddr_of_c_str addr = Inr dest"
    using r by (auto simp: connectCall_def bindr_eq_Inr)
  note e = chan_socketD [OF wf so]
  consider (udp) p s n s' d1 where "ep_session ep d = Inr (p, s)" "pcb_connect (sin_addr dest) (sin_port dest) s d = Inr (n, s', d1)"
      "d' = put_pcb p (Some s') d1"
    | (nb) "d' = d"
    | (tcp) p s n s' d1 where "ep_session ep d = Inr (p, s)"
      "pcb_connect (sin_addr dest) (sin_port dest) (pcb_setOnConnEstabCB c s) d = Inr (n, s', d1)" "d' = put_pcb p (Some s') d1"
    using r so dest by (auto simp: connectCall_def bindr_eq_Inr split: if_splits)
  then show ?thesis
  proof cases
    case udp
    show ?thesis unfolding udp(3)
      by (rule session_op_served [OF wf e(3) ep_sessionD(2) [OF wf e(1) udp(1)] pcb_op_links(1) [OF udp(2)]])
  next
    case nb
    then show ?thesis using wf e(3) by (simp add: served_def)
  next
    case tcp
    note s = ep_sessionD [OF wf e(1) tcp(1)] and l = pcb_op_links(1) [OF tcp(2)]
    have m: "net.more d1 = net.more d" using l by simp
    have "daemon_wf (put_pcb p (Some s') d1)"
    proof (rule daemon_wf_session_op [OF wf s(2) m])
      show "same_pcb (pcb_setOnConnEstabCB c s) s'" using l by simp
      show "pcb_so (pcb_setOnConnEstabCB c s) = pcb_so s" "pcb_type (pcb_setOnConnEstabCB c s) = pcb_type s"
        "pcb_ok s \<Longrightarrow> pcb_ok (pcb_setOnConnEstabCB c s)" by (cases s; simp add: tcp_wf_def)+
      show "pcb_cb s = Some x \<or> ep_rrChannel ep' = Some x"
        if "pcb_cb (pcb_setOnConnEstabCB c s) = Some x" "pcb_so s = Some e'" "d_eps d e' = Some ep'" for x e' ep'
        using that s(3) e(1,2) by (cases s) auto
    qed
    then show ?thesis using tcp(3) e(3) daemon_more [OF m] by (simp add: served_def put_pcb_def)
  qed
qed

lemma sendtoCall_served:
  assumes wf: "daemon_wf d" and r: "sendtoCall c buf addr resp d = Inr (resp', d')"
  shows "served d c d'"
proof -
  obtain e ep p s n s' d1 where so: "chan_socket c d = Inr (e, ep)" and s: "ep_session ep d = Inr (p, s)"
    and d': "d' = put_pcb p (Some s') d1"
    and op: "(case ep_type ep of
        EP_UDP \<Rightarrow> (case addr of
            Some a \<Rightarrow> bindr (sockaddr_of_c_str a) (\<lambda>dest. pcb_send_to (sin_addr dest) (sin_port dest) buf s d)
          | None \<Rightarrow> pcb_send buf s d)
      | EP_TCP \<Rightarrow> pcb_send buf s d) = Inr (n, s', d1)"
    using r by (auto simp: sendtoCall_def bindr_eq_Inr)
  note e = chan_socketD [OF wf so]
  have "pcb_send buf s d = Inr (n, s', d1) \<or> (\<exists>fa fp. pcb_send_to fa fp buf s d = Inr (n, s', d1))"
    using op by (cases "ep_type ep"; cases addr) (auto simp: bindr_eq_Inr)
  then have "net.more d1 = net.more d \<and> same_pcb s s'" using pcb_op_links(2,3) by blast
  then show ?thesis unfolding d' using session_op_served [OF wf e(3) ep_sessionD(2) [OF wf e(1) s]] by blast
qed

lemma put_ep_served:
  assumes "daemon_wf d" "d_chans d c \<noteq> None" "d_eps d e = Some ep" "same_ep ep ep'"
  shows "served d c (put_ep e (Some ep') d)"
  using assms daemon_wf_put_ep [OF assms(1,3,4)] by (simp add: served_def) (simp add: put_ep_def)

lemma recvfromCall_served:
  assumes wf: "daemon_wf d" and r: "recvfromCall c ra resp d = Inr (resp', d')"
  shows "served d c d'"
proof -
  obtain e ep where so: "chan_socket c d = Inr (e, ep)" using r by (auto simp: recvfromCall_def bindr_eq_Inr)
  note e = chan_socketD [OF wf so]
  obtain y ep1 where y: "try_takeFromRecvQ ep = (y, ep1)" by fastforce
  show ?thesis
  proof (cases y)
    case (Some pk)
    then have "d' = put_ep e (Some ep1) d" using r so y by (auto simp: recvfromCall_def bindr_eq_Inr)
    then show ?thesis using put_ep_served [OF wf e(3,1) same_ep_take [OF y]] by simp
  next
    case None
    then have ep1: "ep1 = ep" using y by (auto simp: try_takeFromRecvQ_def split: list.splits)
    let ?cb = "case ep_type ep of EP_UDP \<Rightarrow> OnAsyncNewUdpPacket c ra | EP_TCP \<Rightarrow> OnAsyncNewTcpPacket c"
    have "d' = d \<or> d' = put_ep e (Some (setWaiting True (setOnAsyncNewPacketCB ?cb ep))) d"
      using r so y None ep1 by (auto simp: recvfromCall_def bindr_eq_Inr Let_def split: if_splits)
    moreover have "ep_rrChannel ep = Some (cb_chan ?cb)" using e(2) by (simp split: ep_type.split)
    ultimately show ?thesis
      using put_ep_served [OF wf e(3,1) same_ep_wait] wf e(3) by (auto simp: served_def)
  qed
qed

lemma daemon_wf_put_chan:
  assumes wf: "daemon_wf d" and c: "d_chans d c = Some ch" and s: "ch_socket ch' = ch_socket ch"
  shows "daemon_wf (put_chan c (Some ch') d)"
proof -
  have "channels_wf (put_chan c (Some ch') d)"
    unfolding channels_wf_def
  proof (intro conjI allI impI)
    show "distinct (rrChannels (put_chan c (Some ch') d))" using daemon_wfD(5) [OF wf] by (simp add: put_chan_def)
    show "(k \<in> set (rrChannels (put_chan c (Some ch') d))) = (d_chans (put_chan c (Some ch') d) k \<noteq> None)" for k
      using daemon_wfD(6) [OF wf, of k] c by (simp add: put_chan_def)
    show "\<exists>ep. d_eps (put_chan c (Some ch') d) e = Some ep \<and> ep_rrChannel ep = Some k"
      if "d_chans (put_chan c (Some ch') d) k = Some x" "ch_socket x = Some e" for k x e
      using daemon_wfD(7) [OF wf] that c s by (auto simp: put_chan_def split: if_splits)
    show "\<exists>k x. ep_rrChannel ep = Some k \<and> d_chans (put_chan c (Some ch') d) k = Some x \<and> ch_socket x = Some e"
      if "d_eps (put_chan c (Some ch') d) e = Some ep" for e ep
      using daemon_wfD(8) [OF wf, of e ep] that c s by (auto simp: put_chan_def)
  qed
  then show ?thesis
    using objects_wf_chan [OF daemon_wfD(1) [OF wf], of c ch'] c daemon_wfD(3,4) [OF wf]
    by (simp add: daemon_wf_def) (simp add: callbacks_wf_def registered_def put_chan_def)
qed

lemma socketCall_served:
  assumes wf: "daemon_wf d" and env: "env_ok E d" and c: "d_chans d c \<noteq> None"
    and r: "socketCall E c domain type resp d = Inr (resp', d')"
  shows "served d c d' \<and> resp' = answer_ok (RetSocket (plain_ret 0)) resp"
proof -
  have a: "domain = AF_INET" "type AND SOCK_STREAM_BIT \<noteq> 0 \<or> type AND SOCK_DGRAM_BIT \<noteq> 0"
    using r by (auto simp: socketCall_def bindr_eq_Inr)
  obtain ch where "d_chans d c = Some ch" using c by blast
  moreover have "d_chans d x \<noteq> None" if "HChannel x \<in> set (loop_channels (d_loop d))" for x
    using not_hasChannel [OF daemon_wfD(1) [OF wf], of "HChannel x"] that by auto
  ultimately show ?thesis using socketCall_ok [OF wf env _ a(2) refl refl refl, of c ch resp] r a(1) by (auto simp: served_def)
qed

lemma handleRequest_served:
  assumes wf: "daemon_wf d" and env: "env_ok E d" and c: "d_chans d c \<noteq> None"
    and r: "handleRequest E c req d = Inr (resp, d')"
  shows "served d c d'"
proof -
  have id: "served d c d" using wf c by (simp add: served_def)
  have at: "served d c d'" if "atstartAction c pid pn Response_new d = Inr (resp, d')" for pid pn
    using that daemon_wf_put_chan [OF wf]
    by (auto simp: atstartAction_def bindr_eq_Inr served_def) (simp_all add: put_chan_def)
  show ?thesis
    using r id at socketCall_served [OF wf env c] connectCall_served [OF wf] recvfromCall_served [OF wf]
      sendtoCall_served [OF wf]
    by (cases "req_calling req") (auto simp: handleRequest_def Let_def bindr_eq_Inr)
qed

subsection \<open>Callbacks and packets\<close>

lemma onReadReady_wf:
  assumes wf: "daemon_wf d" and env: "env_ok E d" and r: "onReadReady E c d = Inr d'"
  shows "daemon_wf d'"
proof -
  have c: "d_chans d c \<noteq> None" using r by (auto simp: onReadReady_def bindr_eq_Inr)
  then obtain ch where ch: "d_chans d c = Some ch" by blast
  have serve: "daemon_wf d'" if "handleRequest E c q d = Inr (resp, d1)" "chan_write E c resp d1 = Inr d'" for q resp d1
    using handleRequest_served [OF wf env c that(1)] chan_write_wf [OF _ that(2)] by (simp add: served_def)
  show ?thesis
    using r ch wf removeRRChannel_ok [OF wf ch] serve
    by (cases "read_msg E c") (auto simp: onReadReady_def bindr_eq_Inr Let_def split: if_splits)
qed

lemma deliver_wf:
  assumes wf: "daemon_wf d" and r: "deliver E c ra d = Inr d'"
  shows "daemon_wf d' \<and> (\<forall>e. d_eps d e \<noteq> None \<longrightarrow> d_eps d' e \<noteq> None)"
proof -
  obtain e ep pk ep1 resp where so: "chan_socket c d = Inr (e, ep)" and tk: "takeFromRecvQ ep = Inr (pk, ep1)"
    and w: "chan_write E c resp (put_ep e (Some ep1) d) = Inr d'"
    using r by (auto simp: deliver_def bindr_eq_Inr)
  have "daemon_wf (put_ep e (Some ep1) d)"
    using daemon_wf_put_ep [OF wf chan_socketD(1) [OF wf so] same_ep_take_wait [OF tk]] .
  from chan_write_wf [OF this w] show ?thesis by (auto simp: same_stores_def put_ep_def)
qed

lemma sChannelReadCb_wf:
  assumes wf: "daemon_wf d" and r: "sChannelReadCb E e d = Inr d'"
  shows "daemon_wf d'"
proof -
  obtain ep where e: "d_eps d e = Some ep" using r by (auto simp: sChannelReadCb_def bindr_eq_Inr)
  let ?d0 = "put_ep e (Some (drain_pipe ep)) d"
  have wf0: "daemon_wf ?d0" using daemon_wf_put_ep [OF wf e same_ep_flags(2)] .
  show ?thesis
  proof (cases "ep_waiting (drain_pipe ep)")
    case False
    then show ?thesis using r e wf0 by (simp add: sChannelReadCb_def Let_def)
  next
    case True
    then obtain d1 ep1 where d1: "(case calls_back (drain_pipe ep) of None \<Rightarrow> Inr ?d0
        | Some (OnAsyncNewUdpPacket c ra) \<Rightarrow> onAsyncNewUdpPacket E c ra ?d0
        | Some (OnAsyncNewTcpPacket c) \<Rightarrow> onAsyncNewTcpPacket E c ?d0) = Inr d1" "d_eps d1 e = Some ep1"
      "d' = put_ep e (Some (setWaiting False ep1)) d1"
      using r e by (auto simp: sChannelReadCb_def bindr_eq_Inr Let_def)
    have "d1 = ?d0 \<or> (\<exists>c ra. deliver E c ra ?d0 = Inr d1)"
      using d1(1) by (auto simp: onAsyncNewUdpPacket_def onAsyncNewTcpPacket_def split: option.splits async_cb.splits if_splits)
    then have "daemon_wf d1" using wf0 deliver_wf [OF wf0] by blast
    then show ?thesis using daemon_wf_put_ep [OF _ d1(2) same_ep_flags(1)] d1(3) by simp
  qed
qed

lemma conn_established_wf:
  assumes wf: "daemon_wf d" and r: "conn_established E c d = Inr d'"
  shows "daemon_wf d' \<and> same_stores d d'"
proof (cases "d_chans d c")
  case None
  then show ?thesis using r wf by (simp add: conn_established_def same_stores_def)
next
  case (Some ch)
  then obtain e ep p pc where so: "chan_socket c d = Inr (e, ep)" and pc: "ep_session ep d = Inr (p, pc)"
    and k: "(case pc of UdpPcb _ \<Rightarrow> Inl NullDeref
      | TcpPcb _ \<Rightarrow> bindr (on_loop (unregisterSelf (HEstab p)) d) (chan_write E c connect_answer)) = Inr d'"
    using r by (auto simp: conn_established_def bindr_eq_Inr)
  obtain s where s: "ep_session ep d = Inr (p, TcpPcb s)"
    and w: "bindr (on_loop (unregisterSelf (HEstab p)) d) (chan_write E c connect_answer) = Inr d'"
    using k pc by (cases pc) auto
  have "live d (HEstab p)" using ep_sessionD(2) [OF wf chan_socketD(1) [OF wf so] s] by auto
  from unregister_ok [OF wf this] obtain r1 where r1: "on_loop (unregisterSelf (HEstab p)) d = Inr (d\<lparr>d_loop := r1\<rparr>)"
    "daemon_wf (d\<lparr>d_loop := r1\<rparr>)" by auto
  then show ?thesis using w chan_write_wf [OF r1(2), of E c connect_answer d'] by (auto simp: same_stores_def)
qed

lemma estabReadCb_wf:
  assumes wf: "daemon_wf d" and r: "estabReadCb E p d = Inr d'"
  shows "daemon_wf d'"
proof -
  obtain s where "d_pcbs d p = Some s" using r by (auto simp: estabReadCb_def bindr_eq_Inr)
  then show ?thesis using r wf conn_established_wf [OF wf]
    by (cases s) (auto simp: estabReadCb_def split: option.splits)
qed

lemma put_to_socket_wf:
  assumes wf: "daemon_wf d" and r: "put_to_socket so pk d = Inr d'"
  shows "daemon_wf d' \<and> d_pcbs d' = d_pcbs d"
proof -
  obtain e ep where e: "so = Some e" "d_eps d e = Some ep" "d' = put_ep e (Some (putToRecvQ pk ep)) d"
    using r by (cases so) (auto simp: put_to_socket_def bindr_eq_Inr)
  then show ?thesis using daemon_wf_put_ep [OF wf e(2) same_ep_put] by (simp add: put_ep_def)
qed

lemma ack2peer_frame: "ack2peer v s st = Inr st' \<Longrightarrow> net.more st' = net.more st"
  by (auto simp: ack2peer_def Let_def bindr_eq_Inr dest!: ip_tx_frame)

lemma tcp_recv_frame:
  assumes r: "tcp_recv put estab fb s st = Inr (s', st')" and K: "K st"
    and put: "\<And>fb x x'. K x \<Longrightarrow> put fb x = Inr x' \<Longrightarrow> K x'" and estab: "\<And>c x x'. K x \<Longrightarrow> estab c x = Inr x' \<Longrightarrow> K x'"
    and net: "\<And>x x'. K x \<Longrightarrow> net.more x' = net.more x \<Longrightarrow> K x'"
  shows "K st' \<and> socket_of s' = socket_of s \<and> onConnEstabCB s' = onConnEstabCB s"
proof -
  consider "conn_state s = TCP_SYN_SENT" | "conn_state s = TCP_ESTABLISHED"
    | "conn_state s \<noteq> TCP_SYN_SENT" "conn_state s \<noteq> TCP_ESTABLISHED" by blast
  then show ?thesis
  proof cases
    case 1
    obtain v s1 st1 where a: "ack2peer v s1 st = Inr st1"
      and e: "(case onConnEstabCB s of None \<Rightarrow> Inr st1 | Some ch \<Rightarrow> estab ch st1) = Inr st'"
      using r 1 by (auto simp: tcp_recv_def Let_def bindr_eq_Inr)
    have "K st1" using net [OF K ack2peer_frame [OF a]] .
    then have "K st'" using e estab by (cases "onConnEstabCB s") auto
    then show ?thesis using tcp_recv_syn_sent [OF r 1] by auto
  next
    case 2
    have "st' = st \<or> (\<exists>f x v s2. put f st = Inr x \<and> ack2peer v s2 x = Inr st')"
      using r 2 by (auto simp: tcp_recv_def Let_def bindr_eq_Inr split: if_splits)
    then have "K st'" using K put [OF K] net ack2peer_frame by blast
    then show ?thesis using tcp_recv_established [OF r 2] by auto
  next
    case 3
    with r have "s' = s \<and> st' = st" by (cases "conn_state s") (auto simp: tcp_recv_def Let_def bindr_eq_Inr)
    then show ?thesis using K by simp
  qed
qed

lemma tcp_rx_cases:
  assumes r: "tcp_rx E fbs d = Inr d'" and ne: "d' \<noteq> d"
  obtains p s s' d1 where "d_pcbs d p = Some (TcpPcb s)"
    "tcp_recv (\<lambda>fb. put_to_socket (socket_of s) (None, fb # tl fbs)) (conn_established E) (hd fbs) s d = Inr (s', d1)"
    "d' = put_pcb p (Some (TcpPcb s')) d1"
proof -
  obtain o' t where h: "hdr_at (network_hdr (hd fbs)) = Inr o'" "hdr_at (transport_hdr (hd fbs)) = Inr t"
    using r by (auto simp: tcp_rx_def Let_def bindr_eq_Inr)
  obtain p where p: "demux (d_pcbs d) (tcp_pcbs d) (rawBytes (hd fbs)) o' t = Some p"
    using r ne h by (cases "demux (d_pcbs d) (tcp_pcbs d) (rawBytes (hd fbs)) o' t") (auto simp: tcp_rx_def Let_def)
  obtain pc where pc: "d_pcbs d p = Some pc" using r ne h p by (cases "d_pcbs d p") (auto simp: tcp_rx_def Let_def)
  obtain s where "pc = TcpPcb s" using r ne h p pc by (cases pc) (auto simp: tcp_rx_def Let_def)
  then show ?thesis using that r h p pc by (auto simp: tcp_rx_def Let_def bindr_eq_Inr)
qed

lemma tcp_rx_wf:
  assumes wf: "daemon_wf d" and r: "tcp_rx E fbs d = Inr d'"
  shows "daemon_wf d'"
proof (cases "d' = d")
  case True
  then show ?thesis using wf by simp
next
  case False
  then obtain p s s' d1 where p: "d_pcbs d p = Some (TcpPcb s)"
    and rc: "tcp_recv (\<lambda>fb. put_to_socket (socket_of s) (None, fb # tl fbs)) (conn_established E) (hd fbs) s d = Inr (s', d1)"
    and d': "d' = put_pcb p (Some (TcpPcb s')) d1"
    using tcp_rx_cases [OF r] by blast
  let ?K = "\<lambda>x. daemon_wf x \<and> d_pcbs x = d_pcbs d"
  have k: "?K d1 \<and> socket_of s' = socket_of s \<and> onConnEstabCB s' = onConnEstabCB s"
  proof (rule tcp_recv_frame [OF rc])
    show "?K x'" if "?K x" "net.more x' = net.more x" for x x'
      using that daemon_wf_cong [OF same_objects_more [OF that(2)]] daemon_more(5) [OF that(2)] by simp
    show "?K x'" if "?K x" "put_to_socket (socket_of s) (None, fb # tl fbs) x = Inr x'" for fb x x'
      using put_to_socket_wf [OF conjunct1 [OF that(1)] that(2)] that(1) by simp
    show "?K x'" if "?K x" "conn_established E c x = Inr x'" for c x x'
      using conn_established_wf [OF conjunct1 [OF that(1)] that(2)] that(1) by (simp add: same_stores_def)
  qed (simp add: wf)
  have wf1: "daemon_wf d1" and p1: "d_pcbs d1 p = Some (TcpPcb s)" using k p by simp_all
  show ?thesis
    unfolding d' by (rule daemon_wf_put_pcb [OF wf1 p1]) (use k tcp_recv_state [OF rc] in auto)
qed

lemma udp_rx_cases:
  assumes r: "udp_rx fbs d = Inr d'"
  shows "d' = d \<or> (\<exists>so pk. put_to_socket so pk d = Inr d')"
proof -
  obtain o' t where h: "hdr_at (network_hdr (hd fbs)) = Inr o'" "hdr_at (transport_hdr (hd fbs)) = Inr t"
    using r by (auto simp: udp_rx_def Let_def bindr_eq_Inr)
  show ?thesis
  proof (cases "demux (d_pcbs d) (udp_pcbs d) (rawBytes (hd fbs)) o' t")
    case None
    then show ?thesis using r h by (auto simp: udp_rx_def Let_def)
  next
    case p: (Some p)
    show ?thesis
    proof (cases "d_pcbs d p")
      case None
      then show ?thesis using r h p by (auto simp: udp_rx_def Let_def)
    next
      case (Some pc)
      then show ?thesis using r h p by (cases pc) (auto simp: udp_rx_def udp_recv_def Let_def bindr_eq_Inr)
    qed
  qed
qed

lemma udp_rx_wf: "daemon_wf d \<Longrightarrow> udp_rx fbs d = Inr d' \<Longrightarrow> daemon_wf d'"
  using udp_rx_cases put_to_socket_wf by blast

lemma ip_turn_wf:
  assumes wf: "daemon_wf d" and r: "ip_turn E d = Inr d'"
  shows "daemon_wf d'"
proof -
  obtain fb q act g where q: "d_rxQ d = fb # q" "ip_rx fb (d_groups d) = Inr (act, g)"
    using r by (auto simp: ip_turn_def bindr_eq_Inr split: list.splits)
  let ?d = "d\<lparr>d_rxQ := q, d_groups := g\<rparr>"
  have "daemon_wf ?d = daemon_wf d" by (rule daemon_wf_cong) (simp add: same_objects_def)
  then show ?thesis using r q wf tcp_rx_wf [of ?d E _ d'] udp_rx_wf [of ?d _ d'] by (cases act) (auto simp: ip_turn_def)
qed

end
