(* ===== verification/Daemon_Safe.thy ===== *)
theory Daemon_Safe
  imports Daemon_Steps
begin

section \<open>The daemon as a transition system\<close>

text \<open>
  A step is one callback of the event loop, the loop's own bookkeeping in a handle (the events
  received and the flag \<open>handlingEvents\<close>), one read of the interface thread or one packet of
  the IP thread, whatever the kernel and the clients answer. Every step keeps the invariant, so the
  owner links hold in every reachable state; no step uses an object that was destroyed. What the
  loop does after a callback that destroyed the handle's owner is a different matter.
\<close>

text \<open>The kernel gives descriptors that are not open.\<close>

fun fresh_fds :: "int list \<Rightarrow> daemon \<Rightarrow> bool" where
  "fresh_fds [] d \<longleftrightarrow> True"
| "fresh_fds (fd # fds) d \<longleftrightarrow> unused_fd fd d \<and> (\<forall>d'. onNewConnection fd d = Inr d' \<longrightarrow> fresh_fds fds d')"

inductive daemon_step :: "daemon \<Rightarrow> daemon \<Rightarrow> bool" where
  event: "io_handles (d_loop d) h \<noteq> None \<Longrightarrow> env_ok E d \<Longrightarrow> fresh_fds (accepted E) d \<Longrightarrow>
    daemon_cb E h k = Some f \<Longrightarrow> f d = Inr d' \<Longrightarrow> daemon_step d d'"
| flags: "io_handles (d_loop d) h = Some i \<Longrightarrow>
    daemon_step d (set_loop (put_handle h (Some (i\<lparr>eventsReceived := ev, handlingEvents := b\<rparr>)) (d_loop d)) d)"
| device: "interface_turn rd d = Inr d' \<Longrightarrow> daemon_step d d'"
| packet: "ip_turn E d = Inr d' \<Longrightarrow> daemon_step d d'"

inductive_cases daemon_stepE: "daemon_step d d'"

definition daemon_init :: "daemon \<Rightarrow> bool" where
  "daemon_init d \<longleftrightarrow> (\<exists>addr fd. daemon_start addr fd = Inr d)"

interpretation dmn: transition_system daemon_init daemon_step .

lemma hub_onReadReady_wf: "daemon_wf d \<Longrightarrow> fresh_fds fds d \<Longrightarrow> hub_onReadReady fds d = Inr d' \<Longrightarrow> daemon_wf d'"
proof (induction fds arbitrary: d)
  case (Cons fd fds)
  then show ?case using onNewConnection_ok [of d fd] by (auto simp: bindr_eq_Inr)
qed auto

lemma onPeerWritingClose_wf: "daemon_wf d \<Longrightarrow> onPeerWritingClose c d = Inr d' \<Longrightarrow> d_chans d c \<noteq> None \<Longrightarrow> daemon_wf d'"
  using removeRRChannel_ok [of d c] by (auto simp: onPeerWritingClose_def)

lemma daemon_cb_wf:
  assumes wf: "daemon_wf d" and env: "env_ok E d" "fresh_fds (accepted E) d" and h: "io_handles (d_loop d) h \<noteq> None"
    and f: "daemon_cb E h k = Some f" "f d = Inr d'"
  shows "daemon_wf d'"
proof -
  have "live d h" using objects_wfD(2) [OF daemon_wfD(1) [OF wf]] h by simp
  then show ?thesis using f wf env
    by (cases "(E, h, k)" rule: daemon_cb.cases)
      (auto intro: hub_onReadReady_wf onReadReady_wf onPeerWritingClose_wf sChannelReadCb_wf estabReadCb_wf)
qed

lemma reactor_wf_flags:
  assumes "reactor_wf r" "io_handles r h = Some i"
  shows "reactor_wf (put_handle h (Some (i\<lparr>eventsReceived := ev, handlingEvents := b\<rparr>)) r)" (is "reactor_wf ?r")
proof -
  have w: "wanted ?r = wanted r" using assms(2) by (auto simp: wanted_def put_handle_def fun_eq_iff)
  have "\<exists>j'. io_handles r k = Some j' \<and> h_fd j' = h_fd j \<and> ownerLoop j' = ownerLoop j" if "io_handles ?r k = Some j" for k j
    using that assms(2) by (auto simp: put_handle_def split: if_splits)
  then have u: "k = l" if "io_handles ?r k = Some x" "io_handles ?r l = Some y" "h_fd x = h_fd y" for k l x y
    using that reactor_wfD(3) [OF assms(1)] by metis
  have o': "(\<exists>j. io_handles ?r k = Some j \<and> ownerLoop j) \<longleftrightarrow> (\<exists>j. io_handles r k = Some j \<and> ownerLoop j)" for k
    using assms(2) by (auto simp: put_handle_def)
  have c: "loop_channels ?r = loop_channels r" "ctl_calls ?r = ctl_calls r" by (simp_all add: put_handle_def)
  show ?thesis unfolding reactor_wf_def w o' c using reactor_wfD(1,2,4) [OF assms(1)] u by blast
qed

lemma flags_wf:
  assumes wf: "daemon_wf d" and h: "io_handles (d_loop d) h = Some i"
  shows "daemon_wf (set_loop (put_handle h (Some (i\<lparr>eventsReceived := ev, handlingEvents := b\<rparr>)) (d_loop d)) d)"
proof -
  let ?r = "put_handle h (Some (i\<lparr>eventsReceived := ev, handlingEvents := b\<rparr>)) (d_loop d)"
  note ow = daemon_wfD(1) [OF wf]
  have "objects_wf (d\<lparr>d_loop := ?r\<rparr>)"
    using objects_wf_loop [OF ow reactor_wf_flags [OF objects_wfD(1) [OF ow] h]] h by (simp add: put_handle_def)
  then show ?thesis using daemon_wfD(2-4) [OF wf]
    by (simp add: daemon_wf_def channels_wf_def callbacks_wf_def registered_def set_loop_def hasChannel_def put_handle_def)
qed

lemma interface_turn_wf: "daemon_wf d \<Longrightarrow> interface_turn rd d = Inr d' \<Longrightarrow> daemon_wf d'"
  using daemon_wf_cong [of d d'] by (auto simp: interface_turn_def bindr_eq_Inr same_objects_def)

lemma daemon_start_wf:
  assumes "daemon_start addr fd = Inr d"
  shows "daemon_wf d"
proof -
  have wf0: "reactor_wf EventReactor_new" "fresh_handle HListener fd EventReactor_new"
    by (auto simp: reactor_wf_def fresh_handle_def EventReactor_new_def wanted_def)
  obtain r0 i where r0: "enableReading HListener (IoHandle_new HListener fd EventReactor_new) = Inr r0" "reactor_wf r0"
    "loop_channels r0 = []" "io_handles r0 = (\<lambda>_. None)(HListener := Some i)"
    using new_handle_ok [OF wf0] by (auto simp: EventReactor_new_def)
  obtain r where r: "add_owned HListener r0 = Inr r" "reactor_wf r" "loop_channels r = [HListener]"
    "io_handles r = (\<lambda>_. None)(HListener := Some (i\<lparr>ownerLoop := True\<rparr>))"
    using add_owned_ok [OF r0(2), of HListener i] r0(3,4) by auto
  have d: "d_loop d = r" "rrChannels d = []" "d_chans d = (\<lambda>_. None)" "d_eps d = (\<lambda>_. None)" "d_pcbs d = (\<lambda>_. None)"
    using assms r0(1) r(1) by (auto simp: daemon_start_def)
  have "live d h \<longleftrightarrow> h = HListener" for h by (cases h) (simp_all add: d)
  then have "handles_wf d" using r by (simp add: handles_wf_def d)
  then show ?thesis using r(3)
    by (simp add: daemon_wf_def objects_wf_def fresh_wf_def sessions_wf_def channels_wf_def callbacks_wf_def registered_def
        hasChannel_def List.member_iff d)
qed

lemma daemon_reachable_wf: "dmn.reachable d \<Longrightarrow> daemon_wf d"
  by (erule dmn.invariant)
    (auto simp: daemon_init_def intro: daemon_start_wf elim!: daemon_stepE
      intro: flags_wf dest: daemon_cb_wf interface_turn_wf ip_turn_wf)

subsection \<open>Destroyed objects are never used\<close>

named_theorems alive_intros

definition alive :: "'a res \<Rightarrow> bool" where
  "alive r \<longleftrightarrow> r \<noteq> Inl UseAfterFree"

lemma alive_simps [simp]:
  "alive (Inr x)" "alive (Inl f) \<longleftrightarrow> f \<noteq> UseAfterFree" "alive (assertr b)" "alive (derefr v)" "alive (initr v)"
  "alive (liver v) \<longleftrightarrow> v \<noteq> None"
  by (auto simp: alive_def assertr_def derefr_def initr_def liver_def split: option.splits)

lemma alive_bindr [alive_intros]: "alive r \<Longrightarrow> (\<And>x. r = Inr x \<Longrightarrow> alive (f x)) \<Longrightarrow> alive (bindr r f)"
  by (cases r) (auto simp: alive_def bindr_def)

lemma alive_pointers [simp]: "alive (hdr_at p)" "alive (ptr_diff p q)" "alive (span fb pl p q)" "alive (protocol r o')"
  by (auto simp: hdr_at_def ptr_diff_def span_def protocol_def Let_def split: ptr.splits)

lemma alive_drain [simp]: "alive (drain_skbuf_chain fbs)"
  by (induction fbs) (auto intro!: alive_intros)

lemma alive_gather [simp]: "alive (gather i pl fbs)"
  by (induction i pl fbs rule: gather.induct) (auto intro!: alive_intros)

lemma alive_ip_tx [simp]: "alive (ip_tx fb pl s)"
  by (auto simp: ip_tx_def interface_tx_def tun_tx_def Let_def split: prod.splits intro!: alive_intros)

lemma alive_tcp [simp]: "alive (ack2peer v s st)" "alive (tcp_send buf s st)" "alive (tcp_connect fa fp s st)"
proof -
  have prep: "alive (prepareBeforeIpTx s fb b)" for s fb b
    by (auto simp: prepareBeforeIpTx_def Let_def intro!: alive_intros)
  show "alive (ack2peer v s st)" by (auto simp: ack2peer_def Let_def prep intro!: alive_intros)
  have snd: "alive (tcp_send b t x)" for b t and x :: "'b net_scheme"
    by (auto simp: tcp_send_def Let_def prep split: prod.splits TcpState.splits intro!: alive_intros)
  show "alive (tcp_send buf s st)" by (rule snd)
  show "alive (tcp_connect fa fp s st)" by (auto simp: tcp_connect_def snd split: prod.splits intro!: alive_intros)
qed

lemma alive_udp [simp]: "alive (udp_send buf s st)" "alive (udp_send_to fa fp buf s st)"
proof -
  show u: "alive (udp_send buf s st)" for s and st :: "'a net_scheme"
    by (auto simp: udp_send_def Let_def split: prod.splits intro!: alive_intros)
  show "alive (udp_send_to fa fp buf s st)" by (auto simp: udp_send_to_def split: prod.splits intro!: alive_intros u)
qed

lemma alive_pcb [simp]: "alive (pcb_connect fa fp s d)" "alive (pcb_send buf s d)" "alive (pcb_send_to fa fp buf s d)"
  by (cases s; auto split: prod.splits intro!: alive_intros)+

lemma alive_rx [simp]: "alive (ip_rx fb g)" "alive (interface_rx rd q)"
proof -
  have "alive (defrag fb g)" by (auto simp: defrag_def insert_frag_def Let_def split: prod.splits intro!: alive_intros)
  then show "alive (ip_rx fb g)" by (auto simp: ip_rx_def Let_def split: option.splits intro!: alive_intros)
  show "alive (interface_rx rd q)"
    by (auto simp: interface_rx_def tun_rx_def enRxQue_def Let_def split: option.splits intro!: alive_intros)
qed

lemma alive_sockaddr [simp]: "alive (sockaddr_of_c_str bs)"
  unfolding sockaddr_of_c_str_def by (cases "bs @ [0]" rule: sockaddr_of_bytes.cases) simp_all

lemma alive_recv_answer [simp]: "alive (recv_answer ra pk resp)"
  by (auto simp: recv_answer_def intro!: alive_intros)

lemma alive_take [simp]: "alive (takeFromRecvQ ep)"
  by (auto simp: takeFromRecvQ_def split: list.splits prod.splits option.splits)

lemma alive_chan_socket: "daemon_wf d \<Longrightarrow> d_chans d c \<noteq> None \<Longrightarrow> alive (chan_socket c d)"
  using wf_chan_socket [of d c] by (auto split: option.splits)

lemma alive_ep_session: "daemon_wf d \<Longrightarrow> d_eps d e = Some ep \<Longrightarrow> alive (ep_session ep d)"
  using wf_ep_session [of d e ep] by auto

lemma alive_chan_session: "daemon_wf d \<Longrightarrow> chan_socket c d = Inr (e, ep) \<Longrightarrow> alive (ep_session ep d)"
  using alive_ep_session chan_socketD(1) by blast

lemma alive_chan_write: "daemon_wf d \<Longrightarrow> d_chans d c \<noteq> None \<Longrightarrow> alive (chan_write E c resp d)"
  using unregister_ok [of d "HChannel c"] by (auto simp: chan_write_def intro!: alive_intros)

lemma alive_session_op:
  assumes wf: "daemon_wf d" and c: "d_chans d c \<noteq> None"
    and f: "\<And>e ep p s. chan_socket c d = Inr (e, ep) \<Longrightarrow> ep_session ep d = Inr (p, s) \<Longrightarrow> alive (f e ep p s)"
  shows "alive (bindr (chan_socket c d) (\<lambda>(e, ep). bindr (ep_session ep d) (\<lambda>(p, s). f e ep p s)))"
  using alive_chan_socket [OF wf c] f by (auto intro!: alive_intros alive_chan_session [OF wf])

lemma alive_socketCall:
  assumes "daemon_wf d" "env_ok E d" "d_chans d c \<noteq> None"
  shows "alive (socketCall E c domain type resp d)"
proof (cases "domain = AF_INET \<and> (type AND SOCK_STREAM_BIT \<noteq> 0 \<or> type AND SOCK_DGRAM_BIT \<noteq> 0)")
  case True
  obtain ch where "d_chans d c = Some ch" using assms(3) by blast
  from socketCall_ok [OF assms(1,2) this _ refl refl refl, of type resp] show ?thesis using True by auto
next
  case False
  then have "socketCall E c domain type resp d = Inl AssertFailed" by (auto simp: socketCall_def assertr_def bindr_def)
  then show ?thesis by simp
qed

lemma alive_connectCall:
  assumes wf: "daemon_wf d" and c: "d_chans d c \<noteq> None"
  shows "alive (connectCall E c addr resp d)"
  using alive_chan_socket [OF wf c] by (auto simp: connectCall_def intro!: alive_intros alive_chan_session [OF wf])

lemma alive_sendtoCall: "daemon_wf d \<Longrightarrow> d_chans d c \<noteq> None \<Longrightarrow> alive (sendtoCall c buf addr resp d)"
  unfolding sendtoCall_def
  by (rule alive_session_op) (auto split: ep_type.splits option.splits intro!: alive_intros)

lemma alive_recvfromCall: "daemon_wf d \<Longrightarrow> d_chans d c \<noteq> None \<Longrightarrow> alive (recvfromCall c ra resp d)"
  using alive_chan_socket [of d c]
  by (auto simp: recvfromCall_def Let_def split: prod.splits option.splits intro!: alive_intros)

lemma alive_names:
  assumes "daemon_wf d" "d_chans d c \<noteq> None"
  shows "alive (getpeernameCall c resp d)" "alive (getsocknameCall c resp d)"
  unfolding getpeernameCall_def getsocknameCall_def by (rule alive_session_op [OF assms], simp)+

lemma alive_handleRequest:
  assumes "daemon_wf d" "env_ok E d" "d_chans d c \<noteq> None"
  shows "alive (handleRequest E c req d)"
proof -
  have "alive (atstartAction c pid pn resp d)" for pid pn resp
    using assms(3) by (auto simp: atstartAction_def intro!: alive_intros)
  then show ?thesis
    using alive_socketCall [OF assms] alive_connectCall [OF assms(1,3)] alive_sendtoCall [OF assms(1,3)]
      alive_recvfromCall [OF assms(1,3)] alive_names [OF assms(1,3)]
    by (cases "req_calling req") (auto simp: handleRequest_def Let_def intro!: alive_intros)
qed

lemma alive_removeRRChannel: "daemon_wf d \<Longrightarrow> d_chans d c = Some ch \<Longrightarrow> alive (removeRRChannel c d)"
  using removeRRChannel_ok [of d c ch] by auto

lemma alive_onReadReady:
  assumes wf: "daemon_wf d" and env: "env_ok E d" and c: "d_chans d c = Some ch"
  shows "alive (onReadReady E c d)"
proof -
  have c': "d_chans d c \<noteq> None" using c by simp
  have "alive (bindr (handleRequest E c q d) (\<lambda>(resp, d1). chan_write E c resp d1))" for q
    using alive_handleRequest [OF wf env c', of q] handleRequest_served [OF wf env c', of q] alive_chan_write
    by (auto simp: served_def intro!: alive_intros)
  then show ?thesis using c alive_removeRRChannel [OF wf c]
    by (cases "read_msg E c") (auto simp: onReadReady_def Let_def)
qed

lemma alive_deliver:
  assumes wf: "daemon_wf d" and c: "d_chans d c \<noteq> None"
  shows "alive (deliver E c ra d)"
proof -
  have "alive (chan_write E c resp (put_ep e (Some ep1) d))"
    if "chan_socket c d = Inr (e, ep)" "takeFromRecvQ ep = Inr (pk, ep1)" for e ep pk ep1 resp
    using alive_chan_write [OF daemon_wf_put_ep [OF wf chan_socketD(1) [OF wf that(1)] same_ep_take_wait [OF that(2)]], of c] c
    by (simp add: put_ep_def)
  then show ?thesis using alive_chan_socket [OF wf c] by (auto simp: deliver_def intro!: alive_intros)
qed

lemma alive_sChannelReadCb:
  assumes wf: "daemon_wf d" and e: "d_eps d e = Some ep"
  shows "alive (sChannelReadCb E e d)"
proof -
  let ?d0 = "put_ep e (Some (drain_pipe ep)) d"
  have wf0: "daemon_wf ?d0" using daemon_wf_put_ep [OF wf e same_ep_flags(2)] .
  have dl: "alive (onAsyncNewUdpPacket E c ra ?d0)" "alive (onAsyncNewTcpPacket E c ?d0)" for c ra
    using alive_deliver [OF wf0] by (auto simp: onAsyncNewUdpPacket_def onAsyncNewTcpPacket_def)
  have dlv: "\<exists>ep1. d_eps d1 e = Some ep1" if "deliver E c ra ?d0 = Inr d1" for c ra d1
    using deliver_wf [OF wf0 that] by (auto simp: put_ep_def)
  have keep: "\<exists>ep1. d_eps d1 e = Some ep1" if "onAsyncNewUdpPacket E c ra ?d0 = Inr d1" for c ra d1
    using that dlv by (auto simp: onAsyncNewUdpPacket_def put_ep_def split: if_splits)
  have keep': "\<exists>ep1. d_eps d1 e = Some ep1" if "onAsyncNewTcpPacket E c ?d0 = Inr d1" for c d1
    using that dlv by (auto simp: onAsyncNewTcpPacket_def put_ep_def split: if_splits)
  have "d_eps ?d0 e = Some (drain_pipe ep)" by (simp add: put_ep_def)
  then show ?thesis using e dl
    by (auto simp: sChannelReadCb_def Let_def split: option.splits async_cb.splits intro!: alive_intros dest: keep keep')
qed

lemma alive_conn_established:
  assumes wf: "daemon_wf d"
  shows "alive (conn_established E c d)"
proof (cases "d_chans d c")
  case (Some ch)
  have "alive (bindr (on_loop (unregisterSelf (HEstab p)) d) (chan_write E c connect_answer))"
    if so: "chan_socket c d = Inr (e, ep)" and s: "ep_session ep d = Inr (p, TcpPcb s)" for e ep p s
  proof -
    have "live d (HEstab p)" using ep_sessionD(2) [OF wf chan_socketD(1) [OF wf so] s] by auto
    from unregister_ok [OF wf this] obtain r1 where r1: "on_loop (unregisterSelf (HEstab p)) d = Inr (d\<lparr>d_loop := r1\<rparr>)"
      "daemon_wf (d\<lparr>d_loop := r1\<rparr>)" by auto
    then show ?thesis using alive_chan_write [OF r1(2), of c] Some by simp
  qed
  then show ?thesis using Some alive_chan_socket [OF wf, of c]
    by (auto simp: conn_established_def split: pcb.splits intro!: alive_intros alive_chan_session [OF wf])
qed (simp add: conn_established_def)

lemma alive_estabReadCb: "daemon_wf d \<Longrightarrow> live d (HEstab p) \<Longrightarrow> alive (estabReadCb E p d)"
  using alive_conn_established by (auto simp: estabReadCb_def split: option.splits)

lemma alive_hub: "daemon_wf d \<Longrightarrow> fresh_fds fds d \<Longrightarrow> alive (hub_onReadReady fds d)"
proof (induction fds arbitrary: d)
  case (Cons fd fds)
  then show ?case using onNewConnection_ok [of d fd] by (auto intro!: alive_intros)
qed simp

lemma alive_tcp_recv:
  assumes K: "K st"
    and put: "\<And>fb x. K x \<Longrightarrow> alive (put fb x)" and estab: "\<And>c x. K x \<Longrightarrow> alive (estab c x)"
    and net: "\<And>x x'. K x \<Longrightarrow> net.more x' = net.more x \<Longrightarrow> K x'"
  shows "alive (tcp_recv put estab fb s st)"
proof -
  have "alive (estab c x)" if "ack2peer v s1 st = Inr x" for c v s1 x
    using estab net [OF K ack2peer_frame [OF that]] by blast
  then show ?thesis using put [OF K]
    by (auto simp: tcp_recv_def Let_def split: TcpState.splits option.splits intro!: alive_intros)
qed

lemma alive_tcp_rx:
  assumes wf: "daemon_wf d"
  shows "alive (tcp_rx E fbs d)"
proof -
  have net: "daemon_wf x'" if "daemon_wf x" "net.more x' = net.more x" for x x'
    using that daemon_wf_cong [OF same_objects_more [OF that(2)]] by simp
  have put: "alive (put_to_socket so pk x)" for so pk x by (auto simp: put_to_socket_def intro!: alive_intros)
  have "alive (tcp_recv (\<lambda>fb. put_to_socket so (None, fb # tl fbs)) (conn_established E) h s d)" for so h s
    by (rule alive_tcp_recv [of daemon_wf, OF wf put alive_conn_established net])
  then show ?thesis by (auto simp: tcp_rx_def Let_def split: option.splits pcb.splits intro!: alive_intros)
qed

lemma alive_ip_turn:
  assumes wf: "daemon_wf d"
  shows "alive (ip_turn E d)"
proof -
  have "alive (udp_rx fbs x)" for fbs x
    by (auto simp: udp_rx_def udp_recv_def put_to_socket_def Let_def split: option.splits pcb.splits intro!: alive_intros)
  moreover have "alive (tcp_rx E fbs (d\<lparr>d_rxQ := q, d_groups := g\<rparr>))" for fbs q g
    using alive_tcp_rx daemon_wf_cong [of d "d\<lparr>d_rxQ := q, d_groups := g\<rparr>"] wf by (simp add: same_objects_def)
  ultimately show ?thesis
    by (auto simp: ip_turn_def Let_def split: list.splits rx_action.splits intro!: alive_intros)
qed

subsection \<open>Properties\<close>

text \<open>(C8) Owner links of the daemon. In every reachable state each handle the event loop watches belongs to
  a live object; the arbiter's list holds each live channel once; every endpoint is the socket of
  the one live channel it names, holds at most 129 packets, and owns a live session of its own
  protocol that names it back; and every live session is the session of such an endpoint.\<close>

theorem daemon_owner_links:
  assumes "dmn.reachable d"
  shows "(\<forall>h \<in> set (loop_channels (d_loop d)). live d h) \<and>
    distinct (rrChannels d) \<and> (\<forall>c. c \<in> set (rrChannels d) \<longleftrightarrow> d_chans d c \<noteq> None) \<and>
    (\<forall>e ep. d_eps d e = Some ep \<longrightarrow> length (ep_recvQ ep) \<le> 129 \<and>
       (\<exists>c ch p s. ep_rrChannel ep = Some c \<and> d_chans d c = Some ch \<and> ch_socket ch = Some e \<and>
          ep_pcb ep = Some p \<and> d_pcbs d p = Some s \<and> pcb_so s = Some e \<and> pcb_type s = ep_type ep)) \<and>
    (\<forall>p s. d_pcbs d p = Some s \<longrightarrow> (\<exists>e ep. pcb_so s = Some e \<and> d_eps d e = Some ep \<and> ep_pcb ep = Some p))"
proof -
  have wf: "daemon_wf d" using daemon_reachable_wf [OF assms] .
  note ow = daemon_wfD(1) [OF wf]
  have "length (ep_recvQ ep) \<le> 129" if "d_eps d e = Some ep" for e ep
    using objects_wfD(8) [OF ow that] by (simp add: ep_bounded_def recvQlimit_def)
  moreover have "\<exists>c ch p s. ep_rrChannel ep = Some c \<and> d_chans d c = Some ch \<and> ch_socket ch = Some e \<and>
      ep_pcb ep = Some p \<and> d_pcbs d p = Some s \<and> pcb_so s = Some e \<and> pcb_type s = ep_type ep" if "d_eps d e = Some ep" for e ep
    using daemon_wfD(8) [OF wf that] objects_wfD(6) [OF ow that] by blast
  moreover have "live d h" if "h \<in> set (loop_channels (d_loop d))" for h
    using that reactor_wfD(2) [OF objects_wfD(1) [OF ow]] objects_wfD(2) [OF ow, of h] by force
  ultimately show ?thesis using daemon_wfD(5,6) [OF wf] objects_wfD(7) [OF ow] by blast
qed

text \<open>(C3) No callback, no read of the device and no packet uses an object after it was destroyed: in
  every reachable state, whatever the clients send, none of them ends in the fault \<open>UseAfterFree\<close>
  (the kernel being expected to hand out descriptors that are not in use).\<close>

theorem daemon_no_use_after_free:
  assumes "dmn.reachable d" "env_ok E d" "fresh_fds (accepted E) d"
  shows "(\<forall>h k f. io_handles (d_loop d) h \<noteq> None \<longrightarrow> daemon_cb E h k = Some f \<longrightarrow> f d \<noteq> Inl UseAfterFree) \<and>
    interface_turn rd d \<noteq> Inl UseAfterFree \<and> ip_turn E d \<noteq> Inl UseAfterFree"
proof -
  have wf: "daemon_wf d" using daemon_reachable_wf [OF assms(1)] .
  have "alive (f d)" if h: "io_handles (d_loop d) h \<noteq> None" "daemon_cb E h k = Some f" for h k f
  proof -
    have "live d h" using objects_wfD(2) [OF daemon_wfD(1) [OF wf]] h(1) by simp
    then show ?thesis using h(2) assms(2,3) wf
      by (cases "(E, h, k)" rule: daemon_cb.cases)
        (auto simp: onPeerWritingClose_def intro: alive_hub alive_onReadReady alive_removeRRChannel
          alive_sChannelReadCb alive_estabReadCb)
  qed
  moreover have "alive (interface_turn rd d)" by (auto simp: interface_turn_def intro!: alive_intros)
  ultimately show ?thesis using alive_ip_turn [OF wf] by (auto simp: alive_def)
qed

text \<open>A daemon that has accepted one connection and served \<open>socket(AF_INET, SOCK_DGRAM, 0)\<close> on it.\<close>

definition sample_env :: denv where
  "sample_env = \<lparr>read_msg = (\<lambda>_. RdBytes []), accepted = [],
     ParseFromArray = (\<lambda>_. \<lparr>req_pid = 1, req_calling = CallSocket 2 2 0\<rparr>), byte_size = (\<lambda>_. 0), nwritten = (\<lambda>_. 0),
     so_pipe = 5, estab_pipe = 6\<rparr>"

lemmas start_defs = daemon_start_def enableReading_def set_interest_def IoHandle_new_def EventReactor_new_def
  add_owned_def reactor_defs liver_def bindr_def on_loop_def

lemmas serve_defs = onNewConnection_def put_chan_def onReadReady_def handleRequest_def socketCall_def create_pair_def
  new_endpoint_def udp_newSession_def put_ep_def put_pcb_def setSocket_def chan_write_def assertr_def Let_def IsInitialized_def
  AF_INET_def SOCK_STREAM_BIT_def SOCK_DGRAM_BIT_def SOCK_NONBLOCK_def answer_ok_def Response_new_def

lemma sample_run:
  "\<exists>d0 d1 d2. daemon_start 1 3 = Inr d0 \<and> onNewConnection 4 d0 = Inr d1 \<and> onReadReady sample_env 0 d1 = Inr d2 \<and>
     unused_fd 4 d0 \<and> env_ok sample_env d0 \<and> env_ok sample_env d1 \<and> io_handles (d_loop d0) HListener \<noteq> None \<and>
     io_handles (d_loop d1) (HChannel 0) \<noteq> None \<and> d_chans d1 0 = Some \<lparr>ch_peer = [], ch_peerPid = None, ch_socket = None\<rparr> \<and>
     d_chans d2 0 = Some \<lparr>ch_peer = [], ch_peerPid = None, ch_socket = Some 1\<rparr> \<and> d_eps d2 1 = Some (fresh_ep 0 2 False False) \<and>
     d_pcbs d2 2 = Some (UdpPcb ((Session_new 1)\<lparr>socket_of := Some 1\<rparr>)) \<and> udp_pcbs d2 = [2] \<and> d_rxQ d2 = []"
  by (simp add: start_defs serve_defs env_ok_def unused_fd_def sample_env_def fresh_ep_def new_type_def numeral_2_eq_2)

lemma sample_reachable:
  "\<exists>d1 d2. dmn.reachable d1 \<and> dmn.reachable d2 \<and> env_ok sample_env d1 \<and> io_handles (d_loop d1) (HChannel 0) \<noteq> None \<and>
     d_chans d1 0 = Some \<lparr>ch_peer = [], ch_peerPid = None, ch_socket = None\<rparr> \<and>
     d_chans d2 0 = Some \<lparr>ch_peer = [], ch_peerPid = None, ch_socket = Some 1\<rparr> \<and> d_eps d2 1 = Some (fresh_ep 0 2 False False) \<and>
     d_pcbs d2 2 = Some (UdpPcb ((Session_new 1)\<lparr>socket_of := Some 1\<rparr>)) \<and> udp_pcbs d2 = [2] \<and> d_rxQ d2 = []"
proof -
  obtain d0 d1 d2 where s: "daemon_start 1 3 = Inr d0" "onNewConnection 4 d0 = Inr d1" "onReadReady sample_env 0 d1 = Inr d2"
    "unused_fd 4 d0" "env_ok sample_env d0" "env_ok sample_env d1" "io_handles (d_loop d0) HListener \<noteq> None"
    "io_handles (d_loop d1) (HChannel 0) \<noteq> None" "d_chans d1 0 = Some \<lparr>ch_peer = [], ch_peerPid = None, ch_socket = None\<rparr>"
    "d_chans d2 0 = Some \<lparr>ch_peer = [], ch_peerPid = None, ch_socket = Some 1\<rparr>" "d_eps d2 1 = Some (fresh_ep 0 2 False False)"
    "d_pcbs d2 2 = Some (UdpPcb ((Session_new 1)\<lparr>socket_of := Some 1\<rparr>))" "udp_pcbs d2 = [2]" "d_rxQ d2 = []"
    using sample_run by blast
  have "dmn.reachable d0" using s(1) by (intro dmn.reach_init) (auto simp: daemon_init_def)
  moreover have "daemon_step d0 d1" using s(2,4,5)
    by (intro event [OF s(7), of "sample_env\<lparr>accepted := [4]\<rparr>" OnRead "hub_onReadReady [4]"]) (simp_all add: env_ok_def)
  ultimately have r1: "dmn.reachable d1" by (rule dmn.reach_step)
  moreover have "daemon_step d1 d2" using s(3)
    by (intro event [OF s(8,6), of OnRead "onReadReady sample_env 0"]) (simp_all add: sample_env_def)
  ultimately have "dmn.reachable d2" by (rule dmn.reach_step)
  then show ?thesis using r1 s(6,8-14) by blast
qed

theorem daemon_owner_links_witness:
  "\<exists>d. dmn.reachable d \<and> 0 \<in> set (rrChannels d) \<and> (\<forall>h \<in> set (loop_channels (d_loop d)). live d h) \<and>
     (\<exists>ep s. d_eps d 1 = Some ep \<and> ep_rrChannel ep = Some 0 \<and> ep_recvQ ep = [] \<and> ep_pcb ep = Some 2 \<and>
        d_pcbs d 2 = Some s \<and> pcb_so s = Some 1)"
proof -
  obtain d where d: "dmn.reachable d" "d_chans d 0 = Some \<lparr>ch_peer = [], ch_peerPid = None, ch_socket = Some 1\<rparr>"
    "d_eps d 1 = Some (fresh_ep 0 2 False False)" using sample_reachable by blast
  note links = daemon_owner_links [OF d(1)]
  have f: "ep_rrChannel (fresh_ep 0 2 False False) = Some 0" "ep_recvQ (fresh_ep 0 2 False False) = []"
    "ep_pcb (fresh_ep 0 2 False False) = Some 2"
    by (simp_all add: fresh_ep_def Endpoint_new_def setAgentChannel_def setSession_def)
  obtain s where s: "d_pcbs d 2 = Some s" "pcb_so s = Some 1" 
    using conjunct1 [OF conjunct2 [OF conjunct2 [OF conjunct2 [OF links]]], rule_format, OF d(3)] f(3) by auto
  have "0 \<in> set (rrChannels d)" using conjunct1 [OF conjunct2 [OF conjunct2 [OF links]]] d(2) by simp
  then show ?thesis using conjunct1 [OF links] d(1,3) f s by blast
qed

theorem daemon_no_use_after_free_witness:
  "\<exists>d. dmn.reachable d \<and> env_ok sample_env d \<and> d_chans d 0 \<noteq> None \<and> onReadReady sample_env 0 d \<noteq> Inl UseAfterFree \<and>
     onPeerWritingClose 0 d \<noteq> Inl UseAfterFree"
proof -
  obtain d where d: "dmn.reachable d" "env_ok sample_env d" "io_handles (d_loop d) (HChannel 0) \<noteq> None"
    "d_chans d 0 = Some \<lparr>ch_peer = [], ch_peerPid = None, ch_socket = None\<rparr>" using sample_reachable by blast
  have "fresh_fds (accepted sample_env) d" by (simp add: sample_env_def)
  note nf = conjunct1 [OF daemon_no_use_after_free [OF d(1,2) this], rule_format, OF d(3)]
  show ?thesis using d nf [of OnRead] nf [of OnClose] by (intro exI [of _ d]) simp
qed

lemma call_backs_freed: "io_handles (get x) h = None \<Longrightarrow> call_backs get cb h ks x = (if ks = [] then Inr x else Inl UseAfterFree)"
  by (cases ks) (simp_all add: call_back_def bindr_def liver_def)

lemma call_backs_close:
  assumes "daemon_wf d" "d_chans d c = Some ch" "read_msg E c = RdEof" "OnRead \<in> set ks \<or> OnClose \<in> set ks"
  shows "bindr (call_backs d_loop (daemon_cb E) (HChannel c) ks d) (set_handling d_loop set_loop (HChannel c) False) = Inl UseAfterFree"
  using assms
proof (induction ks)
  case (Cons k ks)
  have l: "io_handles (d_loop d) (HChannel c) \<noteq> None" using objects_wfD(2) [OF daemon_wfD(1) [OF Cons.prems(1)]] Cons.prems(2) by simp
  show ?case
  proof (cases "k = OnRead \<or> k = OnClose")
    case True
    obtain d' where d': "removeRRChannel c d = Inr d'" "daemon_wf d'" "d_chans d' = (d_chans d)(c := None)"
      using removeRRChannel_ok [OF Cons.prems(1,2)] by blast
    have "io_handles (d_loop d') (HChannel c) = None" using objects_wfD(2) [OF daemon_wfD(1) [OF d'(2)], of "HChannel c"] d'(3) by simp
    moreover have "call_back d_loop (daemon_cb E) (HChannel c) k d = Inr d'"
      using True l d'(1) Cons.prems(2,3) by (auto simp: call_back_def onReadReady_def onPeerWritingClose_def)
    ultimately show ?thesis by (auto simp: call_backs_freed set_handling_def bindr_def liver_def)
  next
    case False
    then have "call_back d_loop (daemon_cb E) (HChannel c) k d = Inr d" using l by (cases k) (auto simp: call_back_def)
    then show ?thesis using Cons False by auto
  qed
qed simp

lemma callbacks_for_close:
  assumes "ev AND (POLLIN OR POLLPRI OR POLLHUP OR POLLRDHUP) \<noteq> 0"
  shows "OnRead \<in> set (callbacks_for ev) \<or> OnClose \<in> set (callbacks_for ev)"
proof (rule ccontr)
  assume a: "\<not> ?thesis"
  then have i: "ev AND (POLLIN OR POLLPRI OR POLLRDHUP) = 0" by (auto simp: callbacks_for_def split: if_splits)
  then have "ev AND POLLIN = 0" by (simp add: bit.conj_disj_distrib or_eq_0_iff)
  then have "ev AND POLLHUP = 0" using a by (auto simp: callbacks_for_def split: if_splits)
  then show False using i assms by (simp add: bit.conj_disj_distrib or_eq_0_iff)
qed

text \<open>Closing a channel writes to freed memory. When the loop reports that the client's end is closed
  (readable, priority data, hang-up in any combination, and the read gives end of file), the
  callback destroys the channel together with its \<open>IoHandle\<close>; \<open>handleEventsReceived\<close> then goes
  on in the destroyed handle. So in every reachable state the turn ends in \<open>UseAfterFree\<close>.\<close>

theorem channel_close_uses_freed_handle:
  assumes "dmn.reachable d" "d_chans d c = Some ch" "read_msg E c = RdEof"
    and "ev AND (POLLIN OR POLLPRI OR POLLHUP OR POLLRDHUP) \<noteq> 0"
  shows "reactor_turn E (Some [(HChannel c, ev)]) d = Inl UseAfterFree"
proof -
  have wf: "daemon_wf d" using daemon_reachable_wf [OF assms(1)] .
  obtain i where i: "io_handles (d_loop d) (HChannel c) = Some i"
    using objects_wfD(2) [OF daemon_wfD(1) [OF wf], of "HChannel c"] assms(2) by auto
  let ?d = "set_loop (put_handle (HChannel c) (Some (i\<lparr>eventsReceived := ev, handlingEvents := True\<rparr>)) (d_loop d)) d"
  have "daemon_wf ?d" using flags_wf [OF wf i] .
  from call_backs_close [OF this, of c ch E "callbacks_for ev"] callbacks_for_close [OF assms(4)] assms(2,3)
  have "bindr (call_backs d_loop (daemon_cb E) (HChannel c) (callbacks_for ev) ?d) (set_handling d_loop set_loop (HChannel c) False)
    = Inl UseAfterFree" by (simp add: set_loop_def)
  then show ?thesis using i
    by (simp add: reactor_turn_def loop_turn_def maxEventsReceivedEachPoll_def Let_def handleEventsReceived_def
        set_handling_def [of _ _ _ True] set_loop_def put_handle_def)
qed

theorem channel_close_uses_freed_handle_witness:
  "\<exists>d. dmn.reachable d \<and> d_chans d 0 \<noteq> None \<and>
     reactor_turn (sample_env\<lparr>read_msg := \<lambda>_. RdEof\<rparr>) (Some [(HChannel 0, POLLIN OR POLLHUP)]) d = Inl UseAfterFree"
proof -
  obtain d where d: "dmn.reachable d" "d_chans d 0 = Some \<lparr>ch_peer = [], ch_peerPid = None, ch_socket = None\<rparr>"
    using sample_reachable by blast
  have "reactor_turn (sample_env\<lparr>read_msg := \<lambda>_. RdEof\<rparr>) (Some [(HChannel 0, POLLIN OR POLLHUP)]) d = Inl UseAfterFree"
    using d by (intro channel_close_uses_freed_handle) (simp_all add: poll_defs)
  then show ?thesis using d by auto
qed

end
