(* ===== verification/Startup.thy ===== *)
theory Startup
  imports Log_Core Daemon_Safe
begin

section \<open>Configuration and start-up (src/veloxd: Conf.h, CfgParser.cpp, Veloxd.cpp, interface/TunIface.cpp, main.cpp)\<close>

text \<open>
  From the command line to the running threads. What the option parser of Boost makes of the
  command line and what the system calls return is the record \<open>startenv\<close>. The program ends early by
  \<open>exit\<close> with a status, or by a fault.
\<close>

record Conf =
  conf_level :: string
  conf_to_stdout :: bool
  conf_dir :: string
  conf_tun_name :: string
  conf_tun_addr_cidr :: string
  conf_stack_addr :: string
  conf_file :: string

definition Conf_new :: Conf where
  "Conf_new = \<lparr>conf_level = ''debug'', conf_to_stdout = False, conf_dir = ''/var/log/veloxd'', conf_tun_name = [],
     conf_tun_addr_cidr = ''192.168.168.8/24'', conf_stack_addr = ''192.168.168.10'', conf_file = ''/etc/veloxd/veloxd.conf''\<rparr>"

text \<open>The state of the process, with that of the log.\<close>

record veloxd = logcore +
  running :: bool
  iface_stop :: bool
  ip_stop :: bool
  loop_stop :: bool
  conf :: Conf
  devname :: "string option"
  tun_fd :: int
  commands :: "string list"
  listen_fd :: int
  closed_fds :: "int list"

definition veloxd_new :: veloxd where
  "veloxd_new = \<lparr>log_filter = None, log_line_id = None, log_pid = None, log_threads = (\<lambda>_. None), log_sinks = [], log_out = [], running = False, iface_stop = False, ip_stop = False, loop_stop = False, conf = Conf_new,
     devname = None, tun_fd = 0, commands = [], listen_fd = 0, closed_fds = []\<rparr>"

text \<open>The options \<open>readCmdLine\<close> describes to the parser: the long name, the short one, and whether a value belongs to it.\<close>

record option_spec =
  os_name :: string
  os_short :: "char option"
  os_value :: bool

definition option_table :: "option_spec list" where
  "option_table = map (\<lambda>(n, c, v). \<lparr>os_name = n, os_short = c, os_value = v\<rparr>)
     [(''help'', Some CHR ''h'', False), (''version'', Some CHR ''V'', False), (''verbose'', Some CHR ''v'', False),
      (''config'', Some CHR ''c'', True), (''logging-level'', Some CHR ''l'', True), (''logging-dir'', Some CHR ''L'', True),
      (''logging-to-stdout'', Some CHR ''T'', False), (''tundev-name'', None, True), (''tundev-addr'', None, True),
      (''stack-addr'', None, True)]"

text \<open>\<open>parse_command_line\<close> is \<open>None\<close> when it throws; \<open>ioctl\<close> also gives the name of the device.\<close>

record startenv =
  parse_command_line :: "option_spec list \<Rightarrow> string list \<Rightarrow> (string \<Rightarrow> string option) option"
  tun_open :: int
  tun_ioctl :: "int \<times> string"
  hub_socket :: int
  hub_bind :: int
  hub_listen :: int
  inet_pton :: "string \<Rightarrow> u32 option"
  env_pid :: int
  main_tid :: nat
  iface_tid :: nat
  ip_tid :: nat
  loop_tid :: nat

datatype halt = Exit nat veloxd | Fault fault

definition bindh :: "(halt + 'a) \<Rightarrow> ('a \<Rightarrow> halt + 'b) \<Rightarrow> halt + 'b" where
  "bindh m f = (case m of Inl h \<Rightarrow> Inl h | Inr x \<Rightarrow> f x)"

lemma bindh_simps [simp]: "bindh (Inl h) f = Inl h" "bindh (Inr x) f = f x"
  by (simp_all add: bindh_def)

subsection \<open>Veloxd::stop and Veloxd::exit\<close>

datatype exit_status = SUCCESS | FAILURE | BAD_CMDLINE | BAD_CONF_FILE

definition Interface_stop :: "veloxd \<Rightarrow> veloxd" where
  "Interface_stop s = s\<lparr>iface_stop := True\<rparr>"

definition Ip_stop :: "veloxd \<Rightarrow> veloxd" where
  "Ip_stop s = s\<lparr>ip_stop := True\<rparr>"

definition EventReactor_stop :: "veloxd \<Rightarrow> veloxd" where
  "EventReactor_stop s = s\<lparr>loop_stop := True\<rparr>"

definition Arbiter_stop :: "veloxd \<Rightarrow> veloxd" where
  "Arbiter_stop s = EventReactor_stop s"

text \<open>\<open>Tcp::stop\<close> and \<open>Udp::stop\<close> are empty.\<close>

definition veloxd_stop :: "veloxd \<Rightarrow> veloxd" where
  "veloxd_stop s = (Arbiter_stop (Ip_stop (Interface_stop s)))\<lparr>running := False\<rparr>"

definition veloxd_exit :: "exit_status \<Rightarrow> veloxd \<Rightarrow> halt + 'a" where
  "veloxd_exit e s = (let s1 = (if running s then veloxd_stop s else s) in
     Inl (Exit (case e of SUCCESS \<Rightarrow> 0 | _ \<Rightarrow> 1) s1))"

subsection \<open>Configuration\<close>

definition apply_options :: "(string \<Rightarrow> string option) \<Rightarrow> Conf \<Rightarrow> Conf" where
  "apply_options options c0 =
     (let c1 = (case options ''logging-level'' of None \<Rightarrow> c0 | Some ll \<Rightarrow> c0\<lparr>conf_level := ll\<rparr>);
          c2 = (case options ''logging-to-stdout'' of None \<Rightarrow> c1 | Some _ \<Rightarrow> c1\<lparr>conf_to_stdout := True\<rparr>);
          c3 = (case options ''tundev-name'' of None \<Rightarrow> c2 | Some n \<Rightarrow> c2\<lparr>conf_tun_name := n\<rparr>);
          c4 = (case options ''tundev-addr'' of None \<Rightarrow> c3 | Some a \<Rightarrow> c3\<lparr>conf_tun_addr_cidr := a\<rparr>)
      in case options ''stack-addr'' of None \<Rightarrow> c4 | Some a \<Rightarrow> c4\<lparr>conf_stack_addr := a\<rparr>)"

text \<open>Names and short names are unambiguous, and all that is read is described; three of the options described are read by nothing.\<close>

lemma option_table_ok:
  "distinct (map os_name option_table)" "distinct (filter (\<lambda>c. c \<noteq> None) (map os_short option_table))"
  "set (map os_name option_table) = {''help'', ''version'', ''logging-level'', ''logging-to-stdout'', ''tundev-name'', ''tundev-addr'', ''stack-addr''} \<union>
     {''verbose'', ''config'', ''logging-dir''}"
  by (auto simp: option_table_def)

lemma unread_options:
  assumes "\<And>n. n \<notin> {''verbose'', ''config'', ''logging-dir''} \<Longrightarrow> o1 n = o2 n"
  shows "apply_options o1 c = apply_options o2 c"
  using assms [of "''logging-level''"] assms [of "''logging-to-stdout''"] assms [of "''tundev-name''"] assms [of "''tundev-addr''"]
    assms [of "''stack-addr''"] by (simp add: apply_options_def)

definition readCmdLine :: "(string \<Rightarrow> string option) \<Rightarrow> veloxd \<Rightarrow> halt + veloxd" where
  "readCmdLine options s =
     (if options ''help'' \<noteq> None then veloxd_exit SUCCESS s
      else if options ''version'' \<noteq> None then veloxd_exit SUCCESS s
      else Inr (s\<lparr>conf := apply_options options (conf s)\<rparr>))"

definition readConfFile :: "veloxd \<Rightarrow> veloxd" where
  "readConfFile s = s"

definition readConf :: "startenv \<Rightarrow> string list \<Rightarrow> veloxd \<Rightarrow> halt + veloxd" where
  "readConf E argv s =
     (case parse_command_line E option_table argv of
        None \<Rightarrow> veloxd_exit FAILURE s
      | Some options \<Rightarrow> bindh (readCmdLine options s) (\<lambda>s1. Inr (readConfFile s1)))"

definition initLogging :: "startenv \<Rightarrow> veloxd \<Rightarrow> halt + veloxd" where
  "initLogging E s =
     (case LoggingInitializer_run (env_pid E) (main_tid E) (conf_to_stdout (conf s)) (conf_level (conf s)) s of
        (False, s1) \<Rightarrow> veloxd_exit FAILURE s1
      | (True, s1) \<Rightarrow> Inr (LoggingThreadInitializer_run (main_tid E) s1))"

subsection \<open>The device\<close>

text \<open>\<open>ShellOp\<close>: the command is cut at 127 characters and given to \<open>system\<close>.\<close>

definition ShellOp :: "string \<Rightarrow> veloxd \<Rightarrow> veloxd" where
  "ShellOp cmd s = s\<lparr>commands := commands s @ [take (128 - 1) cmd]\<rparr>"

definition veloxd_die :: "veloxd \<Rightarrow> halt + 'a" where
  "veloxd_die s = veloxd_exit FAILURE (veloxd_stop s)"

text \<open>\<open>strcpy\<close> of a configured name goes to \<open>_devname\<close> before that is allocated.\<close>

definition allocateTun :: "startenv \<Rightarrow> veloxd \<Rightarrow> halt + veloxd" where
  "allocateTun E s =
     (if tun_open E < 0 then veloxd_die s
      else if conf_tun_name (conf s) \<noteq> [] \<and> devname s = None then Inl (Fault NullDeref)
      else if fst (tun_ioctl E) < 0 then veloxd_die s
      else Inr (s\<lparr>devname := Some (snd (tun_ioctl E)), tun_fd := tun_open E\<rparr>))"

definition with_devname :: "(string \<Rightarrow> veloxd \<Rightarrow> veloxd) \<Rightarrow> veloxd \<Rightarrow> halt + veloxd" where
  "with_devname f s = (case devname s of None \<Rightarrow> Inl (Fault NullDeref) | Some n \<Rightarrow> Inr (f n s))"

definition setIfUp :: "veloxd \<Rightarrow> halt + veloxd" where
  "setIfUp = with_devname (\<lambda>n. ShellOp (''ip link set dev '' @ n @ '' up''))"

definition setIfAddr :: "veloxd \<Rightarrow> halt + veloxd" where
  "setIfAddr = with_devname (\<lambda>n s. ShellOp (''ip addr add dev '' @ n @ '' local '' @ conf_tun_addr_cidr (conf s)) s)"

definition TunIface_init :: "startenv \<Rightarrow> veloxd \<Rightarrow> halt + veloxd" where
  "TunIface_init E s = bindh (allocateTun E s) (\<lambda>s1. bindh (setIfUp s1) setIfAddr)"

text \<open>The device is closed by \<open>close\<close>. The destructor of the base class calls it too, but
  then the object is one of the base class, whose \<open>close\<close> does nothing.\<close>

definition TunIface_close :: "veloxd \<Rightarrow> veloxd" where
  "TunIface_close s = (if tun_fd s \<noteq> 0 then s\<lparr>closed_fds := closed_fds s @ [tun_fd s]\<rparr> else s)"

definition PhysIface_close :: "veloxd \<Rightarrow> veloxd" where
  "PhysIface_close s = s"

definition PhysIface_delete :: "veloxd \<Rightarrow> veloxd" where
  "PhysIface_delete s = PhysIface_close s"

definition TunIface_delete :: "veloxd \<Rightarrow> veloxd" where
  "TunIface_delete s = PhysIface_delete (s\<lparr>devname := None\<rparr>)"

text \<open>So the descriptor is left to the kernel.\<close>

lemma tun_never_closed: "closed_fds (TunIface_delete s) = closed_fds s"
  by (simp add: TunIface_delete_def PhysIface_delete_def PhysIface_close_def)

subsection \<open>The listener, and the whole start\<close>

definition AgentHub_new :: "startenv \<Rightarrow> veloxd \<Rightarrow> halt + veloxd" where
  "AgentHub_new E s = (if hub_bind E = -1 then veloxd_die s else Inr (s\<lparr>listen_fd := hub_socket E\<rparr>))"

definition AgentHub_listen :: "startenv \<Rightarrow> veloxd \<Rightarrow> halt + veloxd" where
  "AgentHub_listen E s = (if hub_listen E = -1 then veloxd_die s else Inr s)"

definition veloxd_init :: "startenv \<Rightarrow> string list \<Rightarrow> veloxd \<Rightarrow> halt + veloxd" where
  "veloxd_init E argv s =
     bindh (readConf E argv s) (\<lambda>s1. bindh (initLogging E s1) (\<lambda>s2. bindh (TunIface_init E s2) (AgentHub_new E)))"

text \<open>What the new threads do before their loops: they make their log attributes, and the one of the event loop listens.\<close>

definition Interface_start :: "startenv \<Rightarrow> veloxd \<Rightarrow> veloxd" where
  "Interface_start E s = LoggingThreadInitializer_run (iface_tid E) s"

definition Ip_start :: "startenv \<Rightarrow> veloxd \<Rightarrow> veloxd" where
  "Ip_start E s = LoggingThreadInitializer_run (ip_tid E) s"

definition Arbiter_start :: "startenv \<Rightarrow> veloxd \<Rightarrow> halt + veloxd" where
  "Arbiter_start E s = AgentHub_listen E (LoggingThreadInitializer_run (loop_tid E) s)"

definition veloxd_run :: "startenv \<Rightarrow> veloxd \<Rightarrow> halt + veloxd" where
  "veloxd_run E s = Arbiter_start E (Ip_start E (Interface_start E (s\<lparr>running := True\<rparr>)))"

definition veloxd_main :: "startenv \<Rightarrow> string list \<Rightarrow> halt + veloxd" where
  "veloxd_main E argv = bindh (veloxd_init E argv veloxd_new) (veloxd_run E)"

text \<open>The local address of a session: \<open>inet_pton\<close> leaves the zero bytes when it fails.\<close>

definition session_laddr :: "startenv \<Rightarrow> veloxd \<Rightarrow> u32" where
  "session_laddr E s = (case inet_pton E (conf_stack_addr (conf s)) of None \<Rightarrow> 0 | Some a \<Rightarrow> a)"

subsection \<open>Lemmas\<close>

lemma daemon_start_reachable: "\<exists>d. daemon_start addr fd = Inr d \<and> dmn.reachable d"
proof -
  have "\<exists>d. daemon_start addr fd = Inr d" by (simp add: start_defs)
  then show ?thesis by (metis daemon_init_def dmn.reach_init)
qed

lemma apply_options_simps [simp]:
  "conf_level (apply_options o' c) = (case o' ''logging-level'' of None \<Rightarrow> conf_level c | Some v \<Rightarrow> v)"
  "conf_tun_name (apply_options o' c) = (case o' ''tundev-name'' of None \<Rightarrow> conf_tun_name c | Some v \<Rightarrow> v)"
  "conf_tun_addr_cidr (apply_options o' c) = (case o' ''tundev-addr'' of None \<Rightarrow> conf_tun_addr_cidr c | Some v \<Rightarrow> v)"
  "conf_stack_addr (apply_options o' c) = (case o' ''stack-addr'' of None \<Rightarrow> conf_stack_addr c | Some v \<Rightarrow> v)"
  by (simp_all add: apply_options_def Let_def split: option.splits)

lemma thread_attributes [simp]:
  fixes s :: veloxd
  shows "conf (LoggingThreadInitializer_run t s) = conf s" "devname (LoggingThreadInitializer_run t s) = devname s"
    "commands (LoggingThreadInitializer_run t s) = commands s" "running (LoggingThreadInitializer_run t s) = running s"
    "listen_fd (LoggingThreadInitializer_run t s) = listen_fd s" "log_filter (LoggingThreadInitializer_run t s) = log_filter s"
    "log_threads (LoggingThreadInitializer_run t s) u = None \<longleftrightarrow> u \<noteq> t \<and> log_threads s u = None"
    "conf (add_common_attributes pid s) = conf s" "devname (add_common_attributes pid s) = devname s"
    "commands (add_common_attributes pid s) = commands s"
  by (auto simp: LoggingThreadInitializer_run_def add_common_attributes_def split: option.split)

lemmas veloxd_main_defs = veloxd_main_def veloxd_init_def veloxd_run_def readConf_def readCmdLine_def readConfFile_def
  initLogging_def LoggingInitializer_run_def TunIface_init_def allocateTun_def setIfUp_def setIfAddr_def with_devname_def ShellOp_def
  AgentHub_new_def AgentHub_listen_def Interface_start_def Ip_start_def Arbiter_start_def veloxd_exit_def veloxd_die_def veloxd_stop_def
  Interface_stop_def Ip_stop_def Arbiter_stop_def EventReactor_stop_def Let_def

lemma main_starts:
  assumes o': "parse_command_line E option_table argv = Some o'" "o' ''help'' = None" "o' ''version'' = None"
    and l: "logging_level (conf_level (apply_options o' Conf_new)) = Some l"
    and k: "0 \<le> tun_open E" "conf_tun_name (apply_options o' Conf_new) = []" "0 \<le> fst (tun_ioctl E)" "hub_bind E \<noteq> -1" "hub_listen E \<noteq> -1"
  shows "\<exists>s. veloxd_main E argv = Inr s \<and> conf s = apply_options o' Conf_new \<and> running s \<and> log_filter s = Some l \<and> listen_fd s = hub_socket E \<and>
    commands s = [take 127 (''ip link set dev '' @ snd (tun_ioctl E) @ '' up''),
      take 127 (''ip addr add dev '' @ snd (tun_ioctl E) @ '' local '' @ conf_tun_addr_cidr (apply_options o' Conf_new))] \<and>
    (\<forall>t \<in> {main_tid E, iface_tid E, ip_tid E, loop_tid E}. log_threads s t \<noteq> None)"
  using o' l k by (auto simp: veloxd_main_defs veloxd_new_def simp del: apply_options_simps not_None_eq)

text \<open>(C19) How the daemon starts. A command line that cannot be parsed, an unknown log level, a device that
  cannot be opened or set up, and a listening socket that cannot be bound or listened on end it with
  status 1; \<open>--help\<close> and \<open>--version\<close> end it with status 0. With a device name on the command
  line it crashes, as the name is copied through a null pointer. Otherwise it runs: the two shell commands are the ones for the device the
  kernel named and the configured address, cut at 127 characters; each of its four threads has its log attributes, so it can
  log; and the event loop starts in a state from which all that is proved of reachable states holds.\<close>

theorem startup_outcome:
  "case parse_command_line E option_table argv of
     None \<Rightarrow> \<exists>s. veloxd_main E argv = Inl (Exit 1 s)
   | Some o' \<Rightarrow>
       let level = (case o' ''logging-level'' of None \<Rightarrow> ''debug'' | Some l \<Rightarrow> l);
           name = (case o' ''tundev-name'' of None \<Rightarrow> [] | Some n \<Rightarrow> n);
           cidr = (case o' ''tundev-addr'' of None \<Rightarrow> ''192.168.168.8/24'' | Some a \<Rightarrow> a);
           dev = snd (tun_ioctl E)
       in if o' ''help'' \<noteq> None \<or> o' ''version'' \<noteq> None then \<exists>s. veloxd_main E argv = Inl (Exit 0 s)
          else if logging_level level = None \<or> tun_open E < 0 then \<exists>s. veloxd_main E argv = Inl (Exit 1 s)
          else if name \<noteq> [] then veloxd_main E argv = Inl (Fault NullDeref)
          else if fst (tun_ioctl E) < 0 \<or> hub_bind E = -1 \<or> hub_listen E = -1 then \<exists>s. veloxd_main E argv = Inl (Exit 1 s)
          else \<exists>s d. veloxd_main E argv = Inr s \<and> running s \<and> log_filter s = logging_level level \<and>
            commands s = [take 127 (''ip link set dev '' @ dev @ '' up''), take 127 (''ip addr add dev '' @ dev @ '' local '' @ cidr)] \<and>
            (\<forall>t \<in> {main_tid E, iface_tid E, ip_tid E, loop_tid E}. log_threads s t \<noteq> None) \<and>
            daemon_start (session_laddr E s) (listen_fd s) = Inr d \<and> dmn.reachable d"
proof (cases "parse_command_line E option_table argv")
  case None
  then show ?thesis by (simp add: veloxd_main_defs)
next
  case (Some o')
  let ?c = "apply_options o' Conf_new"
  have c: "conf_level ?c = (case o' ''logging-level'' of None \<Rightarrow> ''debug'' | Some l \<Rightarrow> l)"
    "conf_tun_name ?c = (case o' ''tundev-name'' of None \<Rightarrow> [] | Some n \<Rightarrow> n)"
    "conf_tun_addr_cidr ?c = (case o' ''tundev-addr'' of None \<Rightarrow> ''192.168.168.8/24'' | Some a \<Rightarrow> a)"
    by (simp_all add: Conf_new_def split: option.splits)
  have n: "conf veloxd_new = Conf_new" "devname veloxd_new = None" by (simp_all add: veloxd_new_def)
  show ?thesis
  proof (cases "o' ''help'' = None \<and> o' ''version'' = None \<and> (\<exists>l. logging_level (conf_level ?c) = Some l) \<and> 0 \<le> tun_open E \<and>
      conf_tun_name ?c = [] \<and> 0 \<le> fst (tun_ioctl E) \<and> hub_bind E \<noteq> -1 \<and> hub_listen E \<noteq> -1")
    case True
    then obtain l where l: "logging_level (conf_level ?c) = Some l" by blast
    have h: "o' ''help'' = None" "o' ''version'' = None" "0 \<le> tun_open E" "conf_tun_name ?c = []" "0 \<le> fst (tun_ioctl E)"
      "hub_bind E \<noteq> -1" "hub_listen E \<noteq> -1" using True by simp_all
    from main_starts [OF Some h(1,2) l h(3-7)] obtain s where m: "veloxd_main E argv = Inr s" "conf s = ?c" "running s" "log_filter s = Some l"
      "commands s = [take 127 (''ip link set dev '' @ snd (tun_ioctl E) @ '' up''),
        take 127 (''ip addr add dev '' @ snd (tun_ioctl E) @ '' local '' @ conf_tun_addr_cidr ?c)]"
      "\<forall>t \<in> {main_tid E, iface_tid E, ip_tid E, loop_tid E}. log_threads s t \<noteq> None" by blast
    obtain d where "daemon_start (session_laddr E s) (listen_fd s) = Inr d" "dmn.reachable d" using daemon_start_reachable by blast
    then show ?thesis using Some True m l unfolding c by (auto simp: Let_def intro!: exI [of _ s] exI [of _ d])
  next
    case False
    then show ?thesis using Some n unfolding c [symmetric]
      by (auto simp: veloxd_main_defs c [symmetric] simp del: apply_options_simps split: option.splits)
  qed
qed

definition sample_startenv :: "(string \<Rightarrow> string option) \<Rightarrow> startenv" where
  "sample_startenv o' = \<lparr>parse_command_line = (\<lambda>_ _. Some o'), tun_open = 5, tun_ioctl = (0, ''tun0''), hub_socket = 6, hub_bind = 0,
     hub_listen = 0, inet_pton = (\<lambda>_. Some 1), env_pid = 100, main_tid = 100, iface_tid = 101, ip_tid = 102, loop_tid = 103\<rparr>"

theorem startup_outcome_witness:
  "(\<exists>s. veloxd_main (sample_startenv (\<lambda>_. None)) [''veloxd''] = Inr s \<and>
      commands s = [''ip link set dev tun0 up'', ''ip addr add dev tun0 local 192.168.168.8/24'']) \<and>
   veloxd_main (sample_startenv [''tundev-name'' \<mapsto> ''velox0'']) [''veloxd''] = Inl (Fault NullDeref)"
  using startup_outcome [of "sample_startenv (\<lambda>_. None)" "[''veloxd'']"]
    startup_outcome [of "sample_startenv [''tundev-name'' \<mapsto> ''velox0'']" "[''veloxd'']"]
  by (auto simp: sample_startenv_def logging_level_def Let_def)

end
