(* ===== verification/Thread_Loops.thy ===== *)
theory Thread_Loops
  imports Startup
begin

section \<open>The loops of the threads (src/veloxd: Interface.cpp, Ip.cpp, reactor/EventReactor.cpp)\<close>

text \<open>
  Each of the three threads repeats its turn until the stop flag of its layer is set. A turn begins with a system call or a queue
  that makes it wait; the flag is looked at before. The turns of a thread are given as a list: what the turn
  gets, and whether another thread sets the flag while the turn lasts. The flag is a plain \<open>bool\<close> in the sources; here it is taken to be
  seen once it is set.
\<close>

fun while_running :: "('i \<Rightarrow> 's \<Rightarrow> 's res) \<Rightarrow> ('i \<times> bool) list \<Rightarrow> bool \<Rightarrow> 's \<Rightarrow> (bool \<times> 's) res" where
  "while_running turn [] stopflag s = Inr (stopflag, s)"
| "while_running turn ((i, stopped) # is) stopflag s =
     (if stopflag then Inr (True, s)
      else bindr (turn i s) (while_running turn is stopped))"

definition interface_loop :: "(byte list option \<times> bool) list \<Rightarrow> bool \<Rightarrow> daemon \<Rightarrow> (bool \<times> daemon) res" where
  "interface_loop = while_running interface_turn"

text \<open>While the IP thread waits for its queue, the interface thread may put packets there.\<close>

definition ip_loop :: "((denv \<times> FrameBuf list) \<times> bool) list \<Rightarrow> bool \<Rightarrow> daemon \<Rightarrow> (bool \<times> daemon) res" where
  "ip_loop = while_running (\<lambda>(E, arrived) d. ip_turn E (d\<lparr>d_rxQ := d_rxQ d @ arrived\<rparr>))"

text \<open>\<open>EventReactor::loop\<close> clears the flag first.\<close>

definition event_loop :: "((denv \<times> (handle \<times> u32) list option) \<times> bool) list \<Rightarrow> bool \<Rightarrow> daemon \<Rightarrow> (bool \<times> daemon) res" where
  "event_loop turns stopflag d = while_running (\<lambda>(E, polled). reactor_turn E polled) turns False d"

subsection \<open>Stopping\<close>

fun all_turns :: "('i \<Rightarrow> 's \<Rightarrow> 's res) \<Rightarrow> 'i list \<Rightarrow> 's \<Rightarrow> 's res" where
  "all_turns turn [] s = Inr s"
| "all_turns turn (i # is) s = bindr (turn i s) (all_turns turn is)"

lemma while_running_stopped [simp]: "while_running turn is True s = Inr (True, s)"
  by (cases "is") auto

lemma while_running_goes_on:
  "list_all (\<lambda>x. \<not> snd x) xs \<Longrightarrow> while_running turn xs False s = bindr (all_turns turn (map fst xs) s) (\<lambda>s'. Inr (False, s'))"
proof (induction xs arbitrary: s)
  case (Cons x xs)
  then show ?case by (cases x; cases "turn (fst x) s") auto
qed simp

lemma while_running_ends:
  "list_all (\<lambda>x. \<not> snd x) xs \<Longrightarrow>
   while_running turn (xs @ (i, True) # ys) False s = bindr (all_turns turn (map fst xs @ [i]) s) (\<lambda>s'. Inr (True, s'))"
proof (induction xs arbitrary: s)
  case Nil
  then show ?case by (cases "turn i s") auto
next
  case (Cons x xs)
  then show ?case by (cases x; cases "turn (fst x) s") auto
qed

text \<open>How the threads stop. Until its flag is set each thread goes on; the flag being set during a turn, this turn is finished and the
  loop returns, whatever would come next. But a turn that waits is not woken: the IP thread with nothing in its queue does
  not come back although the flag is set. And the event loop forgets a stop that came before it began.\<close>

theorem threads_stop:
  assumes "list_all (\<lambda>x. \<not> snd x) rs" "list_all (\<lambda>x. \<not> snd x) ps" "list_all (\<lambda>x. \<not> snd x) es"
  shows "interface_loop rs False d = bindr (all_turns interface_turn (map fst rs) d) (\<lambda>d'. Inr (False, d')) \<and>
    interface_loop (rs @ (rd, True) # rs') False d = bindr (all_turns interface_turn (map fst rs @ [rd]) d) (\<lambda>d'. Inr (True, d')) \<and>
    ip_loop (ps @ (p, True) # ps') False d =
      bindr (all_turns (\<lambda>(E, arrived) d. ip_turn E (d\<lparr>d_rxQ := d_rxQ d @ arrived\<rparr>)) (map fst ps @ [p]) d) (\<lambda>d'. Inr (True, d')) \<and>
    (d_rxQ d = [] \<longrightarrow> ip_loop (((E, []), True) # ps') False d = Inl WouldBlock) \<and>
    event_loop (es @ (e, True) # es') False d =
      bindr (all_turns (\<lambda>(E, polled). reactor_turn E polled) (map fst es @ [e]) d) (\<lambda>d'. Inr (True, d')) \<and>
    event_loop es True d = bindr (all_turns (\<lambda>(E, polled). reactor_turn E polled) (map fst es) d) (\<lambda>d'. Inr (False, d'))"
  unfolding interface_loop_def ip_loop_def event_loop_def
  by (simp add: while_running_ends [OF assms(1)] while_running_ends [OF assms(2)] while_running_ends [OF assms(3)]
      while_running_goes_on [OF assms(1)] while_running_goes_on [OF assms(3)] ip_turn_def)

theorem threads_stop_witness:
  "\<exists>d. daemon_start 1 3 = Inr d \<and> ip_loop [((sample_env, []), True)] False d = Inl WouldBlock \<and> event_loop [] True d = Inr (False, d) \<and>
     event_loop [((sample_env, Some []), True), ((sample_env, None), False)] False d = Inr (True, d)"
proof -
  obtain d where d: "daemon_start 1 3 = Inr d" using daemon_start_reachable by blast
  then have "d_rxQ d = []" by (auto simp: start_defs)
  moreover have "reactor_turn sample_env (Some []) d = Inr d"
    by (simp add: reactor_turn_def loop_turn_def poller_poll_def set_loop_def)
  ultimately show ?thesis
    using threads_stop [of "[]" "[]" "[]" d None "[]" "(sample_env, [])" "[]" sample_env "(sample_env, Some [])" "[((sample_env, None), False)]"] d
    by auto
qed

end
