(* ===== verification/Rpc_Descriptors.thy ===== *)
theory Rpc_Descriptors
  imports Rpc_Schema "HOL-Library.Multiset" "HOL-Library.Char_ord" "HOL-Library.List_Lexorder"
begin

section \<open>The tables of the message code (src/rpc/c_out)\<close>

text \<open>
  The interceptor packs and unpacks messages with the protobuf-c library, which is driven by
  tables: per message its fields in the order of their numbers, an index of them by name, the
  ranges of numbers in use, and where in the C struct each field lies. The library searches the
  ranges and the index, and reads and writes the structs at the given offsets, so it relies on the
  tables being in order and on the offsets fitting the structs. An offset is the pair of struct and
  member of \<open>offsetof\<close>; a struct is the list of its members with their C types.
\<close>

datatype field_label = LABEL_REQUIRED | LABEL_OPTIONAL

datatype field_type = TYPE_INT32 | TYPE_UINT64 | TYPE_BOOL | TYPE_ENUM | TYPE_BYTES | TYPE_STRING | TYPE_MESSAGE

text \<open>Name, number, label, type, offset of the quantifier, offset, table of the message or enumeration it has
  as its type, and whether it belongs to a oneof.\<close>

datatype FieldDescriptor =
  FD (fd_name: string) (fd_id: nat) (fd_label: field_label) (fd_type: field_type)
     (fd_quantifier: "(string \<times> string) option") (fd_offset: "string \<times> string")
     (fd_descriptor: "string option") (fd_oneof: bool)

text \<open>Name, short name, C name, package, the struct whose size is taken, fields, index by name, ranges with
  the closing element.\<close>

datatype MessageDescriptor =
  MD (md_name: string) (md_short_name: string) (md_c_name: string) (md_package: string) (md_sizeof: string)
     (md_n_fields: nat) (md_fields: "FieldDescriptor list") (md_by_name: "nat list")
     (md_n_ranges: nat) (md_ranges: "(nat \<times> nat) list")

text \<open>An enumeration: names, its values by number, its values by name, its ranges.\<close>

datatype EnumDescriptor =
  ED (ed_name: string) (ed_c_name: string) (ed_values: "(string \<times> string \<times> nat) list")
     (ed_by_name: "(string \<times> nat) list") (ed_ranges: "(nat \<times> nat) list")

subsection \<open>Requests (src/rpc/c_out/request.pb-c.h, request.pb-c.c)\<close>

definition request_structs :: "(string \<times> (string \<times> string) list) list" where
  "request_structs = [
     (''Request__Socket'', [(''base'', ''ProtobufCMessage''), (''domain'', ''int32_t''), (''type'', ''int32_t''), (''protocol'', ''int32_t'')]),
     (''Request__Connect'', [(''base'', ''ProtobufCMessage''), (''addr'', ''ProtobufCBinaryData'')]),
     (''Request__Close'', [(''base'', ''ProtobufCMessage'')]),
     (''Request__Recvfrom'', [(''base'', ''ProtobufCMessage''), (''len'', ''int32_t''), (''flags'', ''int32_t''), (''requireaddr'', ''protobuf_c_boolean'')]),
     (''Request__Sendto'', [(''base'', ''ProtobufCMessage''), (''buf'', ''ProtobufCBinaryData''), (''flags'', ''int32_t''), (''has_addr'', ''protobuf_c_boolean''),
        (''addr'', ''ProtobufCBinaryData'')]),
     (''Request__Poll'', [(''base'', ''ProtobufCMessage'')]),
     (''Request__Select'', [(''base'', ''ProtobufCMessage'')]),
     (''Request__Getpeername'', [(''base'', ''ProtobufCMessage'')]),
     (''Request__Getsockname'', [(''base'', ''ProtobufCMessage'')]),
     (''Request__Getsockopt'', [(''base'', ''ProtobufCMessage'')]),
     (''Request__Setsockopt'', [(''base'', ''ProtobufCMessage'')]),
     (''Request__Fcntl'', [(''base'', ''ProtobufCMessage'')]),
     (''Request__Atstart'', [(''base'', ''ProtobufCMessage''), (''progname'', ''char*'')]),
     (''Request'', [(''base'', ''ProtobufCMessage''), (''pid'', ''uint64_t''), (''calling_case'', ''Request__CallingCase''), (''socketcall'', ''Request__Socket*''),
        (''connectcall'', ''Request__Connect*''), (''closecall'', ''Request__Close*''), (''recvfromcall'', ''Request__Recvfrom*''), (''sendtocall'', ''Request__Sendto*''),
        (''pollcall'', ''Request__Poll*''), (''selectcall'', ''Request__Select*''), (''getpeernamecall'', ''Request__Getpeername*''), (''getsocknamecall'', ''Request__Getsockname*''),
        (''getsockoptcall'', ''Request__Getsockopt*''), (''setsockoptcall'', ''Request__Setsockopt*''), (''fcntlcall'', ''Request__Fcntl*''), (''atstartaction'', ''Request__Atstart*'')])]"

definition request__socket__descriptor :: MessageDescriptor where
  "request__socket__descriptor = MD ''Request.Socket'' ''Socket'' ''Request__Socket'' [] ''Request__Socket'' 3
     [
      FD ''domain'' 1 LABEL_REQUIRED TYPE_INT32 None (''Request__Socket'', ''domain'') None False,
      FD ''type'' 2 LABEL_REQUIRED TYPE_INT32 None (''Request__Socket'', ''type'') None False,
      FD ''protocol'' 3 LABEL_REQUIRED TYPE_INT32 None (''Request__Socket'', ''protocol'') None False]
     [0, 2, 1] 1 [(1, 0), (0, 3)]"

definition request__connect__descriptor :: MessageDescriptor where
  "request__connect__descriptor = MD ''Request.Connect'' ''Connect'' ''Request__Connect'' [] ''Request__Connect'' 1
     [
      FD ''addr'' 1 LABEL_REQUIRED TYPE_BYTES None (''Request__Connect'', ''addr'') None False]
     [0] 1 [(1, 0), (0, 1)]"

definition request__close__descriptor :: MessageDescriptor where
  "request__close__descriptor = MD ''Request.Close'' ''Close'' ''Request__Close'' [] ''Request__Close'' 0
     []
     [] 0 []"

definition request__recvfrom__descriptor :: MessageDescriptor where
  "request__recvfrom__descriptor = MD ''Request.Recvfrom'' ''Recvfrom'' ''Request__Recvfrom'' [] ''Request__Recvfrom'' 3
     [
      FD ''len'' 1 LABEL_REQUIRED TYPE_INT32 None (''Request__Recvfrom'', ''len'') None False,
      FD ''flags'' 2 LABEL_REQUIRED TYPE_INT32 None (''Request__Recvfrom'', ''flags'') None False,
      FD ''requireAddr'' 3 LABEL_REQUIRED TYPE_BOOL None (''Request__Recvfrom'', ''requireaddr'') None False]
     [1, 0, 2] 1 [(1, 0), (0, 3)]"

definition request__sendto__descriptor :: MessageDescriptor where
  "request__sendto__descriptor = MD ''Request.Sendto'' ''Sendto'' ''Request__Sendto'' [] ''Request__Sendto'' 3
     [
      FD ''buf'' 1 LABEL_REQUIRED TYPE_BYTES None (''Request__Sendto'', ''buf'') None False,
      FD ''flags'' 2 LABEL_REQUIRED TYPE_INT32 None (''Request__Sendto'', ''flags'') None False,
      FD ''addr'' 3 LABEL_OPTIONAL TYPE_BYTES (Some (''Request__Sendto'', ''has_addr'')) (''Request__Sendto'', ''addr'') None False]
     [2, 0, 1] 1 [(1, 0), (0, 3)]"

definition request__poll__descriptor :: MessageDescriptor where
  "request__poll__descriptor = MD ''Request.Poll'' ''Poll'' ''Request__Poll'' [] ''Request__Poll'' 0
     []
     [] 0 []"

definition request__select__descriptor :: MessageDescriptor where
  "request__select__descriptor = MD ''Request.Select'' ''Select'' ''Request__Select'' [] ''Request__Select'' 0
     []
     [] 0 []"

definition request__getpeername__descriptor :: MessageDescriptor where
  "request__getpeername__descriptor = MD ''Request.Getpeername'' ''Getpeername'' ''Request__Getpeername'' [] ''Request__Getpeername'' 0
     []
     [] 0 []"

definition request__getsockname__descriptor :: MessageDescriptor where
  "request__getsockname__descriptor = MD ''Request.Getsockname'' ''Getsockname'' ''Request__Getsockname'' [] ''Request__Getsockname'' 0
     []
     [] 0 []"

definition request__getsockopt__descriptor :: MessageDescriptor where
  "request__getsockopt__descriptor = MD ''Request.Getsockopt'' ''Getsockopt'' ''Request__Getsockopt'' [] ''Request__Getsockopt'' 0
     []
     [] 0 []"

definition request__setsockopt__descriptor :: MessageDescriptor where
  "request__setsockopt__descriptor = MD ''Request.Setsockopt'' ''Setsockopt'' ''Request__Setsockopt'' [] ''Request__Setsockopt'' 0
     []
     [] 0 []"

definition request__fcntl__descriptor :: MessageDescriptor where
  "request__fcntl__descriptor = MD ''Request.Fcntl'' ''Fcntl'' ''Request__Fcntl'' [] ''Request__Fcntl'' 0
     []
     [] 0 []"

definition request__atstart__descriptor :: MessageDescriptor where
  "request__atstart__descriptor = MD ''Request.Atstart'' ''Atstart'' ''Request__Atstart'' [] ''Request__Atstart'' 1
     [
      FD ''progname'' 1 LABEL_REQUIRED TYPE_STRING None (''Request__Atstart'', ''progname'') None False]
     [0] 1 [(1, 0), (0, 1)]"

definition request__field_descriptors :: "FieldDescriptor list" where
  "request__field_descriptors = [
      FD ''socketCall'' 1 LABEL_OPTIONAL TYPE_MESSAGE (Some (''Request'', ''calling_case'')) (''Request'', ''socketcall'') (Some ''request__socket__descriptor'') True,
      FD ''connectCall'' 2 LABEL_OPTIONAL TYPE_MESSAGE (Some (''Request'', ''calling_case'')) (''Request'', ''connectcall'') (Some ''request__connect__descriptor'') True,
      FD ''closeCall'' 3 LABEL_OPTIONAL TYPE_MESSAGE (Some (''Request'', ''calling_case'')) (''Request'', ''closecall'') (Some ''request__close__descriptor'') True,
      FD ''recvfromCall'' 4 LABEL_OPTIONAL TYPE_MESSAGE (Some (''Request'', ''calling_case'')) (''Request'', ''recvfromcall'') (Some ''request__recvfrom__descriptor'') True,
      FD ''sendtoCall'' 5 LABEL_OPTIONAL TYPE_MESSAGE (Some (''Request'', ''calling_case'')) (''Request'', ''sendtocall'') (Some ''request__sendto__descriptor'') True,
      FD ''pollCall'' 6 LABEL_OPTIONAL TYPE_MESSAGE (Some (''Request'', ''calling_case'')) (''Request'', ''pollcall'') (Some ''request__poll__descriptor'') True,
      FD ''selectCall'' 7 LABEL_OPTIONAL TYPE_MESSAGE (Some (''Request'', ''calling_case'')) (''Request'', ''selectcall'') (Some ''request__select__descriptor'') True,
      FD ''getpeernameCall'' 8 LABEL_OPTIONAL TYPE_MESSAGE (Some (''Request'', ''calling_case'')) (''Request'', ''getpeernamecall'') (Some ''request__getpeername__descriptor'') True,
      FD ''getsocknameCall'' 9 LABEL_OPTIONAL TYPE_MESSAGE (Some (''Request'', ''calling_case'')) (''Request'', ''getsocknamecall'') (Some ''request__getsockname__descriptor'') True,
      FD ''getsockoptCall'' 10 LABEL_OPTIONAL TYPE_MESSAGE (Some (''Request'', ''calling_case'')) (''Request'', ''getsockoptcall'') (Some ''request__getsockopt__descriptor'') True,
      FD ''setsockoptCall'' 11 LABEL_OPTIONAL TYPE_MESSAGE (Some (''Request'', ''calling_case'')) (''Request'', ''setsockoptcall'') (Some ''request__setsockopt__descriptor'') True,
      FD ''fcntlCall'' 12 LABEL_OPTIONAL TYPE_MESSAGE (Some (''Request'', ''calling_case'')) (''Request'', ''fcntlcall'') (Some ''request__fcntl__descriptor'') True,
      FD ''pid'' 15 LABEL_REQUIRED TYPE_UINT64 None (''Request'', ''pid'') None False,
      FD ''atstartAction'' 16 LABEL_OPTIONAL TYPE_MESSAGE (Some (''Request'', ''calling_case'')) (''Request'', ''atstartaction'') (Some ''request__atstart__descriptor'') True]"

definition request__descriptor :: MessageDescriptor where
  "request__descriptor = MD ''Request'' ''Request'' ''Request'' [] ''Request'' 14
     request__field_descriptors
     [13, 2, 1, 11, 7, 8, 9, 12, 5, 3, 6, 4, 10, 0] 2 [(1, 0), (15, 12), (0, 14)]"

subsection \<open>Responses (src/rpc/c_out/response.pb-c.h, response.pb-c.c)\<close>

definition response_structs :: "(string \<times> (string \<times> string) list) list" where
  "response_structs = [
     (''Response__Socket'', [(''base'', ''ProtobufCMessage''), (''ret'', ''int32_t''), (''has_errno_'', ''protobuf_c_boolean''), (''errno_'', ''int32_t'')]),
     (''Response__Connect'', [(''base'', ''ProtobufCMessage''), (''ret'', ''int32_t''), (''has_errno_'', ''protobuf_c_boolean''), (''errno_'', ''int32_t'')]),
     (''Response__Close'', [(''base'', ''ProtobufCMessage''), (''ret'', ''int32_t''), (''has_errno_'', ''protobuf_c_boolean''), (''errno_'', ''int32_t'')]),
     (''Response__Recvfrom'', [(''base'', ''ProtobufCMessage''), (''ret'', ''int32_t''), (''has_errno_'', ''protobuf_c_boolean''), (''errno_'', ''int32_t''),
        (''has_buf'', ''protobuf_c_boolean''), (''buf'', ''ProtobufCBinaryData''), (''has_addr'', ''protobuf_c_boolean''), (''addr'', ''ProtobufCBinaryData'')]),
     (''Response__Sendto'', [(''base'', ''ProtobufCMessage''), (''ret'', ''int32_t''), (''has_errno_'', ''protobuf_c_boolean''), (''errno_'', ''int32_t'')]),
     (''Response__Poll'', [(''base'', ''ProtobufCMessage''), (''ret'', ''int32_t''), (''has_errno_'', ''protobuf_c_boolean''), (''errno_'', ''int32_t'')]),
     (''Response__Select'', [(''base'', ''ProtobufCMessage''), (''ret'', ''int32_t''), (''has_errno_'', ''protobuf_c_boolean''), (''errno_'', ''int32_t'')]),
     (''Response__Getpeername'', [(''base'', ''ProtobufCMessage''), (''ret'', ''int32_t''), (''has_errno_'', ''protobuf_c_boolean''), (''errno_'', ''int32_t''),
        (''has_peername'', ''protobuf_c_boolean''), (''peername'', ''ProtobufCBinaryData'')]),
     (''Response__Getsockname'', [(''base'', ''ProtobufCMessage''), (''ret'', ''int32_t''), (''has_errno_'', ''protobuf_c_boolean''), (''errno_'', ''int32_t''),
        (''has_sockanme'', ''protobuf_c_boolean''), (''sockanme'', ''ProtobufCBinaryData'')]),
     (''Response__Getsockopt'', [(''base'', ''ProtobufCMessage''), (''ret'', ''int32_t''), (''has_errno_'', ''protobuf_c_boolean''), (''errno_'', ''int32_t'')]),
     (''Response__Setsockopt'', [(''base'', ''ProtobufCMessage''), (''ret'', ''int32_t''), (''has_errno_'', ''protobuf_c_boolean''), (''errno_'', ''int32_t'')]),
     (''Response__Fcntl'', [(''base'', ''ProtobufCMessage''), (''ret'', ''int32_t''), (''has_errno_'', ''protobuf_c_boolean''), (''errno_'', ''int32_t'')]),
     (''Response__Atstart'', [(''base'', ''ProtobufCMessage''), (''startfd'', ''int32_t''), (''has_count'', ''protobuf_c_boolean''), (''count'', ''int32_t'')]),
     (''Response'', [(''base'', ''ProtobufCMessage''), (''retcode'', ''Response__RetCode''), (''returning_case'', ''Response__ReturningCase''), (''socketcall'', ''Response__Socket*''),
        (''connectcall'', ''Response__Connect*''), (''closecall'', ''Response__Close*''), (''recvfromcall'', ''Response__Recvfrom*''), (''sendtocall'', ''Response__Sendto*''),
        (''pollcall'', ''Response__Poll*''), (''selectcall'', ''Response__Select*''), (''getpeernamecall'', ''Response__Getpeername*''), (''getsocknamecall'', ''Response__Getsockname*''),
        (''getsockoptcall'', ''Response__Getsockopt*''), (''setsockoptcall'', ''Response__Setsockopt*''), (''fcntlcall'', ''Response__Fcntl*''), (''atstartaction'', ''Response__Atstart*'')])]"

definition response__socket__descriptor :: MessageDescriptor where
  "response__socket__descriptor = MD ''Response.Socket'' ''Socket'' ''Response__Socket'' [] ''Response__Socket'' 2
     [
      FD ''ret'' 1 LABEL_REQUIRED TYPE_INT32 None (''Response__Socket'', ''ret'') None False,
      FD ''errno_'' 2 LABEL_OPTIONAL TYPE_INT32 (Some (''Response__Socket'', ''has_errno_'')) (''Response__Socket'', ''errno_'') None False]
     [1, 0] 1 [(1, 0), (0, 2)]"

definition response__connect__descriptor :: MessageDescriptor where
  "response__connect__descriptor = MD ''Response.Connect'' ''Connect'' ''Response__Connect'' [] ''Response__Connect'' 2
     [
      FD ''ret'' 1 LABEL_REQUIRED TYPE_INT32 None (''Response__Connect'', ''ret'') None False,
      FD ''errno_'' 2 LABEL_OPTIONAL TYPE_INT32 (Some (''Response__Connect'', ''has_errno_'')) (''Response__Connect'', ''errno_'') None False]
     [1, 0] 1 [(1, 0), (0, 2)]"

definition response__close__descriptor :: MessageDescriptor where
  "response__close__descriptor = MD ''Response.Close'' ''Close'' ''Response__Close'' [] ''Response__Close'' 2
     [
      FD ''ret'' 1 LABEL_REQUIRED TYPE_INT32 None (''Response__Close'', ''ret'') None False,
      FD ''errno_'' 2 LABEL_OPTIONAL TYPE_INT32 (Some (''Response__Close'', ''has_errno_'')) (''Response__Close'', ''errno_'') None False]
     [1, 0] 1 [(1, 0), (0, 2)]"

definition response__recvfrom__descriptor :: MessageDescriptor where
  "response__recvfrom__descriptor = MD ''Response.Recvfrom'' ''Recvfrom'' ''Response__Recvfrom'' [] ''Response__Recvfrom'' 4
     [
      FD ''ret'' 1 LABEL_REQUIRED TYPE_INT32 None (''Response__Recvfrom'', ''ret'') None False,
      FD ''errno_'' 2 LABEL_OPTIONAL TYPE_INT32 (Some (''Response__Recvfrom'', ''has_errno_'')) (''Response__Recvfrom'', ''errno_'') None False,
      FD ''buf'' 3 LABEL_OPTIONAL TYPE_BYTES (Some (''Response__Recvfrom'', ''has_buf'')) (''Response__Recvfrom'', ''buf'') None False,
      FD ''addr'' 4 LABEL_OPTIONAL TYPE_BYTES (Some (''Response__Recvfrom'', ''has_addr'')) (''Response__Recvfrom'', ''addr'') None False]
     [3, 2, 1, 0] 1 [(1, 0), (0, 4)]"

definition response__sendto__descriptor :: MessageDescriptor where
  "response__sendto__descriptor = MD ''Response.Sendto'' ''Sendto'' ''Response__Sendto'' [] ''Response__Sendto'' 2
     [
      FD ''ret'' 1 LABEL_REQUIRED TYPE_INT32 None (''Response__Sendto'', ''ret'') None False,
      FD ''errno_'' 2 LABEL_OPTIONAL TYPE_INT32 (Some (''Response__Sendto'', ''has_errno_'')) (''Response__Sendto'', ''errno_'') None False]
     [1, 0] 1 [(1, 0), (0, 2)]"

definition response__poll__descriptor :: MessageDescriptor where
  "response__poll__descriptor = MD ''Response.Poll'' ''Poll'' ''Response__Poll'' [] ''Response__Poll'' 2
     [
      FD ''ret'' 1 LABEL_REQUIRED TYPE_INT32 None (''Response__Poll'', ''ret'') None False,
      FD ''errno_'' 2 LABEL_OPTIONAL TYPE_INT32 (Some (''Response__Poll'', ''has_errno_'')) (''Response__Poll'', ''errno_'') None False]
     [1, 0] 1 [(1, 0), (0, 2)]"

definition response__select__descriptor :: MessageDescriptor where
  "response__select__descriptor = MD ''Response.Select'' ''Select'' ''Response__Select'' [] ''Response__Select'' 2
     [
      FD ''ret'' 1 LABEL_REQUIRED TYPE_INT32 None (''Response__Select'', ''ret'') None False,
      FD ''errno_'' 2 LABEL_OPTIONAL TYPE_INT32 (Some (''Response__Select'', ''has_errno_'')) (''Response__Select'', ''errno_'') None False]
     [1, 0] 1 [(1, 0), (0, 2)]"

definition response__getpeername__descriptor :: MessageDescriptor where
  "response__getpeername__descriptor = MD ''Response.Getpeername'' ''Getpeername'' ''Response__Getpeername'' [] ''Response__Getpeername'' 3
     [
      FD ''ret'' 1 LABEL_REQUIRED TYPE_INT32 None (''Response__Getpeername'', ''ret'') None False,
      FD ''errno_'' 2 LABEL_OPTIONAL TYPE_INT32 (Some (''Response__Getpeername'', ''has_errno_'')) (''Response__Getpeername'', ''errno_'') None False,
      FD ''peername'' 3 LABEL_OPTIONAL TYPE_BYTES (Some (''Response__Getpeername'', ''has_peername'')) (''Response__Getpeername'', ''peername'') None False]
     [1, 2, 0] 1 [(1, 0), (0, 3)]"

definition response__getsockname__descriptor :: MessageDescriptor where
  "response__getsockname__descriptor = MD ''Response.Getsockname'' ''Getsockname'' ''Response__Getsockname'' [] ''Response__Getsockname'' 3
     [
      FD ''ret'' 1 LABEL_REQUIRED TYPE_INT32 None (''Response__Getsockname'', ''ret'') None False,
      FD ''errno_'' 2 LABEL_OPTIONAL TYPE_INT32 (Some (''Response__Getsockname'', ''has_errno_'')) (''Response__Getsockname'', ''errno_'') None False,
      FD ''sockanme'' 3 LABEL_OPTIONAL TYPE_BYTES (Some (''Response__Getsockname'', ''has_sockanme'')) (''Response__Getsockname'', ''sockanme'') None False]
     [1, 0, 2] 1 [(1, 0), (0, 3)]"

definition response__getsockopt__descriptor :: MessageDescriptor where
  "response__getsockopt__descriptor = MD ''Response.Getsockopt'' ''Getsockopt'' ''Response__Getsockopt'' [] ''Response__Getsockopt'' 2
     [
      FD ''ret'' 1 LABEL_REQUIRED TYPE_INT32 None (''Response__Getsockopt'', ''ret'') None False,
      FD ''errno_'' 2 LABEL_OPTIONAL TYPE_INT32 (Some (''Response__Getsockopt'', ''has_errno_'')) (''Response__Getsockopt'', ''errno_'') None False]
     [1, 0] 1 [(1, 0), (0, 2)]"

definition response__setsockopt__descriptor :: MessageDescriptor where
  "response__setsockopt__descriptor = MD ''Response.Setsockopt'' ''Setsockopt'' ''Response__Setsockopt'' [] ''Response__Setsockopt'' 2
     [
      FD ''ret'' 1 LABEL_REQUIRED TYPE_INT32 None (''Response__Setsockopt'', ''ret'') None False,
      FD ''errno_'' 2 LABEL_OPTIONAL TYPE_INT32 (Some (''Response__Setsockopt'', ''has_errno_'')) (''Response__Setsockopt'', ''errno_'') None False]
     [1, 0] 1 [(1, 0), (0, 2)]"

definition response__fcntl__descriptor :: MessageDescriptor where
  "response__fcntl__descriptor = MD ''Response.Fcntl'' ''Fcntl'' ''Response__Fcntl'' [] ''Response__Fcntl'' 2
     [
      FD ''ret'' 1 LABEL_REQUIRED TYPE_INT32 None (''Response__Fcntl'', ''ret'') None False,
      FD ''errno_'' 2 LABEL_OPTIONAL TYPE_INT32 (Some (''Response__Fcntl'', ''has_errno_'')) (''Response__Fcntl'', ''errno_'') None False]
     [1, 0] 1 [(1, 0), (0, 2)]"

definition response__atstart__descriptor :: MessageDescriptor where
  "response__atstart__descriptor = MD ''Response.Atstart'' ''Atstart'' ''Response__Atstart'' [] ''Response__Atstart'' 2
     [
      FD ''startfd'' 1 LABEL_REQUIRED TYPE_INT32 None (''Response__Atstart'', ''startfd'') None False,
      FD ''count'' 2 LABEL_OPTIONAL TYPE_INT32 (Some (''Response__Atstart'', ''has_count'')) (''Response__Atstart'', ''count'') None False]
     [1, 0] 1 [(1, 0), (0, 2)]"

definition response__ret_code__descriptor :: EnumDescriptor where
  "response__ret_code__descriptor = ED ''Response.RetCode'' ''Response__RetCode''
     [(''OK'', ''RESPONSE__RET_CODE__OK'', 0), (''ERROR'', ''RESPONSE__RET_CODE__ERROR'', 1),
      (''WAIT_NEXT'', ''RESPONSE__RET_CODE__WAIT_NEXT'', 2)]
     [(''ERROR'', 1), (''OK'', 0), (''WAIT_NEXT'', 2)]
     [(0, 0), (0, 3)]"

definition response__field_descriptors :: "FieldDescriptor list" where
  "response__field_descriptors = [
      FD ''socketCall'' 1 LABEL_OPTIONAL TYPE_MESSAGE (Some (''Response'', ''returning_case'')) (''Response'', ''socketcall'') (Some ''response__socket__descriptor'') True,
      FD ''connectCall'' 2 LABEL_OPTIONAL TYPE_MESSAGE (Some (''Response'', ''returning_case'')) (''Response'', ''connectcall'') (Some ''response__connect__descriptor'') True,
      FD ''closeCall'' 3 LABEL_OPTIONAL TYPE_MESSAGE (Some (''Response'', ''returning_case'')) (''Response'', ''closecall'') (Some ''response__close__descriptor'') True,
      FD ''recvfromCall'' 4 LABEL_OPTIONAL TYPE_MESSAGE (Some (''Response'', ''returning_case'')) (''Response'', ''recvfromcall'') (Some ''response__recvfrom__descriptor'') True,
      FD ''sendtoCall'' 5 LABEL_OPTIONAL TYPE_MESSAGE (Some (''Response'', ''returning_case'')) (''Response'', ''sendtocall'') (Some ''response__sendto__descriptor'') True,
      FD ''pollCall'' 6 LABEL_OPTIONAL TYPE_MESSAGE (Some (''Response'', ''returning_case'')) (''Response'', ''pollcall'') (Some ''response__poll__descriptor'') True,
      FD ''selectCall'' 7 LABEL_OPTIONAL TYPE_MESSAGE (Some (''Response'', ''returning_case'')) (''Response'', ''selectcall'') (Some ''response__select__descriptor'') True,
      FD ''getpeernameCall'' 8 LABEL_OPTIONAL TYPE_MESSAGE (Some (''Response'', ''returning_case'')) (''Response'', ''getpeernamecall'') (Some ''response__getpeername__descriptor'') True,
      FD ''getsocknameCall'' 9 LABEL_OPTIONAL TYPE_MESSAGE (Some (''Response'', ''returning_case'')) (''Response'', ''getsocknamecall'') (Some ''response__getsockname__descriptor'') True,
      FD ''getsockoptCall'' 10 LABEL_OPTIONAL TYPE_MESSAGE (Some (''Response'', ''returning_case'')) (''Response'', ''getsockoptcall'') (Some ''response__getsockopt__descriptor'') True,
      FD ''setsockoptCall'' 11 LABEL_OPTIONAL TYPE_MESSAGE (Some (''Response'', ''returning_case'')) (''Response'', ''setsockoptcall'') (Some ''response__setsockopt__descriptor'') True,
      FD ''fcntlCall'' 12 LABEL_OPTIONAL TYPE_MESSAGE (Some (''Response'', ''returning_case'')) (''Response'', ''fcntlcall'') (Some ''response__fcntl__descriptor'') True,
      FD ''retCode'' 15 LABEL_REQUIRED TYPE_ENUM None (''Response'', ''retcode'') (Some ''response__ret_code__descriptor'') False,
      FD ''atstartAction'' 16 LABEL_OPTIONAL TYPE_MESSAGE (Some (''Response'', ''returning_case'')) (''Response'', ''atstartaction'') (Some ''response__atstart__descriptor'') True]"

definition response__descriptor :: MessageDescriptor where
  "response__descriptor = MD ''Response'' ''Response'' ''Response'' [] ''Response'' 14
     response__field_descriptors
     [13, 2, 1, 11, 7, 8, 9, 5, 3, 12, 6, 4, 10, 0] 2 [(1, 0), (15, 12), (0, 14)]"

subsection \<open>What the library relies on\<close>

definition request_descriptors :: "(string \<times> MessageDescriptor) list" where
  "request_descriptors = [
     (''request__socket__descriptor'', request__socket__descriptor), (''request__connect__descriptor'', request__connect__descriptor),
     (''request__close__descriptor'', request__close__descriptor), (''request__recvfrom__descriptor'', request__recvfrom__descriptor),
     (''request__sendto__descriptor'', request__sendto__descriptor), (''request__poll__descriptor'', request__poll__descriptor),
     (''request__select__descriptor'', request__select__descriptor), (''request__getpeername__descriptor'', request__getpeername__descriptor),
     (''request__getsockname__descriptor'', request__getsockname__descriptor), (''request__getsockopt__descriptor'', request__getsockopt__descriptor),
     (''request__setsockopt__descriptor'', request__setsockopt__descriptor), (''request__fcntl__descriptor'', request__fcntl__descriptor),
     (''request__atstart__descriptor'', request__atstart__descriptor), (''request__descriptor'', request__descriptor)]"

definition response_descriptors :: "(string \<times> MessageDescriptor) list" where
  "response_descriptors = [
     (''response__socket__descriptor'', response__socket__descriptor), (''response__connect__descriptor'', response__connect__descriptor),
     (''response__close__descriptor'', response__close__descriptor), (''response__recvfrom__descriptor'', response__recvfrom__descriptor),
     (''response__sendto__descriptor'', response__sendto__descriptor), (''response__poll__descriptor'', response__poll__descriptor),
     (''response__select__descriptor'', response__select__descriptor), (''response__getpeername__descriptor'', response__getpeername__descriptor),
     (''response__getsockname__descriptor'', response__getsockname__descriptor), (''response__getsockopt__descriptor'', response__getsockopt__descriptor),
     (''response__setsockopt__descriptor'', response__setsockopt__descriptor), (''response__fcntl__descriptor'', response__fcntl__descriptor),
     (''response__atstart__descriptor'', response__atstart__descriptor), (''response__descriptor'', response__descriptor)]"

definition rpc_descriptors :: "(string \<times> MessageDescriptor) list" where
  "rpc_descriptors = request_descriptors @ response_descriptors"

definition rpc_structs :: "(string \<times> (string \<times> string) list) list" where
  "rpc_structs = request_structs @ response_structs"

text \<open>A range stands for as many numbers as the index grows until the next element.\<close>

fun range_lookup :: "(nat \<times> nat) list \<Rightarrow> nat \<Rightarrow> nat option" where
  "range_lookup ((s, i) # (s', j) # rs) v =
     (if s \<le> v \<and> v < s + (j - i) then Some (i + (v - s)) else range_lookup ((s', j) # rs) v)"
| "range_lookup _ v = None"

text \<open>The position of a number in a list.\<close>

fun pos_of :: "nat list \<Rightarrow> nat \<Rightarrow> nat option" where
  "pos_of [] v = None"
| "pos_of (x # xs) v = (if x = v then Some 0 else map_option Suc (pos_of xs v))"

text \<open>The struct of a message, by the name of its table; the list of them saves evaluating the tables.\<close>

definition message_c_name :: "string \<Rightarrow> string option" where
  "message_c_name d = map_option md_c_name (map_of rpc_descriptors d)"

lemma message_c_name_code [code]: "message_c_name d = map_of [
     (''request__socket__descriptor'', ''Request__Socket''), (''request__connect__descriptor'', ''Request__Connect''),
     (''request__close__descriptor'', ''Request__Close''), (''request__recvfrom__descriptor'', ''Request__Recvfrom''),
     (''request__sendto__descriptor'', ''Request__Sendto''), (''request__poll__descriptor'', ''Request__Poll''),
     (''request__select__descriptor'', ''Request__Select''), (''request__getpeername__descriptor'', ''Request__Getpeername''),
     (''request__getsockname__descriptor'', ''Request__Getsockname''), (''request__getsockopt__descriptor'', ''Request__Getsockopt''),
     (''request__setsockopt__descriptor'', ''Request__Setsockopt''), (''request__fcntl__descriptor'', ''Request__Fcntl''),
     (''request__atstart__descriptor'', ''Request__Atstart''), (''request__descriptor'', ''Request''),
     (''response__socket__descriptor'', ''Response__Socket''), (''response__connect__descriptor'', ''Response__Connect''),
     (''response__close__descriptor'', ''Response__Close''), (''response__recvfrom__descriptor'', ''Response__Recvfrom''),
     (''response__sendto__descriptor'', ''Response__Sendto''), (''response__poll__descriptor'', ''Response__Poll''),
     (''response__select__descriptor'', ''Response__Select''), (''response__getpeername__descriptor'', ''Response__Getpeername''),
     (''response__getsockname__descriptor'', ''Response__Getsockname''), (''response__getsockopt__descriptor'', ''Response__Getsockopt''),
     (''response__setsockopt__descriptor'', ''Response__Setsockopt''), (''response__fcntl__descriptor'', ''Response__Fcntl''),
     (''response__atstart__descriptor'', ''Response__Atstart''), (''response__descriptor'', ''Response'')] d"
proof -
  have "map_option md_c_name (map_of xs d) = map_of (map (\<lambda>(s, m). (s, md_c_name m)) xs) d" for xs
    by (induction xs) auto
  then show ?thesis
    by (simp only: message_c_name_def rpc_descriptors_def request_descriptors_def response_descriptors_def append.simps list.map
      prod.case request__socket__descriptor_def request__connect__descriptor_def request__close__descriptor_def request__recvfrom__descriptor_def request__sendto__descriptor_def request__poll__descriptor_def request__select__descriptor_def request__getpeername__descriptor_def request__getsockname__descriptor_def request__getsockopt__descriptor_def request__setsockopt__descriptor_def request__fcntl__descriptor_def request__atstart__descriptor_def request__descriptor_def response__socket__descriptor_def response__connect__descriptor_def response__close__descriptor_def response__recvfrom__descriptor_def response__sendto__descriptor_def response__poll__descriptor_def response__select__descriptor_def response__getpeername__descriptor_def response__getsockname__descriptor_def response__getsockopt__descriptor_def response__setsockopt__descriptor_def response__fcntl__descriptor_def response__atstart__descriptor_def response__descriptor_def MessageDescriptor.sel)
qed

text \<open>The C type a field of this type needs at its offset.\<close>

fun c_type :: "FieldDescriptor \<Rightarrow> string option" where
  "c_type (FD n i l TYPE_INT32 q off d u) = Some ''int32_t''"
| "c_type (FD n i l TYPE_UINT64 q off d u) = Some ''uint64_t''"
| "c_type (FD n i l TYPE_BOOL q off d u) = Some ''protobuf_c_boolean''"
| "c_type (FD n i l TYPE_BYTES q off d u) = Some ''ProtobufCBinaryData''"
| "c_type (FD n i l TYPE_STRING q off d u) = Some ''char*''"
| "c_type (FD n i l TYPE_ENUM q off d u) =
     (if d = Some ''response__ret_code__descriptor'' then Some (ed_c_name response__ret_code__descriptor) else None)"
| "c_type (FD n i l TYPE_MESSAGE q off d u) =
     map_option (\<lambda>c. c @ ''*'') (Option.bind d message_c_name)"

definition member_type :: "string \<times> string \<Rightarrow> string option" where
  "member_type off = Option.bind (map_of rpc_structs (fst off)) (\<lambda>ms. map_of ms (snd off))"

text \<open>A field lies in the struct of its message, with the C type it needs; the quantifier of an optional field
  is its \<open>has_\<close> flag, that of a oneof the case member; required fields have none.\<close>

definition field_fits :: "string \<Rightarrow> (string \<times> string) list \<Rightarrow> string \<Rightarrow> FieldDescriptor \<Rightarrow> bool" where
  "field_fits cname ms caset f \<longleftrightarrow>
     fst (fd_offset f) = cname \<and> (case c_type f of None \<Rightarrow> False | Some t \<Rightarrow> map_of ms (snd (fd_offset f)) = Some t) \<and>
     (case fd_quantifier f of
        None \<Rightarrow> fd_label f = LABEL_REQUIRED \<and> \<not> fd_oneof f
      | Some qo \<Rightarrow> fst qo = cname \<and> fd_label f = LABEL_OPTIONAL \<and>
          map_of ms (snd qo) = Some (if fd_oneof f then caset else ''protobuf_c_boolean'') \<and>
          (\<not> fd_oneof f \<longrightarrow> snd qo = ''has_'' @ snd (fd_offset f)))"

definition case_type :: "string \<Rightarrow> string" where
  "case_type cname = (if cname = ''Request'' then ''Request__CallingCase'' else ''Response__ReturningCase'')"

subsection \<open>Lemmas\<close>

lemma field_fits_type:
  assumes "map_of rpc_structs cname = Some ms" "field_fits cname ms ct f"
  shows "fst (fd_offset f) = cname \<and> member_type (fd_offset f) = c_type f \<and> c_type f \<noteq> None"
  using assms by (cases "c_type f") (auto simp: field_fits_def member_type_def)

text \<open>The ranges that belong to a list of numbers.\<close>

fun runs_from :: "nat \<Rightarrow> nat \<Rightarrow> nat list \<Rightarrow> (nat \<times> nat) list" where
  "runs_from nxt i [] = [(0, i)]"
| "runs_from nxt i (v # vs) =
     (if v = nxt then runs_from (Suc nxt) (Suc i) vs else (v, i) # runs_from (Suc v) (Suc i) vs)"

fun runs :: "nat list \<Rightarrow> (nat \<times> nat) list" where
  "runs [] = []"
| "runs (v # vs) = (v, 0) # runs_from (Suc v) 1 vs"

lemma pos_of_None: "v \<notin> set xs \<Longrightarrow> pos_of xs v = None"
  by (induction xs) auto

lemma range_lookup_runs_from:
  assumes "s + (i - i0) = nxt" "i0 < i" "sorted_wrt (<) vs" "list_all (\<lambda>x. nxt \<le> x) vs"
  shows "range_lookup ((s, i0) # runs_from nxt i vs) v =
    (if s \<le> v \<and> v < nxt then Some (i0 + (v - s)) else map_option ((+) i) (pos_of vs v))"
  using assms
proof (induction vs arbitrary: s i0 nxt i)
  case (Cons x vs)
  have sm: "map_option ((+) i) (map_option Suc p) = map_option ((+) (Suc i)) p" for p by (cases p) simp_all
  show ?case
  proof (cases "x = nxt")
    case True
    have "list_all (\<lambda>y. Suc nxt \<le> y) vs" using Cons.prems(3) True by (auto simp: list_all_iff)
    moreover have "s + (Suc i - i0) = Suc nxt" "i0 < Suc i" "sorted_wrt (<) vs" using Cons.prems by auto
    moreover have "i = i0 + (nxt - s)" "s \<le> nxt" using Cons.prems(1,2) by auto
    ultimately show ?thesis using Cons.IH [of s "Suc i" i0 "Suc nxt"] True sm by auto
  next
    case False
    then have x: "nxt < x" using Cons.prems(4) by simp
    have "list_all (\<lambda>y. Suc x \<le> y) vs" "sorted_wrt (<) vs" using Cons.prems(3) by (auto simp: list_all_iff)
    then have "range_lookup ((x, i) # runs_from (Suc x) (Suc i) vs) v =
        (if x \<le> v \<and> v < Suc x then Some (i + (v - x)) else map_option ((+) (Suc i)) (pos_of vs v))"
      by (intro Cons.IH) simp_all
    then show ?thesis using False x Cons.prems(1) sm by (auto simp: less_Suc_eq_le)
  qed
qed simp

lemma range_lookup_runs: "sorted_wrt (<) vs \<Longrightarrow> range_lookup (runs vs) v = pos_of vs v"
proof (cases vs)
  case (Cons x xs)
  assume s: "sorted_wrt (<) vs"
  then have "list_all (\<lambda>y. Suc x \<le> y) xs" "sorted_wrt (<) xs" using Cons by (auto simp: list_all_iff)
  from range_lookup_runs_from [of x 1 0 "Suc x" xs v] this show ?thesis
    using Cons by (cases "pos_of xs v") auto
qed simp

lemma range_calling_case: "range calling_case = {0, 1, 2, 3, 4, 5, 6, 7, 8, 9, 10, 11, 12, 16}"
proof -
  have "range calling_case = calling_case ` {CallingNotSet, CallSocket 0 0 0, CallConnect [], CallClose, CallRecvfrom 0 0 False,
    CallSendto [] 0 None, CallPoll, CallSelect, CallGetpeername, CallGetsockname, CallGetsockopt, CallSetsockopt, CallFcntl,
    ActionAtstart []}" (is "_ = calling_case ` ?S")
  proof (intro equalityI subsetI)
    fix n assume "n \<in> range calling_case"
    then obtain q where "n = calling_case q" by blast
    then show "n \<in> calling_case ` ?S" by (cases q) auto
  qed blast
  then show ?thesis by simp
qed

text \<open>All of it in one test.\<close>

definition table_ok :: "MessageDescriptor \<Rightarrow> bool" where
  "table_ok m \<longleftrightarrow> (let fs = md_fields m; ids = map fd_id fs in
     md_n_fields m = length fs \<and> sorted_wrt (<) ids \<and> md_ranges m = runs ids \<and> md_n_ranges m = length (md_ranges m) - 1 \<and>
     md_sizeof m = md_c_name m \<and>
     (case map_of rpc_structs (md_c_name m) of None \<Rightarrow> False
      | Some ms \<Rightarrow> list_all (field_fits (md_c_name m) ms (case_type (md_c_name m))) fs) \<and>
     list_all (\<lambda>i. i < length fs) (md_by_name m) \<and> length (md_by_name m) = length fs \<and>
     successively (<) (map (\<lambda>i. fd_name (fs ! i)) (md_by_name m)))"

lemma request_tables_ok: "list_all (\<lambda>(s, m). table_ok m) request_descriptors"
  by code_simp

lemma response_tables_ok: "list_all (\<lambda>(s, m). table_ok m) response_descriptors"
  by code_simp

lemmas tables_ok = request_tables_ok response_tables_ok

lemma table_ok_names: "table_ok m \<Longrightarrow> sorted_wrt (<) (map (\<lambda>i. fd_name (md_fields m ! i)) (md_by_name m))"
  unfolding table_ok_def Let_def by (subst successively_conv_sorted_wrt [symmetric]) (auto simp: transp_on_def)

lemma by_name_permutation:
  assumes "table_ok m"
  shows "mset (md_by_name m) = mset [0..<length (md_fields m)]"
proof -
  let ?n = "length (md_fields m)" and ?b = "md_by_name m"
  have a: "sorted_wrt (<) (map (\<lambda>i. fd_name (md_fields m ! i)) ?b)" "set ?b \<subseteq> {..<?n}" "length ?b = ?n"
    using table_ok_names [OF assms] assms by (auto simp: table_ok_def Let_def list_all_iff)
  have "distinct ?b" using a(1) by (simp add: strict_sorted_iff distinct_map)
  then have "set ?b = {..<?n}" using a(2,3) by (metis card_lessThan card_subset_eq distinct_card finite_lessThan)
  then show ?thesis using \<open>distinct ?b\<close> set_eq_iff_mset_eq_distinct [of ?b "[0..<?n]"] by (simp add: atLeast0LessThan)
qed

text \<open>(C36) The tables protobuf-c works with are in order, for each of the 28 messages: searching the ranges
  finds exactly the field with a number, and none for a number not in use; the index by name holds
  every field once, in strictly increasing order of the names; and every offset is that of a member
  of the message's own struct with the C type that the field's type has. Requests and responses number and name their calls alike, with
  the numbers the model's cases have.\<close>

theorem rpc_tables_consistent:
  assumes "(tab, m) \<in> set rpc_descriptors"
  shows "(\<forall>v. range_lookup (md_ranges m) v = pos_of (map fd_id (md_fields m)) v) \<and>
    mset (md_by_name m) = mset [0..<length (md_fields m)] \<and>
    sorted_wrt (<) (map (\<lambda>i. fd_name (md_fields m ! i)) (md_by_name m)) \<and>
    list_all (\<lambda>f. fst (fd_offset f) = md_c_name m \<and> member_type (fd_offset f) = c_type f \<and> c_type f \<noteq> None) (md_fields m) \<and>
    map (\<lambda>f. (fd_name f, fd_id f)) (filter fd_oneof (md_fields request__descriptor)) =
    map (\<lambda>f. (fd_name f, fd_id f)) (filter fd_oneof (md_fields response__descriptor)) \<and>
    set (map fd_id (filter fd_oneof (md_fields request__descriptor))) = range calling_case - {0}"
proof -
  have ok: "table_ok m" using tables_ok assms by (auto simp: list_all_iff rpc_descriptors_def)
  obtain ms where "map_of rpc_structs (md_c_name m) = Some ms"
      "list_all (field_fits (md_c_name m) ms (case_type (md_c_name m))) (md_fields m)"
    using ok by (cases "map_of rpc_structs (md_c_name m)") (auto simp: table_ok_def Let_def)
  then have fit: "list_all (\<lambda>f. fst (fd_offset f) = md_c_name m \<and> member_type (fd_offset f) = c_type f \<and> c_type f \<noteq> None) (md_fields m)"
    unfolding list_all_iff by (blast dest: field_fits_type)
  have one: "map (\<lambda>f. (fd_name f, fd_id f)) (filter fd_oneof (md_fields request__descriptor)) =
    map (\<lambda>f. (fd_name f, fd_id f)) (filter fd_oneof (md_fields response__descriptor))"
    by (simp add: request__descriptor_def response__descriptor_def request__field_descriptors_def response__field_descriptors_def)
  have ids: "set (map fd_id (filter fd_oneof (md_fields request__descriptor))) = range calling_case - {0}"
    unfolding range_calling_case by (simp add: request__descriptor_def request__field_descriptors_def)
  show ?thesis using ok fit one ids range_lookup_runs by_name_permutation [OF ok] table_ok_names [OF ok] by (simp add: table_ok_def Let_def)
qed

theorem rpc_tables_consistent_witness:
  "range_lookup (md_ranges request__descriptor) 15 = Some 12 \<and> range_lookup (md_ranges request__descriptor) 13 = None \<and>
   mset (md_by_name request__descriptor) = mset [0..<length (md_fields request__descriptor)]"
proof -
  have "(''request__descriptor'', request__descriptor) \<in> set rpc_descriptors"
    by (simp add: rpc_descriptors_def request_descriptors_def)
  note c = rpc_tables_consistent [OF this]
  have "map fd_id (md_fields request__descriptor) = [1, 2, 3, 4, 5, 6, 7, 8, 9, 10, 11, 12, 15, 16]"
    by (simp add: request__descriptor_def request__field_descriptors_def)
  then show ?thesis using conjunct1 [OF c] conjunct1 [OF conjunct2 [OF c]] by simp
qed

end
