(* ===== verification/Rpc_Messages.thy ===== *)
theory Rpc_Messages
  imports Rpc_Descriptors
begin

section \<open>The message functions of the generated C code (src/rpc/c_out)\<close>

text \<open>
  A message in memory is the list of its struct's members with their values. The \<open>__init\<close>
  functions store the values of the \<open>__INIT\<close> macros, in the order of the members; the union
  of a oneof is given by its first member. The other functions hand the message to the protobuf-c
  library, which is a parameter, after asserting that the message carries the table of its kind.
  Members of the library's own type \<open>ProtobufCMessage\<close> are the table they point to.
\<close>

datatype cval = CBase string | CInt int | CBin nat | CEnum string | CNull

type_synonym cmsg = "(string \<times> cval) list"

subsection \<open>Enumerations\<close>

definition Request__CallingCase :: "(string \<times> nat) list" where
  "Request__CallingCase = [
      (''REQUEST__CALLING__NOT_SET'', 0), (''REQUEST__CALLING_SOCKET_CALL'', 1),
      (''REQUEST__CALLING_CONNECT_CALL'', 2), (''REQUEST__CALLING_CLOSE_CALL'', 3),
      (''REQUEST__CALLING_RECVFROM_CALL'', 4), (''REQUEST__CALLING_SENDTO_CALL'', 5),
      (''REQUEST__CALLING_POLL_CALL'', 6), (''REQUEST__CALLING_SELECT_CALL'', 7),
      (''REQUEST__CALLING_GETPEERNAME_CALL'', 8), (''REQUEST__CALLING_GETSOCKNAME_CALL'', 9),
      (''REQUEST__CALLING_GETSOCKOPT_CALL'', 10), (''REQUEST__CALLING_SETSOCKOPT_CALL'', 11),
      (''REQUEST__CALLING_FCNTL_CALL'', 12), (''REQUEST__CALLING_ATSTART_ACTION'', 16)]"

definition Response__RetCode :: "(string \<times> nat) list" where
  "Response__RetCode = [
      (''RESPONSE__RET_CODE__OK'', 0), (''RESPONSE__RET_CODE__ERROR'', 1),
      (''RESPONSE__RET_CODE__WAIT_NEXT'', 2)]"

definition Response__ReturningCase :: "(string \<times> nat) list" where
  "Response__ReturningCase = [
      (''RESPONSE__RETURNING__NOT_SET'', 0), (''RESPONSE__RETURNING_SOCKET_CALL'', 1),
      (''RESPONSE__RETURNING_CONNECT_CALL'', 2), (''RESPONSE__RETURNING_CLOSE_CALL'', 3),
      (''RESPONSE__RETURNING_RECVFROM_CALL'', 4), (''RESPONSE__RETURNING_SENDTO_CALL'', 5),
      (''RESPONSE__RETURNING_POLL_CALL'', 6), (''RESPONSE__RETURNING_SELECT_CALL'', 7),
      (''RESPONSE__RETURNING_GETPEERNAME_CALL'', 8), (''RESPONSE__RETURNING_GETSOCKNAME_CALL'', 9),
      (''RESPONSE__RETURNING_GETSOCKOPT_CALL'', 10), (''RESPONSE__RETURNING_SETSOCKOPT_CALL'', 11),
      (''RESPONSE__RETURNING_FCNTL_CALL'', 12), (''RESPONSE__RETURNING_ATSTART_ACTION'', 16)]"

definition rpc_enums :: "(string \<times> (string \<times> nat) list) list" where
  "rpc_enums = [(''Request__CallingCase'', Request__CallingCase), (''Response__RetCode'', Response__RetCode),
     (''Response__ReturningCase'', Response__ReturningCase)]"

subsection \<open>Initial values\<close>

definition REQUEST__SOCKET__INIT :: "cval list" where
  "REQUEST__SOCKET__INIT = [CBase ''request__socket__descriptor'', CInt 0, CInt 0, CInt 0]"

definition request__socket__init :: "cval list" where
  "request__socket__init = REQUEST__SOCKET__INIT"

definition REQUEST__CONNECT__INIT :: "cval list" where
  "REQUEST__CONNECT__INIT = [CBase ''request__connect__descriptor'', CBin 0]"

definition request__connect__init :: "cval list" where
  "request__connect__init = REQUEST__CONNECT__INIT"

definition REQUEST__CLOSE__INIT :: "cval list" where
  "REQUEST__CLOSE__INIT = [CBase ''request__close__descriptor'']"

definition request__close__init :: "cval list" where
  "request__close__init = REQUEST__CLOSE__INIT"

definition REQUEST__RECVFROM__INIT :: "cval list" where
  "REQUEST__RECVFROM__INIT = [CBase ''request__recvfrom__descriptor'', CInt 0, CInt 0, CInt 0]"

definition request__recvfrom__init :: "cval list" where
  "request__recvfrom__init = REQUEST__RECVFROM__INIT"

definition REQUEST__SENDTO__INIT :: "cval list" where
  "REQUEST__SENDTO__INIT = [CBase ''request__sendto__descriptor'', CBin 0, CInt 0, CInt 0, CBin 0]"

definition request__sendto__init :: "cval list" where
  "request__sendto__init = REQUEST__SENDTO__INIT"

definition REQUEST__POLL__INIT :: "cval list" where
  "REQUEST__POLL__INIT = [CBase ''request__poll__descriptor'']"

definition request__poll__init :: "cval list" where
  "request__poll__init = REQUEST__POLL__INIT"

definition REQUEST__SELECT__INIT :: "cval list" where
  "REQUEST__SELECT__INIT = [CBase ''request__select__descriptor'']"

definition request__select__init :: "cval list" where
  "request__select__init = REQUEST__SELECT__INIT"

definition REQUEST__GETPEERNAME__INIT :: "cval list" where
  "REQUEST__GETPEERNAME__INIT = [CBase ''request__getpeername__descriptor'']"

definition request__getpeername__init :: "cval list" where
  "request__getpeername__init = REQUEST__GETPEERNAME__INIT"

definition REQUEST__GETSOCKNAME__INIT :: "cval list" where
  "REQUEST__GETSOCKNAME__INIT = [CBase ''request__getsockname__descriptor'']"

definition request__getsockname__init :: "cval list" where
  "request__getsockname__init = REQUEST__GETSOCKNAME__INIT"

definition REQUEST__GETSOCKOPT__INIT :: "cval list" where
  "REQUEST__GETSOCKOPT__INIT = [CBase ''request__getsockopt__descriptor'']"

definition request__getsockopt__init :: "cval list" where
  "request__getsockopt__init = REQUEST__GETSOCKOPT__INIT"

definition REQUEST__SETSOCKOPT__INIT :: "cval list" where
  "REQUEST__SETSOCKOPT__INIT = [CBase ''request__setsockopt__descriptor'']"

definition request__setsockopt__init :: "cval list" where
  "request__setsockopt__init = REQUEST__SETSOCKOPT__INIT"

definition REQUEST__FCNTL__INIT :: "cval list" where
  "REQUEST__FCNTL__INIT = [CBase ''request__fcntl__descriptor'']"

definition request__fcntl__init :: "cval list" where
  "request__fcntl__init = REQUEST__FCNTL__INIT"

definition REQUEST__ATSTART__INIT :: "cval list" where
  "REQUEST__ATSTART__INIT = [CBase ''request__atstart__descriptor'', CNull]"

definition request__atstart__init :: "cval list" where
  "request__atstart__init = REQUEST__ATSTART__INIT"

definition REQUEST__INIT :: "cval list" where
  "REQUEST__INIT = [CBase ''request__descriptor'', CInt 0, CEnum ''REQUEST__CALLING__NOT_SET'', CNull]"

definition request__init :: "cval list" where
  "request__init = REQUEST__INIT"

definition request_inits :: "(string \<times> cval list) list" where
  "request_inits = [
     (''Request__Socket'', request__socket__init), (''Request__Connect'', request__connect__init), (''Request__Close'', request__close__init),
     (''Request__Recvfrom'', request__recvfrom__init), (''Request__Sendto'', request__sendto__init), (''Request__Poll'', request__poll__init),
     (''Request__Select'', request__select__init), (''Request__Getpeername'', request__getpeername__init), (''Request__Getsockname'', request__getsockname__init),
     (''Request__Getsockopt'', request__getsockopt__init), (''Request__Setsockopt'', request__setsockopt__init), (''Request__Fcntl'', request__fcntl__init),
     (''Request__Atstart'', request__atstart__init), (''Request'', request__init)]"

definition RESPONSE__SOCKET__INIT :: "cval list" where
  "RESPONSE__SOCKET__INIT = [CBase ''response__socket__descriptor'', CInt 0, CInt 0, CInt 0]"

definition response__socket__init :: "cval list" where
  "response__socket__init = RESPONSE__SOCKET__INIT"

definition RESPONSE__CONNECT__INIT :: "cval list" where
  "RESPONSE__CONNECT__INIT = [CBase ''response__connect__descriptor'', CInt 0, CInt 0, CInt 0]"

definition response__connect__init :: "cval list" where
  "response__connect__init = RESPONSE__CONNECT__INIT"

definition RESPONSE__CLOSE__INIT :: "cval list" where
  "RESPONSE__CLOSE__INIT = [CBase ''response__close__descriptor'', CInt 0, CInt 0, CInt 0]"

definition response__close__init :: "cval list" where
  "response__close__init = RESPONSE__CLOSE__INIT"

definition RESPONSE__RECVFROM__INIT :: "cval list" where
  "RESPONSE__RECVFROM__INIT = [CBase ''response__recvfrom__descriptor'', CInt 0, CInt 0, CInt 0, CInt 0, CBin 0, CInt 0, CBin 0]"

definition response__recvfrom__init :: "cval list" where
  "response__recvfrom__init = RESPONSE__RECVFROM__INIT"

definition RESPONSE__SENDTO__INIT :: "cval list" where
  "RESPONSE__SENDTO__INIT = [CBase ''response__sendto__descriptor'', CInt 0, CInt 0, CInt 0]"

definition response__sendto__init :: "cval list" where
  "response__sendto__init = RESPONSE__SENDTO__INIT"

definition RESPONSE__POLL__INIT :: "cval list" where
  "RESPONSE__POLL__INIT = [CBase ''response__poll__descriptor'', CInt 0, CInt 0, CInt 0]"

definition response__poll__init :: "cval list" where
  "response__poll__init = RESPONSE__POLL__INIT"

definition RESPONSE__SELECT__INIT :: "cval list" where
  "RESPONSE__SELECT__INIT = [CBase ''response__select__descriptor'', CInt 0, CInt 0, CInt 0]"

definition response__select__init :: "cval list" where
  "response__select__init = RESPONSE__SELECT__INIT"

definition RESPONSE__GETPEERNAME__INIT :: "cval list" where
  "RESPONSE__GETPEERNAME__INIT = [CBase ''response__getpeername__descriptor'', CInt 0, CInt 0, CInt 0, CInt 0, CBin 0]"

definition response__getpeername__init :: "cval list" where
  "response__getpeername__init = RESPONSE__GETPEERNAME__INIT"

definition RESPONSE__GETSOCKNAME__INIT :: "cval list" where
  "RESPONSE__GETSOCKNAME__INIT = [CBase ''response__getsockname__descriptor'', CInt 0, CInt 0, CInt 0, CInt 0, CBin 0]"

definition response__getsockname__init :: "cval list" where
  "response__getsockname__init = RESPONSE__GETSOCKNAME__INIT"

definition RESPONSE__GETSOCKOPT__INIT :: "cval list" where
  "RESPONSE__GETSOCKOPT__INIT = [CBase ''response__getsockopt__descriptor'', CInt 0, CInt 0, CInt 0]"

definition response__getsockopt__init :: "cval list" where
  "response__getsockopt__init = RESPONSE__GETSOCKOPT__INIT"

definition RESPONSE__SETSOCKOPT__INIT :: "cval list" where
  "RESPONSE__SETSOCKOPT__INIT = [CBase ''response__setsockopt__descriptor'', CInt 0, CInt 0, CInt 0]"

definition response__setsockopt__init :: "cval list" where
  "response__setsockopt__init = RESPONSE__SETSOCKOPT__INIT"

definition RESPONSE__FCNTL__INIT :: "cval list" where
  "RESPONSE__FCNTL__INIT = [CBase ''response__fcntl__descriptor'', CInt 0, CInt 0, CInt 0]"

definition response__fcntl__init :: "cval list" where
  "response__fcntl__init = RESPONSE__FCNTL__INIT"

definition RESPONSE__ATSTART__INIT :: "cval list" where
  "RESPONSE__ATSTART__INIT = [CBase ''response__atstart__descriptor'', CInt 0, CInt 0, CInt 0]"

definition response__atstart__init :: "cval list" where
  "response__atstart__init = RESPONSE__ATSTART__INIT"

definition RESPONSE__INIT :: "cval list" where
  "RESPONSE__INIT = [CBase ''response__descriptor'', CEnum ''RESPONSE__RET_CODE__OK'', CEnum ''RESPONSE__RETURNING__NOT_SET'', CNull]"

definition response__init :: "cval list" where
  "response__init = RESPONSE__INIT"

definition response_inits :: "(string \<times> cval list) list" where
  "response_inits = [
     (''Response__Socket'', response__socket__init), (''Response__Connect'', response__connect__init), (''Response__Close'', response__close__init),
     (''Response__Recvfrom'', response__recvfrom__init), (''Response__Sendto'', response__sendto__init), (''Response__Poll'', response__poll__init),
     (''Response__Select'', response__select__init), (''Response__Getpeername'', response__getpeername__init), (''Response__Getsockname'', response__getsockname__init),
     (''Response__Getsockopt'', response__getsockopt__init), (''Response__Setsockopt'', response__setsockopt__init), (''Response__Fcntl'', response__fcntl__init),
     (''Response__Atstart'', response__atstart__init), (''Response'', response__init)]"

definition rpc_inits :: "(string \<times> cval list) list" where
  "rpc_inits = request_inits @ response_inits"

subsection \<open>Functions\<close>

definition base_descriptor :: "cmsg \<Rightarrow> cval option" where
  "base_descriptor m = map_of m ''base''"

definition request__get_packed_size :: "(cmsg \<Rightarrow> nat) \<Rightarrow> cmsg \<Rightarrow> nat res" where
  "request__get_packed_size protobuf_c_message_get_packed_size message =
     bindr (assertr (base_descriptor message = Some (CBase ''request__descriptor''))) (\<lambda>_.
     Inr (protobuf_c_message_get_packed_size message))"

definition request__pack :: "(cmsg \<Rightarrow> byte list) \<Rightarrow> cmsg \<Rightarrow> byte list res" where
  "request__pack protobuf_c_message_pack message =
     bindr (assertr (base_descriptor message = Some (CBase ''request__descriptor''))) (\<lambda>_.
     Inr (protobuf_c_message_pack message))"

definition request__pack_to_buffer :: "(cmsg \<Rightarrow> byte list \<Rightarrow> byte list) \<Rightarrow> cmsg \<Rightarrow> byte list \<Rightarrow> byte list res" where
  "request__pack_to_buffer protobuf_c_message_pack_to_buffer message buffer =
     bindr (assertr (base_descriptor message = Some (CBase ''request__descriptor''))) (\<lambda>_.
     Inr (protobuf_c_message_pack_to_buffer message buffer))"

definition request__unpack :: "(MessageDescriptor \<Rightarrow> byte list \<Rightarrow> cmsg option) \<Rightarrow> byte list \<Rightarrow> cmsg option" where
  "request__unpack protobuf_c_message_unpack data = protobuf_c_message_unpack request__descriptor data"

definition request__free_unpacked :: "(cmsg \<Rightarrow> 'w \<Rightarrow> 'w) \<Rightarrow> cmsg option \<Rightarrow> 'w \<Rightarrow> 'w res" where
  "request__free_unpacked protobuf_c_message_free_unpacked message w =
     (case message of
        None \<Rightarrow> Inr w
      | Some m \<Rightarrow>
          bindr (assertr (base_descriptor m = Some (CBase ''request__descriptor''))) (\<lambda>_.
          Inr (protobuf_c_message_free_unpacked m w)))"

definition response__get_packed_size :: "(cmsg \<Rightarrow> nat) \<Rightarrow> cmsg \<Rightarrow> nat res" where
  "response__get_packed_size protobuf_c_message_get_packed_size message =
     bindr (assertr (base_descriptor message = Some (CBase ''response__descriptor''))) (\<lambda>_.
     Inr (protobuf_c_message_get_packed_size message))"

definition response__pack :: "(cmsg \<Rightarrow> byte list) \<Rightarrow> cmsg \<Rightarrow> byte list res" where
  "response__pack protobuf_c_message_pack message =
     bindr (assertr (base_descriptor message = Some (CBase ''response__descriptor''))) (\<lambda>_.
     Inr (protobuf_c_message_pack message))"

definition response__pack_to_buffer :: "(cmsg \<Rightarrow> byte list \<Rightarrow> byte list) \<Rightarrow> cmsg \<Rightarrow> byte list \<Rightarrow> byte list res" where
  "response__pack_to_buffer protobuf_c_message_pack_to_buffer message buffer =
     bindr (assertr (base_descriptor message = Some (CBase ''response__descriptor''))) (\<lambda>_.
     Inr (protobuf_c_message_pack_to_buffer message buffer))"

definition response__unpack :: "(MessageDescriptor \<Rightarrow> byte list \<Rightarrow> cmsg option) \<Rightarrow> byte list \<Rightarrow> cmsg option" where
  "response__unpack protobuf_c_message_unpack data = protobuf_c_message_unpack response__descriptor data"

definition response__free_unpacked :: "(cmsg \<Rightarrow> 'w \<Rightarrow> 'w) \<Rightarrow> cmsg option \<Rightarrow> 'w \<Rightarrow> 'w res" where
  "response__free_unpacked protobuf_c_message_free_unpacked message w =
     (case message of
        None \<Rightarrow> Inr w
      | Some m \<Rightarrow>
          bindr (assertr (base_descriptor m = Some (CBase ''response__descriptor''))) (\<lambda>_.
          Inr (protobuf_c_message_free_unpacked m w)))"

subsection \<open>Initial values fit\<close>

fun value_fits :: "cval \<Rightarrow> string \<Rightarrow> bool" where
  "value_fits (CBase d) t \<longleftrightarrow> t = ''ProtobufCMessage''"
| "value_fits (CInt v) t \<longleftrightarrow> t = ''int32_t'' \<or> t = ''uint64_t'' \<or> t = ''protobuf_c_boolean''"
| "value_fits (CBin n) t \<longleftrightarrow> t = ''ProtobufCBinaryData''"
| "value_fits (CEnum e) t \<longleftrightarrow> (case map_of rpc_enums t of None \<Rightarrow> False | Some cs \<Rightarrow> map_of cs e \<noteq> None)"
| "value_fits CNull t \<longleftrightarrow> t \<noteq> [] \<and> last t = CHR ''*''"

text \<open>The members that have no value of their own are pointers of the union.\<close>

definition init_fits :: "string \<Rightarrow> (string \<times> string) list \<Rightarrow> cval list \<Rightarrow> bool" where
  "init_fits tab ms vs \<longleftrightarrow>
     take 1 vs = [CBase tab] \<and> map fst (take 1 ms) = [''base''] \<and> distinct (map fst ms) \<and>
     list_all2 value_fits vs (map snd (take (length vs) ms)) \<and>
     list_all (value_fits CNull) (map snd (drop (length vs) ms))"

definition init_ok :: "string \<times> MessageDescriptor \<Rightarrow> bool" where
  "init_ok tm = (case (map_of rpc_structs (md_c_name (snd tm)), map_of rpc_inits (md_c_name (snd tm))) of
     (Some ms, Some vs) \<Rightarrow> init_fits (fst tm) ms vs | _ \<Rightarrow> False)"

lemma request_inits_ok: "list_all init_ok request_descriptors"
  by code_simp

lemma response_inits_ok: "list_all init_ok response_descriptors"
  by code_simp

lemma oneof_cases:
  "map snd Request__CallingCase = 0 # map fd_id (filter fd_oneof (md_fields request__descriptor))"
  "map snd Response__ReturningCase = 0 # map fd_id (filter fd_oneof (md_fields response__descriptor))"
  "map (\<lambda>(s, c, n). (c, n)) (ed_values response__ret_code__descriptor) = Response__RetCode"
  by code_simp+

lemma base_of_init:
  assumes "init_fits tab ms vs"
  shows "base_descriptor (us @ zip (map fst ms) vs) =
    (case map_of us ''base'' of None \<Rightarrow> Some (CBase tab) | Some v \<Rightarrow> Some v)"
  using assms by (cases ms; cases vs) (auto simp: init_fits_def base_descriptor_def map_add_def split: option.splits)

text \<open>Every message starts out well formed: the initial value of each of the 28 structs has the
  message's own table in its first member, and for every further member a value of the member's C
  type, the members of a union sharing one. The case numbers of the two unions are the field numbers of the
  tables, and the return codes those of the enumeration's table. So whatever a caller stores into the other members of an
  initialised request (\<open>us\<close>), sizing and packing it gets past the assertions and gives the
  library's answer.\<close>

theorem messages_initialised:
  assumes "(tab, m) \<in> set rpc_descriptors" "''base'' \<notin> fst ` set us"
  shows "(\<exists>ms vs. map_of rpc_structs (md_c_name m) = Some ms \<and> map_of rpc_inits (md_c_name m) = Some vs \<and> init_fits tab ms vs \<and>
      (tab = ''request__descriptor'' \<longrightarrow>
        request__get_packed_size gps (us @ zip (map fst ms) vs) = Inr (gps (us @ zip (map fst ms) vs)) \<and>
        request__pack pk (us @ zip (map fst ms) vs) = Inr (pk (us @ zip (map fst ms) vs)))) \<and>
    map snd Request__CallingCase = 0 # map fd_id (filter fd_oneof (md_fields request__descriptor)) \<and>
    map snd Response__ReturningCase = 0 # map fd_id (filter fd_oneof (md_fields response__descriptor)) \<and>
    map (\<lambda>(s, c, n). (c, n)) (ed_values response__ret_code__descriptor) = Response__RetCode"
proof -
  have "init_ok (tab, m)" using request_inits_ok response_inits_ok assms(1) by (auto simp: list_all_iff rpc_descriptors_def)
  then obtain ms vs where mv: "map_of rpc_structs (md_c_name m) = Some ms" "map_of rpc_inits (md_c_name m) = Some vs" "init_fits tab ms vs"
    by (auto simp: init_ok_def split: option.splits)
  have "map_of us ''base'' = None" using assms(2) by (simp add: map_of_eq_None_iff)
  then have "base_descriptor (us @ zip (map fst ms) vs) = Some (CBase tab)" using base_of_init [OF mv(3)] by simp
  then show ?thesis using mv oneof_cases by (auto simp: request__get_packed_size_def request__pack_def)
qed

theorem messages_initialised_witness:
  "\<exists>ms vs. map_of rpc_structs ''Request'' = Some ms \<and> map_of rpc_inits ''Request'' = Some vs \<and>
     request__pack (\<lambda>m. []) ([(''pid'', CInt 7)] @ zip (map fst ms) vs) = Inr []"
proof -
  have m: "(''request__descriptor'', request__descriptor) \<in> set rpc_descriptors" "md_c_name request__descriptor = ''Request''"
    by (simp_all add: rpc_descriptors_def request_descriptors_def request__descriptor_def)
  have "''base'' \<notin> fst ` set [(''pid'', CInt 7)]" by simp
  from messages_initialised [OF m(1) this, of "\<lambda>m. 0" "\<lambda>m. []"] show ?thesis unfolding m(2) by auto
qed

end
