(* ===== verification/Wire_Format.thy ===== *)
theory Wire_Format
  imports Velox_Prelude
begin

unbundle bit_operations_syntax

section \<open>The wire format and the library that reads and writes it\<close>

text \<open>
  The generated C++ code calls the protobuf library for single fields: to read a tag, a number or a
  run of bytes, to write a field, to compute its size. The record \<open>wirelib\<close> holds these functions, pointers
  being the bytes from them to the limit and \<open>None\<close> the null pointer. The locale \<open>wire_format\<close> states what the
  documentation of the encoding says of them: a tag is the varint of the field's number and wire
  type, numbers are varints (negative ones as 64 bits), bytes and messages are preceded by their length.
  It is interpreted on \<open>base128\<close>, a library written from that documentation.

  The loop over the fields is the same text in every generated class: \<open>internal_parse\<close>, with the
  class's \<open>switch\<close> as a parameter, which answers \<open>None\<close> where the code jumps to \<open>handle_unusual\<close>.
\<close>

type_synonym u64 = "64 word"

subsection \<open>Varints and tags\<close>

fun varint :: "nat \<Rightarrow> byte list" where
  "varint n = (if n < 128 then [of_nat n] else of_nat (n mod 128 + 128) # varint (n div 128))"

declare varint.simps [simp del]

definition varint_int :: "int \<Rightarrow> byte list" where
  "varint_int v = varint (unat (word_of_int v :: u64))"

definition tag_bytes :: "nat \<Rightarrow> nat \<Rightarrow> byte list" where
  "tag_bytes n t = varint (8 * n + t)"

definition delimited :: "byte list \<Rightarrow> byte list" where
  "delimited b = varint (length b) @ b"

lemma varint_not_Nil [simp]: "varint n \<noteq> []"
  by (subst varint.simps) simp

lemma tag_bytes_not_Nil [simp]: "tag_bytes n t \<noteq> []"
  by (simp add: tag_bytes_def)

subsection \<open>The library\<close>

record wirelib =
  ReadTag :: "byte list \<Rightarrow> (u32 \<times> byte list) option"
  ReadVarint32 :: "byte list \<Rightarrow> u32 \<times> byte list option"
  ReadVarint64 :: "byte list \<Rightarrow> u64 \<times> byte list option"
  ReadDelimited :: "byte list \<Rightarrow> byte list \<times> byte list option"
  UnknownFieldParse :: "u32 \<Rightarrow> byte list \<Rightarrow> byte list option"
  WriteInt32ToArray :: "nat \<Rightarrow> int \<Rightarrow> byte list"
  WriteEnumToArray :: "nat \<Rightarrow> int \<Rightarrow> byte list"
  WriteBytesMaybeAliased :: "nat \<Rightarrow> byte list \<Rightarrow> byte list"
  InternalWriteMessage :: "nat \<Rightarrow> byte list \<Rightarrow> nat \<Rightarrow> byte list"
  Int32SizePlusOne :: "int \<Rightarrow> nat"
  EnumSize :: "int \<Rightarrow> nat"
  BytesSize :: "byte list \<Rightarrow> nat"
  MessageSize :: "nat \<Rightarrow> nat"

locale wire_format =
  fixes W :: wirelib
  assumes read_tag: "n \<le> 16 \<Longrightarrow> t < 8 \<Longrightarrow> ReadTag W (tag_bytes n t @ bs) = Some (of_nat (8 * n + t), bs)"
    and read_varint32: "ReadVarint32 W (varint (unat w) @ bs) = (ucast (w :: u64), Some bs)"
    and read_varint64: "ReadVarint64 W (varint (unat w) @ bs) = (w, Some bs)"
    and read_delimited: "length b < 2 ^ 31 \<Longrightarrow> ReadDelimited W (delimited b @ bs) = (b, Some bs)"
    and write_int32: "WriteInt32ToArray W n v = tag_bytes n 0 @ varint_int v"
    and write_enum: "WriteEnumToArray W n v = tag_bytes n 0 @ varint_int v"
    and write_bytes: "WriteBytesMaybeAliased W n b = tag_bytes n 2 @ delimited b"
    and write_message: "InternalWriteMessage W n b k = tag_bytes n 2 @ varint k @ b"
    and int32_size: "Int32SizePlusOne W v = 1 + length (varint_int v)"
    and enum_size: "EnumSize W v = length (varint_int v)"
    and bytes_size: "BytesSize W b = length (delimited b)"
    and message_size: "MessageSize W k = length (varint k) + k"
    and advances: "ReadTag W bs = Some (tag, r) \<Longrightarrow> length r < length bs" "snd (ReadVarint32 W bs) = Some r \<Longrightarrow> length r \<le> length bs"
      "snd (ReadVarint64 W bs) = Some r \<Longrightarrow> length r \<le> length bs" "snd (ReadDelimited W bs) = Some r \<Longrightarrow> length r \<le> length bs"
      "UnknownFieldParse W tag bs = Some r \<Longrightarrow> length r \<le> length bs"
begin

lemmas writes = write_int32 write_enum write_bytes write_message
lemmas sizes = int32_size enum_size bytes_size message_size

end

subsection \<open>The loop over the fields\<close>

text \<open>How a message ends: at its limit, at the tag zero or an end-group tag, or with the null pointer.
  \<open>OutOfFuel\<close> is no outcome of the code.\<close>

datatype parse_end = AtLimit | LastTag u32 | NullPtr | OutOfFuel

type_synonym 'm field_switch = "u32 \<Rightarrow> byte list \<Rightarrow> 'm \<Rightarrow> ('m \<times> byte list option) option"

fun internal_parse :: "wirelib \<Rightarrow> 'm field_switch \<Rightarrow> nat \<Rightarrow> byte list \<Rightarrow> 'm \<Rightarrow> 'm \<times> parse_end" where
  "internal_parse W sw 0 ptr m = (m, OutOfFuel)"
| "internal_parse W sw (Suc n) ptr m =
     (if ptr = [] then (m, AtLimit)
      else case ReadTag W ptr of
          None \<Rightarrow> (m, NullPtr)
        | Some (tag, p) \<Rightarrow>
            (case sw tag p m of
               Some (m1, Some p1) \<Rightarrow> internal_parse W sw n p1 m1
             | Some (m1, None) \<Rightarrow> (m1, NullPtr)
             | None \<Rightarrow>
                 if tag = 0 \<or> tag AND 7 = 4 then (m, LastTag tag)
                 else (case UnknownFieldParse W tag p of None \<Rightarrow> (m, NullPtr) | Some p1 \<Rightarrow> internal_parse W sw n p1 m)))"

definition parse_all :: "wirelib \<Rightarrow> 'm field_switch \<Rightarrow> byte list \<Rightarrow> 'm \<Rightarrow> 'm \<times> parse_end" where
  "parse_all W sw bs m = internal_parse W sw (Suc (length bs)) bs m"

text \<open>\<open>ctx->ParseMessage(msg, ptr)\<close>: the message must end at its limit.\<close>

definition ParseMessage :: "wirelib \<Rightarrow> 'm field_switch \<Rightarrow> 'm \<Rightarrow> byte list \<Rightarrow> 'm \<times> byte list option" where
  "ParseMessage W sw m ptr =
     (case ReadDelimited W ptr of (b, p) \<Rightarrow> (case parse_all W sw b m of (m1, e) \<Rightarrow> (m1, if e = AtLimit then p else None)))"

definition switch_advances :: "'m field_switch \<Rightarrow> bool" where
  "switch_advances sw \<longleftrightarrow> (\<forall>tag p m m1 p1. sw tag p m = Some (m1, Some p1) \<longrightarrow> length p1 \<le> length p)"

context wire_format
begin

lemma enough_fuel:
  assumes "switch_advances sw"
  shows "length bs < n \<Longrightarrow> internal_parse W sw n bs m = internal_parse W sw (Suc (length bs)) bs m \<and>
    snd (internal_parse W sw n bs m) \<noteq> OutOfFuel"
proof (induction "length bs" arbitrary: bs m n rule: less_induct)
  case less
  obtain k where k: "n = Suc k" "length bs \<le> k" using less.prems by (cases n) auto
  have step: "internal_parse W sw k p m1 = internal_parse W sw (length bs) p m1" "snd (internal_parse W sw (length bs) p m1) \<noteq> OutOfFuel"
    if "length p < length bs" for p m1
    using less.hyps [OF that less_le_trans [OF that k(2)], of m1] less.hyps [OF that that, of m1] by metis+
  have shorter: "sw tag p m = Some (m1, Some p1) \<Longrightarrow> length p1 < length bs" "UnknownFieldParse W tag p = Some p1 \<Longrightarrow> length p1 < length bs"
    if "ReadTag W bs = Some (tag, p)" for tag p m1 p1
    using advances(1) [OF that] advances(5) [of tag p p1] assms unfolding switch_advances_def by fastforce+
  show ?case
  proof (cases "bs = [] \<or> ReadTag W bs = None")
    case False
    then obtain tag p where t: "bs \<noteq> []" "ReadTag W bs = Some (tag, p)" by auto
    show ?thesis
    proof (cases "sw tag p m")
      case None
      then show ?thesis using k(1) t step [OF shorter(2) [OF t(2)]] by (auto split: option.split)
    next
      case (Some a)
      then show ?thesis using k(1) t step [OF shorter(1) [OF t(2)]] by (cases a; cases "snd a") auto
    qed
  qed (use k(1) in auto)
qed

lemma parse_field:
  assumes "switch_advances sw" "n \<le> 16" "t < 8" "sw (of_nat (8 * n + t)) (b @ bs) m = Some (m1, Some bs)"
  shows "parse_all W sw (tag_bytes n t @ b @ bs) m = parse_all W sw bs m1"
proof -
  let ?p = "tag_bytes n t @ b @ bs"
  have "length bs < length ?p" using tag_bytes_not_Nil [of n t] by (cases "tag_bytes n t") auto
  then have "internal_parse W sw (length ?p) bs m1 = parse_all W sw bs m1"
    using enough_fuel [OF assms(1), of bs "length ?p" m1] by (simp add: parse_all_def)
  then show ?thesis using assms(4) read_tag [OF assms(2,3), of "b @ bs"] by (simp add: parse_all_def)
qed

end

lemma parse_all_Nil [simp]: "parse_all W sw [] m = (m, AtLimit)"
  by (simp add: parse_all_def)

subsection \<open>A library written from the documentation\<close>

fun read_varint :: "byte list \<Rightarrow> (nat \<times> byte list) option" where
  "read_varint [] = None"
| "read_varint (b # bs) =
     (if unat b < 128 then Some (unat b, bs)
      else case read_varint bs of None \<Rightarrow> None | Some (n, r) \<Rightarrow> Some (unat b - 128 + 128 * n, r))"

lemma read_varint_shorter: "read_varint bs = Some (n, r) \<Longrightarrow> length r < length bs"
  by (induction bs arbitrary: n) (fastforce split: if_splits option.splits)+

lemma read_varint: "read_varint (varint n @ bs) = Some (n, bs)"
proof (induction n rule: varint.induct)
  case (1 n)
  have small: "unat (of_nat k :: byte) = k" if "k < 256" for k using that by (simp add: unat_of_nat)
  show ?case
  proof (cases "n < 128")
    case True
    then show ?thesis by (subst varint.simps) (simp add: small)
  next
    case False
    have "n mod 128 < 128" by simp
    then have "unat (of_nat (n mod 128 + 128) :: byte) = n mod 128 + 128" by (intro small) linarith
    then show ?thesis using 1 [OF False] False by (subst varint.simps) (simp del: of_nat_add)
  qed
qed

fun read_delim :: "byte list \<Rightarrow> byte list \<times> byte list option" where
  "read_delim bs =
     (case read_varint bs of
        None \<Rightarrow> ([], None)
      | Some (n, r) \<Rightarrow> (take n r, if n \<le> length r then Some (drop n r) else None))"

definition skip_field :: "u32 \<Rightarrow> byte list \<Rightarrow> byte list option" where
  "skip_field tag bs =
     (case unat (tag AND 7) of
        0 \<Rightarrow> map_option snd (read_varint bs)
      | Suc 0 \<Rightarrow> if 8 \<le> length bs then Some (drop 8 bs) else None
      | Suc (Suc 0) \<Rightarrow> snd (read_delim bs)
      | n \<Rightarrow> if n = 5 \<and> 4 \<le> length bs then Some (drop 4 bs) else None)"

definition base128 :: wirelib where
  "base128 = \<lparr>
     ReadTag = (\<lambda>bs. map_option (\<lambda>(n, r). (of_nat n, r)) (read_varint bs)),
     ReadVarint32 = (\<lambda>bs. case read_varint bs of None \<Rightarrow> (0, None) | Some (n, r) \<Rightarrow> (of_nat n, Some r)),
     ReadVarint64 = (\<lambda>bs. case read_varint bs of None \<Rightarrow> (0, None) | Some (n, r) \<Rightarrow> (of_nat n, Some r)),
     ReadDelimited = read_delim,
     UnknownFieldParse = skip_field,
     WriteInt32ToArray = (\<lambda>n v. tag_bytes n 0 @ varint_int v), WriteEnumToArray = (\<lambda>n v. tag_bytes n 0 @ varint_int v),
     WriteBytesMaybeAliased = (\<lambda>n b. tag_bytes n 2 @ delimited b), InternalWriteMessage = (\<lambda>n b k. tag_bytes n 2 @ varint k @ b),
     Int32SizePlusOne = (\<lambda>v. 1 + length (varint_int v)), EnumSize = (\<lambda>v. length (varint_int v)),
     BytesSize = (\<lambda>b. length (delimited b)), MessageSize = (\<lambda>k. length (varint k) + k)\<rparr>"

lemma skip_field_shorter: "skip_field tag bs = Some r \<Longrightarrow> length r \<le> length bs"
  by (auto simp: skip_field_def split: nat.splits if_splits option.splits dest!: read_varint_shorter)

interpretation base128: wire_format base128
proof
  show "ReadDelimited base128 (delimited b @ bs) = (b, Some bs)" if "length b < 2 ^ 31" for b bs
    by (simp add: base128_def delimited_def read_varint)
  show "UnknownFieldParse base128 tag bs = Some r \<Longrightarrow> length r \<le> length bs" for tag bs r
    using skip_field_shorter by (simp add: base128_def)
qed (auto simp: base128_def tag_bytes_def read_varint split: option.splits if_splits dest!: read_varint_shorter)

end
