(* ===== verification/Cpp_Messages.thy ===== *)
theory Cpp_Messages
  imports Wire_Format Rpc_Schema
begin

unbundle bit_operations_syntax

section \<open>The daemon's message code (src/rpc/cpp_out)\<close>

text \<open>
  What the daemon uses of the generated C++ code: reading a \<open>Request\<close>, and the size, the bytes and the
  completeness of a \<open>Response\<close>. A field with its presence bit is an option; the value behind a clear bit is the
  default one. A \<open>oneof\<close> is a datatype, and making a member mutable drops the one that was there before.
  The presence bits collected in a local variable while parsing are merged at the end also after a failure, so
  they can be set at once. Messages without fields are the library's: all they meet is unknown.
\<close>

subsection \<open>Requests: the classes\<close>

record Request_Socket =
  sk_domain :: "int option"
  sk_type :: "int option"
  sk_protocol :: "int option"

record Request_Connect =
  co_addr :: "byte list option"

record Request_Recvfrom =
  rf_len :: "int option"
  rf_flags :: "int option"
  rf_requireaddr :: "bool option"

record Request_Sendto =
  st_buf :: "byte list option"
  st_flags :: "int option"
  st_addr :: "byte list option"

record Request_Atstart =
  as_progname :: "byte list option"

datatype cpp_calling =
    CALLING_NOT_SET
  | SocketCall Request_Socket
  | ConnectCall Request_Connect
  | CloseCall
  | RecvfromCall Request_Recvfrom
  | SendtoCall Request_Sendto
  | PollCall
  | SelectCall
  | GetpeernameCall
  | GetsocknameCall
  | GetsockoptCall
  | SetsockoptCall
  | FcntlCall
  | AtstartAction Request_Atstart

record cpp_Request =
  cr_pid :: "u64 option"
  cr_calling :: cpp_calling

definition cpp_Request_new :: cpp_Request where
  "cpp_Request_new = \<lparr>cr_pid = None, cr_calling = CALLING_NOT_SET\<rparr>"

subsection \<open>Requests: parsing\<close>

text \<open>The case of a field: its number, and the lowest byte of its tag.\<close>

definition is_field :: "u32 \<Rightarrow> u32 \<Rightarrow> byte \<Rightarrow> bool" where
  "is_field tag n b \<longleftrightarrow> drop_bit 3 tag = n \<and> ucast tag = b"

definition Request_Socket_InternalParse :: "wirelib \<Rightarrow> Request_Socket field_switch" where
  "Request_Socket_InternalParse W tag ptr m =
     (if is_field tag 1 8 then case ReadVarint32 W ptr of (v, p) \<Rightarrow> Some (m\<lparr>sk_domain := Some (sint v)\<rparr>, p)
      else if is_field tag 2 16 then case ReadVarint32 W ptr of (v, p) \<Rightarrow> Some (m\<lparr>sk_type := Some (sint v)\<rparr>, p)
      else if is_field tag 3 24 then case ReadVarint32 W ptr of (v, p) \<Rightarrow> Some (m\<lparr>sk_protocol := Some (sint v)\<rparr>, p)
      else None)"

definition Request_Connect_InternalParse :: "wirelib \<Rightarrow> Request_Connect field_switch" where
  "Request_Connect_InternalParse W tag ptr m =
     (if is_field tag 1 10 then case ReadDelimited W ptr of (b, p) \<Rightarrow> Some (m\<lparr>co_addr := Some b\<rparr>, p) else None)"

definition Request_Recvfrom_InternalParse :: "wirelib \<Rightarrow> Request_Recvfrom field_switch" where
  "Request_Recvfrom_InternalParse W tag ptr m =
     (if is_field tag 1 8 then case ReadVarint32 W ptr of (v, p) \<Rightarrow> Some (m\<lparr>rf_len := Some (sint v)\<rparr>, p)
      else if is_field tag 2 16 then case ReadVarint32 W ptr of (v, p) \<Rightarrow> Some (m\<lparr>rf_flags := Some (sint v)\<rparr>, p)
      else if is_field tag 3 24 then case ReadVarint64 W ptr of (v, p) \<Rightarrow> Some (m\<lparr>rf_requireaddr := Some (v \<noteq> 0)\<rparr>, p)
      else None)"

definition Request_Sendto_InternalParse :: "wirelib \<Rightarrow> Request_Sendto field_switch" where
  "Request_Sendto_InternalParse W tag ptr m =
     (if is_field tag 1 10 then case ReadDelimited W ptr of (b, p) \<Rightarrow> Some (m\<lparr>st_buf := Some b\<rparr>, p)
      else if is_field tag 2 16 then case ReadVarint32 W ptr of (v, p) \<Rightarrow> Some (m\<lparr>st_flags := Some (sint v)\<rparr>, p)
      else if is_field tag 3 26 then case ReadDelimited W ptr of (b, p) \<Rightarrow> Some (m\<lparr>st_addr := Some b\<rparr>, p)
      else None)"

definition Request_Atstart_InternalParse :: "wirelib \<Rightarrow> Request_Atstart field_switch" where
  "Request_Atstart_InternalParse W tag ptr m =
     (if is_field tag 1 10 then case ReadDelimited W ptr of (b, p) \<Rightarrow> Some (m\<lparr>as_progname := Some b\<rparr>, p) else None)"

definition no_fields :: "unit field_switch" where
  "no_fields tag ptr m = None"

fun mutable_socketcall :: "cpp_calling \<Rightarrow> Request_Socket" where
  "mutable_socketcall (SocketCall x) = x"
| "mutable_socketcall _ = \<lparr>sk_domain = None, sk_type = None, sk_protocol = None\<rparr>"

fun mutable_connectcall :: "cpp_calling \<Rightarrow> Request_Connect" where
  "mutable_connectcall (ConnectCall x) = x"
| "mutable_connectcall _ = \<lparr>co_addr = None\<rparr>"

fun mutable_recvfromcall :: "cpp_calling \<Rightarrow> Request_Recvfrom" where
  "mutable_recvfromcall (RecvfromCall x) = x"
| "mutable_recvfromcall _ = \<lparr>rf_len = None, rf_flags = None, rf_requireaddr = None\<rparr>"

fun mutable_sendtocall :: "cpp_calling \<Rightarrow> Request_Sendto" where
  "mutable_sendtocall (SendtoCall x) = x"
| "mutable_sendtocall _ = \<lparr>st_buf = None, st_flags = None, st_addr = None\<rparr>"

fun mutable_atstartaction :: "cpp_calling \<Rightarrow> Request_Atstart" where
  "mutable_atstartaction (AtstartAction x) = x"
| "mutable_atstartaction _ = \<lparr>as_progname = None\<rparr>"

definition parse_member :: "wirelib \<Rightarrow> 'a field_switch \<Rightarrow> (cpp_calling \<Rightarrow> 'a) \<Rightarrow> ('a \<Rightarrow> cpp_calling) \<Rightarrow> byte list \<Rightarrow> cpp_Request \<Rightarrow>
    (cpp_Request \<times> byte list option) option" where
  "parse_member W sw mutable_x put ptr m =
     (case ParseMessage W sw (mutable_x (cr_calling m)) ptr of (x, p) \<Rightarrow> Some (m\<lparr>cr_calling := put x\<rparr>, p))"

definition Request_InternalParse :: "wirelib \<Rightarrow> cpp_Request field_switch" where
  "Request_InternalParse W tag ptr m =
     (if is_field tag 1 10 then parse_member W (Request_Socket_InternalParse W) mutable_socketcall SocketCall ptr m
      else if is_field tag 2 18 then parse_member W (Request_Connect_InternalParse W) mutable_connectcall ConnectCall ptr m
      else if is_field tag 3 26 then parse_member W no_fields (\<lambda>_. ()) (\<lambda>_. CloseCall) ptr m
      else if is_field tag 4 34 then parse_member W (Request_Recvfrom_InternalParse W) mutable_recvfromcall RecvfromCall ptr m
      else if is_field tag 5 42 then parse_member W (Request_Sendto_InternalParse W) mutable_sendtocall SendtoCall ptr m
      else if is_field tag 6 50 then parse_member W no_fields (\<lambda>_. ()) (\<lambda>_. PollCall) ptr m
      else if is_field tag 7 58 then parse_member W no_fields (\<lambda>_. ()) (\<lambda>_. SelectCall) ptr m
      else if is_field tag 8 66 then parse_member W no_fields (\<lambda>_. ()) (\<lambda>_. GetpeernameCall) ptr m
      else if is_field tag 9 74 then parse_member W no_fields (\<lambda>_. ()) (\<lambda>_. GetsocknameCall) ptr m
      else if is_field tag 10 82 then parse_member W no_fields (\<lambda>_. ()) (\<lambda>_. GetsockoptCall) ptr m
      else if is_field tag 11 90 then parse_member W no_fields (\<lambda>_. ()) (\<lambda>_. SetsockoptCall) ptr m
      else if is_field tag 12 98 then parse_member W no_fields (\<lambda>_. ()) (\<lambda>_. FcntlCall) ptr m
      else if is_field tag 15 120 then case ReadVarint64 W ptr of (v, p) \<Rightarrow> Some (m\<lparr>cr_pid := Some v\<rparr>, p)
      else if is_field tag 16 130 then parse_member W (Request_Atstart_InternalParse W) mutable_atstartaction AtstartAction ptr m
      else None)"

fun calling_IsInitialized :: "cpp_calling \<Rightarrow> bool" where
  "calling_IsInitialized (SocketCall x) \<longleftrightarrow> sk_domain x \<noteq> None \<and> sk_type x \<noteq> None \<and> sk_protocol x \<noteq> None"
| "calling_IsInitialized (ConnectCall x) \<longleftrightarrow> co_addr x \<noteq> None"
| "calling_IsInitialized (RecvfromCall x) \<longleftrightarrow> rf_len x \<noteq> None \<and> rf_flags x \<noteq> None \<and> rf_requireaddr x \<noteq> None"
| "calling_IsInitialized (SendtoCall x) \<longleftrightarrow> st_buf x \<noteq> None \<and> st_flags x \<noteq> None"
| "calling_IsInitialized (AtstartAction x) \<longleftrightarrow> as_progname x \<noteq> None"
| "calling_IsInitialized _ \<longleftrightarrow> True"

definition Request_IsInitialized :: "cpp_Request \<Rightarrow> bool" where
  "Request_IsInitialized m \<longleftrightarrow> cr_pid m \<noteq> None \<and> calling_IsInitialized (cr_calling m)"

text \<open>\<open>ParseFromArray\<close> of the library clears the message, parses and checks; the daemon does not look at
  the result and goes on with the message as it is. What it then sees are the values of the accessors.\<close>

definition Request_ParseFromArray :: "wirelib \<Rightarrow> byte list \<Rightarrow> bool \<times> cpp_Request" where
  "Request_ParseFromArray W bs =
     (case parse_all W (Request_InternalParse W) bs cpp_Request_new of (m, e) \<Rightarrow> (e = AtLimit \<and> Request_IsInitialized m, m))"

definition or_default :: "'a \<Rightarrow> 'a option \<Rightarrow> 'a" where
  "or_default d v = (case v of None \<Rightarrow> d | Some x \<Rightarrow> x)"

fun calling_of :: "cpp_calling \<Rightarrow> calling" where
  "calling_of CALLING_NOT_SET = CallingNotSet"
| "calling_of (SocketCall x) = CallSocket (or_default 0 (sk_domain x)) (or_default 0 (sk_type x)) (or_default 0 (sk_protocol x))"
| "calling_of (ConnectCall x) = CallConnect (or_default [] (co_addr x))"
| "calling_of CloseCall = CallClose"
| "calling_of (RecvfromCall x) = CallRecvfrom (or_default 0 (rf_len x)) (or_default 0 (rf_flags x)) (or_default False (rf_requireaddr x))"
| "calling_of (SendtoCall x) = CallSendto (or_default [] (st_buf x)) (or_default 0 (st_flags x)) (st_addr x)"
| "calling_of PollCall = CallPoll"
| "calling_of SelectCall = CallSelect"
| "calling_of GetpeernameCall = CallGetpeername"
| "calling_of GetsocknameCall = CallGetsockname"
| "calling_of GetsockoptCall = CallGetsockopt"
| "calling_of SetsockoptCall = CallSetsockopt"
| "calling_of FcntlCall = CallFcntl"
| "calling_of (AtstartAction x) = ActionAtstart (map (\<lambda>b. char_of (unat b)) (or_default [] (as_progname x)))"

definition request_of :: "cpp_Request \<Rightarrow> Request" where
  "request_of m = \<lparr>req_pid = unat (or_default 0 (cr_pid m)), req_calling = calling_of (cr_calling m)\<rparr>"

subsection \<open>Responses: size and bytes\<close>

text \<open>The ten classes that hold \<open>ret\<close> and \<open>errno_\<close> and nothing else have the same text. A nested message is written with
  the size computed for it before.\<close>

definition call_ret_ByteSizeLong :: "wirelib \<Rightarrow> call_ret \<Rightarrow> nat" where
  "call_ret_ByteSizeLong W c =
     Int32SizePlusOne W (ret c) + (case errno' c of None \<Rightarrow> 0 | Some e \<Rightarrow> Int32SizePlusOne W e)"

definition call_ret_InternalSerialize :: "wirelib \<Rightarrow> call_ret \<Rightarrow> byte list" where
  "call_ret_InternalSerialize W c =
     WriteInt32ToArray W 1 (ret c) @ (case errno' c of None \<Rightarrow> [] | Some e \<Rightarrow> WriteInt32ToArray W 2 e)"

definition Response_Recvfrom_ByteSizeLong :: "wirelib \<Rightarrow> recvfrom_ret \<Rightarrow> nat" where
  "Response_Recvfrom_ByteSizeLong W c =
     Int32SizePlusOne W (ret c) +
     (case buf' c of None \<Rightarrow> 0 | Some b \<Rightarrow> 1 + BytesSize W b) +
     (case addr' c of None \<Rightarrow> 0 | Some b \<Rightarrow> 1 + BytesSize W b) +
     (case errno' c of None \<Rightarrow> 0 | Some e \<Rightarrow> Int32SizePlusOne W e)"

definition Response_Recvfrom_InternalSerialize :: "wirelib \<Rightarrow> recvfrom_ret \<Rightarrow> byte list" where
  "Response_Recvfrom_InternalSerialize W c =
     WriteInt32ToArray W 1 (ret c) @
     (case errno' c of None \<Rightarrow> [] | Some e \<Rightarrow> WriteInt32ToArray W 2 e) @
     (case buf' c of None \<Rightarrow> [] | Some b \<Rightarrow> WriteBytesMaybeAliased W 3 b) @
     (case addr' c of None \<Rightarrow> [] | Some b \<Rightarrow> WriteBytesMaybeAliased W 4 b)"

definition name_ret_ByteSizeLong :: "wirelib \<Rightarrow> name_ret \<Rightarrow> nat" where
  "name_ret_ByteSizeLong W c =
     Int32SizePlusOne W (ret c) +
     (case name' c of None \<Rightarrow> 0 | Some b \<Rightarrow> 1 + BytesSize W b) +
     (case errno' c of None \<Rightarrow> 0 | Some e \<Rightarrow> Int32SizePlusOne W e)"

definition name_ret_InternalSerialize :: "wirelib \<Rightarrow> name_ret \<Rightarrow> byte list" where
  "name_ret_InternalSerialize W c =
     WriteInt32ToArray W 1 (ret c) @
     (case errno' c of None \<Rightarrow> [] | Some e \<Rightarrow> WriteInt32ToArray W 2 e) @
     (case name' c of None \<Rightarrow> [] | Some b \<Rightarrow> WriteBytesMaybeAliased W 3 b)"

definition Response_Atstart_ByteSizeLong :: "wirelib \<Rightarrow> int \<Rightarrow> int option \<Rightarrow> nat" where
  "Response_Atstart_ByteSizeLong W startfd count =
     Int32SizePlusOne W startfd + (case count of None \<Rightarrow> 0 | Some n \<Rightarrow> Int32SizePlusOne W n)"

definition Response_Atstart_InternalSerialize :: "wirelib \<Rightarrow> int \<Rightarrow> int option \<Rightarrow> byte list" where
  "Response_Atstart_InternalSerialize W startfd count =
     WriteInt32ToArray W 1 startfd @ (case count of None \<Rightarrow> [] | Some n \<Rightarrow> WriteInt32ToArray W 2 n)"

fun retcode_int :: "RetCode \<Rightarrow> int" where
  "retcode_int RC_OK = 0"
| "retcode_int RC_ERROR = 1"
| "retcode_int RC_WAIT_NEXT = 2"

definition Response_ByteSizeLong :: "wirelib \<Rightarrow> Response \<Rightarrow> nat" where
  "Response_ByteSizeLong W r =
     (case retcode r of None \<Rightarrow> 0 | Some c \<Rightarrow> 1 + EnumSize W (retcode_int c)) +
     (case returning r of
        RetSocket c \<Rightarrow> 1 + MessageSize W (call_ret_ByteSizeLong W c)
      | RetConnect c \<Rightarrow> 1 + MessageSize W (call_ret_ByteSizeLong W c)
      | RetClose c \<Rightarrow> 1 + MessageSize W (call_ret_ByteSizeLong W c)
      | RetRecvfrom c \<Rightarrow> 1 + MessageSize W (Response_Recvfrom_ByteSizeLong W c)
      | RetSendto c \<Rightarrow> 1 + MessageSize W (call_ret_ByteSizeLong W c)
      | RetPoll c \<Rightarrow> 1 + MessageSize W (call_ret_ByteSizeLong W c)
      | RetSelect c \<Rightarrow> 1 + MessageSize W (call_ret_ByteSizeLong W c)
      | RetGetpeername c \<Rightarrow> 1 + MessageSize W (name_ret_ByteSizeLong W c)
      | RetGetsockname c \<Rightarrow> 1 + MessageSize W (name_ret_ByteSizeLong W c)
      | RetGetsockopt c \<Rightarrow> 1 + MessageSize W (call_ret_ByteSizeLong W c)
      | RetSetsockopt c \<Rightarrow> 1 + MessageSize W (call_ret_ByteSizeLong W c)
      | RetFcntl c \<Rightarrow> 1 + MessageSize W (call_ret_ByteSizeLong W c)
      | RetAtstart s n \<Rightarrow> 2 + MessageSize W (Response_Atstart_ByteSizeLong W s n)
      | ReturningNotSet \<Rightarrow> 0)"

definition Response_InternalSerialize :: "wirelib \<Rightarrow> Response \<Rightarrow> byte list" where
  "Response_InternalSerialize W r =
     (let call = (\<lambda>n c. InternalWriteMessage W n (call_ret_InternalSerialize W c) (call_ret_ByteSizeLong W c));
          name = (\<lambda>n c. InternalWriteMessage W n (name_ret_InternalSerialize W c) (name_ret_ByteSizeLong W c))
      in (case returning r of
            RetSocket c \<Rightarrow> call 1 c
          | RetConnect c \<Rightarrow> call 2 c
          | RetClose c \<Rightarrow> call 3 c
          | RetRecvfrom c \<Rightarrow> InternalWriteMessage W 4 (Response_Recvfrom_InternalSerialize W c) (Response_Recvfrom_ByteSizeLong W c)
          | RetSendto c \<Rightarrow> call 5 c
          | RetPoll c \<Rightarrow> call 6 c
          | RetSelect c \<Rightarrow> call 7 c
          | RetGetpeername c \<Rightarrow> name 8 c
          | RetGetsockname c \<Rightarrow> name 9 c
          | RetGetsockopt c \<Rightarrow> call 10 c
          | RetSetsockopt c \<Rightarrow> call 11 c
          | RetFcntl c \<Rightarrow> call 12 c
          | _ \<Rightarrow> []) @
         (case retcode r of None \<Rightarrow> [] | Some c \<Rightarrow> WriteEnumToArray W 15 (retcode_int c)) @
         (case returning r of
            RetAtstart s n \<Rightarrow> InternalWriteMessage W 16 (Response_Atstart_InternalSerialize W s n) (Response_Atstart_ByteSizeLong W s n)
          | _ \<Rightarrow> []))"

end
