(* ===== verification/Wire_Tables.thy ===== *)
theory Wire_Tables
  imports Cpp_Messages Rpc_Descriptors
begin

section \<open>What the client's tables say about the bytes\<close>

text \<open>
  protobuf-c is documented to write the fields of a message in the order of its table, each with the tag and the encoding
  for its number and type there, an absent field not at all. \<open>encode_message\<close> is that
  reading of the tables of Rpc_Descriptors; messages nest one level deep. \<open>request_values\<close> and \<open>response_values\<close> give the fields of a message by name.
\<close>

datatype leaf = VInt int | VUInt nat | VBool bool | VEnum nat | VBytes "byte list" | VString string

datatype field_value = Leaf leaf | Message "(string \<times> leaf) list"

fun encode_leaf :: "field_type \<Rightarrow> nat \<Rightarrow> leaf \<Rightarrow> byte list" where
  "encode_leaf TYPE_INT32 n (VInt v) = tag_bytes n 0 @ varint_int v"
| "encode_leaf TYPE_UINT64 n (VUInt v) = tag_bytes n 0 @ varint v"
| "encode_leaf TYPE_BOOL n (VBool b) = tag_bytes n 0 @ varint (if b then 1 else 0)"
| "encode_leaf TYPE_ENUM n (VEnum k) = tag_bytes n 0 @ varint k"
| "encode_leaf TYPE_BYTES n (VBytes b) = tag_bytes n 2 @ delimited b"
| "encode_leaf TYPE_STRING n (VString s) = tag_bytes n 2 @ delimited (map of_char s)"
| "encode_leaf _ n _ = []"

definition encode_flat :: "MessageDescriptor \<Rightarrow> (string \<times> leaf) list \<Rightarrow> byte list" where
  "encode_flat m vs = concat (map (\<lambda>f. case map_of vs (fd_name f) of
       None \<Rightarrow> [] | Some v \<Rightarrow> encode_leaf (fd_type f) (fd_id f) v) (md_fields m))"

fun encode_field :: "FieldDescriptor \<Rightarrow> field_value \<Rightarrow> byte list" where
  "encode_field f (Leaf v) = encode_leaf (fd_type f) (fd_id f) v"
| "encode_field f (Message vs) =
     (case Option.bind (fd_descriptor f) (map_of rpc_descriptors) of
        None \<Rightarrow> [] | Some m \<Rightarrow> tag_bytes (fd_id f) 2 @ delimited (encode_flat m vs))"

definition encode_message :: "MessageDescriptor \<Rightarrow> (string \<times> field_value) list \<Rightarrow> byte list" where
  "encode_message m vs = concat (map (\<lambda>f. case map_of vs (fd_name f) of
       None \<Rightarrow> [] | Some v \<Rightarrow> encode_field f v) (md_fields m))"

fun calling_values :: "calling \<Rightarrow> (string \<times> field_value) list" where
  "calling_values CallingNotSet = []"
| "calling_values (CallSocket d t p) = [(''socketCall'', Message [(''domain'', VInt d), (''type'', VInt t), (''protocol'', VInt p)])]"
| "calling_values (CallConnect a) = [(''connectCall'', Message [(''addr'', VBytes a)])]"
| "calling_values CallClose = [(''closeCall'', Message [])]"
| "calling_values (CallRecvfrom l f r) = [(''recvfromCall'', Message [(''len'', VInt l), (''flags'', VInt f), (''requireAddr'', VBool r)])]"
| "calling_values (CallSendto b f a) = [(''sendtoCall'', Message ([(''buf'', VBytes b), (''flags'', VInt f)] @
     (case a of None \<Rightarrow> [] | Some x \<Rightarrow> [(''addr'', VBytes x)])))]"
| "calling_values CallPoll = [(''pollCall'', Message [])]"
| "calling_values CallSelect = [(''selectCall'', Message [])]"
| "calling_values CallGetpeername = [(''getpeernameCall'', Message [])]"
| "calling_values CallGetsockname = [(''getsocknameCall'', Message [])]"
| "calling_values CallGetsockopt = [(''getsockoptCall'', Message [])]"
| "calling_values CallSetsockopt = [(''setsockoptCall'', Message [])]"
| "calling_values CallFcntl = [(''fcntlCall'', Message [])]"
| "calling_values (ActionAtstart s) = [(''atstartAction'', Message [(''progname'', VString s)])]"

definition request_values :: "Request \<Rightarrow> (string \<times> field_value) list" where
  "request_values r = (''pid'', Leaf (VUInt (req_pid r))) # calling_values (req_calling r)"

definition optional :: "string \<Rightarrow> ('a \<Rightarrow> leaf) \<Rightarrow> 'a option \<Rightarrow> (string \<times> leaf) list" where
  "optional name f v = (case v of None \<Rightarrow> [] | Some x \<Rightarrow> [(name, f x)])"

definition ret_values :: "('a call_ret_scheme) \<Rightarrow> (string \<times> leaf) list" where
  "ret_values c = (''ret'', VInt (ret c)) # optional ''errno_'' VInt (errno' c)"

fun returning_values :: "returning \<Rightarrow> (string \<times> field_value) list" where
  "returning_values ReturningNotSet = []"
| "returning_values (RetSocket c) = [(''socketCall'', Message (ret_values c))]"
| "returning_values (RetConnect c) = [(''connectCall'', Message (ret_values c))]"
| "returning_values (RetClose c) = [(''closeCall'', Message (ret_values c))]"
| "returning_values (RetRecvfrom c) = [(''recvfromCall'', Message (ret_values c @ optional ''buf'' VBytes (buf' c) @ optional ''addr'' VBytes (addr' c)))]"
| "returning_values (RetSendto c) = [(''sendtoCall'', Message (ret_values c))]"
| "returning_values (RetPoll c) = [(''pollCall'', Message (ret_values c))]"
| "returning_values (RetSelect c) = [(''selectCall'', Message (ret_values c))]"
| "returning_values (RetGetpeername c) = [(''getpeernameCall'', Message (ret_values c @ optional ''peername'' VBytes (name' c)))]"
| "returning_values (RetGetsockname c) = [(''getsocknameCall'', Message (ret_values c @ optional ''sockanme'' VBytes (name' c)))]"
| "returning_values (RetGetsockopt c) = [(''getsockoptCall'', Message (ret_values c))]"
| "returning_values (RetSetsockopt c) = [(''setsockoptCall'', Message (ret_values c))]"
| "returning_values (RetFcntl c) = [(''fcntlCall'', Message (ret_values c))]"
| "returning_values (RetAtstart s n) = [(''atstartAction'', Message ((''startfd'', VInt s) # optional ''count'' VInt n))]"

definition response_values :: "Response \<Rightarrow> (string \<times> field_value) list" where
  "response_values r = (case retcode r of None \<Rightarrow> [] | Some c \<Rightarrow> [(''retCode'', Leaf (VEnum (nat (retcode_int c))))]) @
     returning_values (returning r)"

subsection \<open>The bytes of each message\<close>

lemma message_tables:
  "map_of rpc_descriptors ''request__socket__descriptor'' = Some request__socket__descriptor"
  "map_of rpc_descriptors ''request__connect__descriptor'' = Some request__connect__descriptor"
  "map_of rpc_descriptors ''request__close__descriptor'' = Some request__close__descriptor"
  "map_of rpc_descriptors ''request__recvfrom__descriptor'' = Some request__recvfrom__descriptor"
  "map_of rpc_descriptors ''request__sendto__descriptor'' = Some request__sendto__descriptor"
  "map_of rpc_descriptors ''request__poll__descriptor'' = Some request__poll__descriptor"
  "map_of rpc_descriptors ''request__select__descriptor'' = Some request__select__descriptor"
  "map_of rpc_descriptors ''request__getpeername__descriptor'' = Some request__getpeername__descriptor"
  "map_of rpc_descriptors ''request__getsockname__descriptor'' = Some request__getsockname__descriptor"
  "map_of rpc_descriptors ''request__getsockopt__descriptor'' = Some request__getsockopt__descriptor"
  "map_of rpc_descriptors ''request__setsockopt__descriptor'' = Some request__setsockopt__descriptor"
  "map_of rpc_descriptors ''request__fcntl__descriptor'' = Some request__fcntl__descriptor"
  "map_of rpc_descriptors ''request__atstart__descriptor'' = Some request__atstart__descriptor"
  "map_of rpc_descriptors ''response__socket__descriptor'' = Some response__socket__descriptor"
  "map_of rpc_descriptors ''response__connect__descriptor'' = Some response__connect__descriptor"
  "map_of rpc_descriptors ''response__close__descriptor'' = Some response__close__descriptor"
  "map_of rpc_descriptors ''response__recvfrom__descriptor'' = Some response__recvfrom__descriptor"
  "map_of rpc_descriptors ''response__sendto__descriptor'' = Some response__sendto__descriptor"
  "map_of rpc_descriptors ''response__poll__descriptor'' = Some response__poll__descriptor"
  "map_of rpc_descriptors ''response__select__descriptor'' = Some response__select__descriptor"
  "map_of rpc_descriptors ''response__getpeername__descriptor'' = Some response__getpeername__descriptor"
  "map_of rpc_descriptors ''response__getsockname__descriptor'' = Some response__getsockname__descriptor"
  "map_of rpc_descriptors ''response__getsockopt__descriptor'' = Some response__getsockopt__descriptor"
  "map_of rpc_descriptors ''response__setsockopt__descriptor'' = Some response__setsockopt__descriptor"
  "map_of rpc_descriptors ''response__fcntl__descriptor'' = Some response__fcntl__descriptor"
  "map_of rpc_descriptors ''response__atstart__descriptor'' = Some response__atstart__descriptor"
  by (simp_all add: rpc_descriptors_def request_descriptors_def response_descriptors_def)

fun calling_payload :: "calling \<Rightarrow> byte list" where
  "calling_payload (CallSocket d t p) =
     tag_bytes 1 0 @ varint_int d @ tag_bytes 2 0 @ varint_int t @ tag_bytes 3 0 @ varint_int p"
| "calling_payload (CallConnect a) = tag_bytes 1 2 @ delimited a"
| "calling_payload (CallRecvfrom l f r) =
     tag_bytes 1 0 @ varint_int l @ tag_bytes 2 0 @ varint_int f @ tag_bytes 3 0 @ varint (if r then 1 else 0)"
| "calling_payload (CallSendto b f a) =
     tag_bytes 1 2 @ delimited b @ tag_bytes 2 0 @ varint_int f @ (case a of None \<Rightarrow> [] | Some x \<Rightarrow> tag_bytes 3 2 @ delimited x)"
| "calling_payload (ActionAtstart s) = tag_bytes 1 2 @ delimited (map of_char s)"
| "calling_payload _ = []"

definition request_bytes :: "Request \<Rightarrow> byte list" where
  "request_bytes r =
     (let c = req_calling r; p = tag_bytes 15 0 @ varint (req_pid r);
          b = (if calling_case c = 0 then [] else tag_bytes (calling_case c) 2 @ delimited (calling_payload c))
      in if calling_case c < 15 then b @ p else p @ b)"

lemma encode_request: "encode_message request__descriptor (request_values r) = request_bytes r"
  by (cases "req_calling r")
    (simp_all add: encode_message_def request__descriptor_def request__field_descriptors_def request_values_def request_bytes_def
      message_tables encode_flat_def request__socket__descriptor_def request__connect__descriptor_def request__close__descriptor_def
      request__recvfrom__descriptor_def request__sendto__descriptor_def request__poll__descriptor_def request__select__descriptor_def
      request__getpeername__descriptor_def request__getsockname__descriptor_def request__getsockopt__descriptor_def
      request__setsockopt__descriptor_def request__fcntl__descriptor_def request__atstart__descriptor_def Let_def split: option.split)

definition ret_bytes :: "'a call_ret_scheme \<Rightarrow> byte list" where
  "ret_bytes c = tag_bytes 1 0 @ varint_int (ret c) @ (case errno' c of None \<Rightarrow> [] | Some e \<Rightarrow> tag_bytes 2 0 @ varint_int e)"

definition opt_bytes :: "nat \<Rightarrow> byte list option \<Rightarrow> byte list" where
  "opt_bytes n v = (case v of None \<Rightarrow> [] | Some b \<Rightarrow> tag_bytes n 2 @ delimited b)"

fun returning_payload :: "returning \<Rightarrow> byte list" where
  "returning_payload ReturningNotSet = []"
| "returning_payload (RetRecvfrom c) = ret_bytes c @ opt_bytes 3 (buf' c) @ opt_bytes 4 (addr' c)"
| "returning_payload (RetGetpeername c) = ret_bytes c @ opt_bytes 3 (name' c)"
| "returning_payload (RetGetsockname c) = ret_bytes c @ opt_bytes 3 (name' c)"
| "returning_payload (RetAtstart s n) = tag_bytes 1 0 @ varint_int s @ (case n of None \<Rightarrow> [] | Some k \<Rightarrow> tag_bytes 2 0 @ varint_int k)"
| "returning_payload (RetSocket c) = ret_bytes c"
| "returning_payload (RetConnect c) = ret_bytes c"
| "returning_payload (RetClose c) = ret_bytes c"
| "returning_payload (RetSendto c) = ret_bytes c"
| "returning_payload (RetPoll c) = ret_bytes c"
| "returning_payload (RetSelect c) = ret_bytes c"
| "returning_payload (RetGetsockopt c) = ret_bytes c"
| "returning_payload (RetSetsockopt c) = ret_bytes c"
| "returning_payload (RetFcntl c) = ret_bytes c"

definition response_bytes :: "Response \<Rightarrow> byte list" where
  "response_bytes r =
     (let c = returning r; p = (case retcode r of None \<Rightarrow> [] | Some k \<Rightarrow> tag_bytes 15 0 @ varint_int (retcode_int k));
          b = (if returning_case c = 0 then [] else tag_bytes (returning_case c) 2 @ delimited (returning_payload c))
      in if returning_case c < 15 then b @ p else p @ b)"

lemma retcode_varint: "varint (nat (retcode_int k)) = varint_int (retcode_int k)"
  by (cases k) (simp_all add: varint_int_def)

lemma flat_ret:
  "encode_flat response__socket__descriptor (ret_values c) = ret_bytes c"
  "encode_flat response__connect__descriptor (ret_values c) = ret_bytes c"
  "encode_flat response__close__descriptor (ret_values c) = ret_bytes c"
  "encode_flat response__sendto__descriptor (ret_values c) = ret_bytes c"
  "encode_flat response__poll__descriptor (ret_values c) = ret_bytes c"
  "encode_flat response__select__descriptor (ret_values c) = ret_bytes c"
  "encode_flat response__getsockopt__descriptor (ret_values c) = ret_bytes c"
  "encode_flat response__setsockopt__descriptor (ret_values c) = ret_bytes c"
  "encode_flat response__fcntl__descriptor (ret_values c) = ret_bytes c"
  by (cases "errno' c"; simp add: encode_flat_def ret_values_def ret_bytes_def optional_def
      response__socket__descriptor_def
      response__connect__descriptor_def
      response__close__descriptor_def
      response__sendto__descriptor_def
      response__poll__descriptor_def
      response__select__descriptor_def
      response__getsockopt__descriptor_def
      response__setsockopt__descriptor_def
      response__fcntl__descriptor_def)+

lemma flat_name:
  "encode_flat response__getpeername__descriptor (ret_values c @ optional ''peername'' VBytes v) = ret_bytes c @ opt_bytes 3 v"
  "encode_flat response__getsockname__descriptor (ret_values c @ optional ''sockanme'' VBytes v) = ret_bytes c @ opt_bytes 3 v"
  by (cases "errno' c"; cases v; simp add: encode_flat_def ret_values_def ret_bytes_def optional_def opt_bytes_def
      response__getpeername__descriptor_def response__getsockname__descriptor_def)+

lemma flat_recvfrom:
  "encode_flat response__recvfrom__descriptor (ret_values c @ optional ''buf'' VBytes b @ optional ''addr'' VBytes a) =
     ret_bytes c @ opt_bytes 3 b @ opt_bytes 4 a"
  by (cases "errno' c"; cases b; cases a; simp add: encode_flat_def ret_values_def ret_bytes_def optional_def opt_bytes_def
      response__recvfrom__descriptor_def)

lemma flat_atstart:
  "encode_flat response__atstart__descriptor ((''startfd'', VInt s) # optional ''count'' VInt n) = returning_payload (RetAtstart s n)"
  by (cases n; simp add: encode_flat_def optional_def response__atstart__descriptor_def)

lemma encode_response: "encode_message response__descriptor (response_values r) = response_bytes r"
proof (cases "retcode r")
  case None
  then show ?thesis
    by (cases "returning r")
      (simp_all add: encode_message_def response__descriptor_def response__field_descriptors_def response_values_def response_bytes_def
        message_tables flat_ret flat_name flat_recvfrom flat_atstart)
next
  case (Some k)
  then show ?thesis
    by (cases "returning r")
      (simp_all add: encode_message_def response__descriptor_def response__field_descriptors_def response_values_def response_bytes_def
        message_tables flat_ret flat_name flat_recvfrom flat_atstart retcode_varint)
qed

end
