(* ===== verification/Wire_Codec.thy ===== *)
theory Wire_Codec
  imports Wire_Tables
begin

unbundle bit_operations_syntax

section \<open>Client and daemon understand each other\<close>

text \<open>
  The client's messages are the ones its tables describe, the daemon's code is the generated C++ code. Here the two meet: what
  the daemon writes is what the client's tables say, with the size computed before; and what the
  client's tables say of a request is read back by the daemon as this request.
\<close>

subsection \<open>Responses\<close>

lemma tag_length: "n < 16 \<Longrightarrow> t < 8 \<Longrightarrow> length (tag_bytes n t) = 1" "t < 8 \<Longrightarrow> length (tag_bytes 16 t) = 2"
  by (simp_all add: tag_bytes_def varint.simps)

context wire_format
begin

lemma nested_sizes:
  "call_ret_ByteSizeLong W c = length (ret_bytes c)"
  "Response_Recvfrom_ByteSizeLong W rc = length (ret_bytes rc @ opt_bytes 3 (buf' rc) @ opt_bytes 4 (addr' rc))"
  "name_ret_ByteSizeLong W nc = length (ret_bytes nc @ opt_bytes 3 (name' nc))"
  "Response_Atstart_ByteSizeLong W s n = length (returning_payload (RetAtstart s n))"
  by (auto simp: call_ret_ByteSizeLong_def Response_Recvfrom_ByteSizeLong_def name_ret_ByteSizeLong_def Response_Atstart_ByteSizeLong_def
      sizes ret_bytes_def opt_bytes_def tag_length split: option.split)

lemma nested_bytes:
  "call_ret_InternalSerialize W c = ret_bytes c"
  "Response_Recvfrom_InternalSerialize W rc = ret_bytes rc @ opt_bytes 3 (buf' rc) @ opt_bytes 4 (addr' rc)"
  "name_ret_InternalSerialize W nc = ret_bytes nc @ opt_bytes 3 (name' nc)"
  "Response_Atstart_InternalSerialize W s n = returning_payload (RetAtstart s n)"
  by (auto simp: call_ret_InternalSerialize_def Response_Recvfrom_InternalSerialize_def name_ret_InternalSerialize_def
      Response_Atstart_InternalSerialize_def writes ret_bytes_def opt_bytes_def split: option.split)

lemma Response_bytes: "Response_InternalSerialize W r = response_bytes r"
  by (cases "returning r")
    (simp_all add: Response_InternalSerialize_def response_bytes_def nested_bytes nested_sizes writes delimited_def split: option.split)

lemma Response_size: "Response_ByteSizeLong W r = length (response_bytes r)"
  by (cases "returning r")
    (simp_all add: Response_ByteSizeLong_def response_bytes_def nested_sizes sizes tag_length delimited_def split: option.split)

end

subsection \<open>Requests\<close>

definition int32 :: "int \<Rightarrow> bool" where
  "int32 v \<longleftrightarrow> - (2 ^ 31) \<le> v \<and> v < 2 ^ 31"

fun calling_fits :: "calling \<Rightarrow> bool" where
  "calling_fits (CallSocket d t p) \<longleftrightarrow> int32 d \<and> int32 t \<and> int32 p"
| "calling_fits (CallRecvfrom l f r) \<longleftrightarrow> int32 l \<and> int32 f"
| "calling_fits (CallSendto b f a) \<longleftrightarrow> int32 f"
| "calling_fits _ \<longleftrightarrow> True"

definition request_fits :: "Request \<Rightarrow> bool" where
  "request_fits r \<longleftrightarrow> req_pid r < 2 ^ 64 \<and> calling_fits (req_calling r) \<and> length (request_bytes r) \<le> RPC_MESSAGE_MAX_SIZE"

lemma sint_int32: "int32 v \<Longrightarrow> sint (word_of_int v :: u32) = v"
  by (simp add: int32_def sint_sbintrunc' signed_take_bit_int_eq_self)

fun parsed_calling :: "calling \<Rightarrow> cpp_calling" where
  "parsed_calling CallingNotSet = CALLING_NOT_SET"
| "parsed_calling (CallSocket d t p) = SocketCall \<lparr>sk_domain = Some d, sk_type = Some t, sk_protocol = Some p\<rparr>"
| "parsed_calling (CallConnect a) = ConnectCall \<lparr>co_addr = Some a\<rparr>"
| "parsed_calling CallClose = CloseCall"
| "parsed_calling (CallRecvfrom l f r) = RecvfromCall \<lparr>rf_len = Some l, rf_flags = Some f, rf_requireaddr = Some r\<rparr>"
| "parsed_calling (CallSendto b f a) = SendtoCall \<lparr>st_buf = Some b, st_flags = Some f, st_addr = a\<rparr>"
| "parsed_calling CallPoll = PollCall"
| "parsed_calling CallSelect = SelectCall"
| "parsed_calling CallGetpeername = GetpeernameCall"
| "parsed_calling CallGetsockname = GetsocknameCall"
| "parsed_calling CallGetsockopt = GetsockoptCall"
| "parsed_calling CallSetsockopt = SetsockoptCall"
| "parsed_calling CallFcntl = FcntlCall"
| "parsed_calling (ActionAtstart s) = AtstartAction \<lparr>as_progname = Some (map of_char s)\<rparr>"

lemma low_word: "ucast (word_of_int v :: u64) = (word_of_int v :: u32)"
  by (rule bit_word_eqI) (simp add: bit_simps)

lemma char_round_trip: "char_of (unat (of_char c :: byte)) = c"
proof -
  have "(of_char c :: byte) = of_nat (of_char c)" by (simp add: of_nat_of_char)
  moreover have "(of_char c :: nat) < 256" by (rule nat_of_char_less_256)
  ultimately show ?thesis by (simp add: unat_of_nat)
qed

definition rest_within :: "byte list \<Rightarrow> ('m \<times> byte list option) option \<Rightarrow> bool" where
  "rest_within p r \<longleftrightarrow> (\<forall>m1 p1. r = Some (m1, Some p1) \<longrightarrow> length p1 \<le> length p)"

lemma switch_advances_rest: "switch_advances sw \<longleftrightarrow> (\<forall>tag p m. rest_within p (sw tag p m))"
  by (simp add: switch_advances_def rest_within_def)

lemma parsed_calling: "calling_of (parsed_calling c) = c" "calling_IsInitialized (parsed_calling c)"
  by (cases c; simp add: or_default_def comp_def char_round_trip)+

context wire_format
begin

lemma read_int32: "ReadVarint32 W (varint_int v @ bs) = (word_of_int v, Some bs)"
  by (simp add: varint_int_def read_varint32 low_word)

lemma read_bool: "ReadVarint64 W (varint (if b then 1 else 0) @ bs) = (if b then 1 else 0, Some bs)"
  using read_varint64 [of 1 bs] read_varint64 [of 0 bs] by simp

lemmas reads = read_int32 read_bool read_delimited

lemma pair_advances:
  "ReadVarint32 W bs = (v, Some r) \<Longrightarrow> length r \<le> length bs" "ReadVarint64 W bs = (w, Some r) \<Longrightarrow> length r \<le> length bs"
  "ReadDelimited W bs = (b, Some r) \<Longrightarrow> length r \<le> length bs"
  using advances(2-4) [of bs r] by simp_all

lemma leaf_switches:
  "switch_advances (Request_Socket_InternalParse W)" "switch_advances (Request_Connect_InternalParse W)"
  "switch_advances (Request_Recvfrom_InternalParse W)" "switch_advances (Request_Sendto_InternalParse W)"
  "switch_advances (Request_Atstart_InternalParse W)" "switch_advances no_fields"
  by (auto simp: switch_advances_def Request_Socket_InternalParse_def Request_Connect_InternalParse_def Request_Recvfrom_InternalParse_def
      Request_Sendto_InternalParse_def Request_Atstart_InternalParse_def no_fields_def split: if_splits prod.splits
      dest: pair_advances)

lemma parse_last:
  assumes "switch_advances sw" "n \<le> 16" "t < 8" "sw (of_nat (8 * n + t)) b m = Some (m1, Some [])"
  shows "parse_all W sw (tag_bytes n t @ b) m = (m1, AtLimit)"
  using parse_field [OF assms(1-3), of b "[]" m m1] assms(4) by simp

lemmas reads_last = read_int32 [where bs = "[]", simplified] read_bool [where bs = "[]", simplified] read_delimited [where bs = "[]", simplified]

lemma parse_socket:
  assumes "int32 d" "int32 t" "int32 p"
  shows "parse_all W (Request_Socket_InternalParse W) (calling_payload (CallSocket d t p)) m =
    (m\<lparr>sk_domain := Some d, sk_type := Some t, sk_protocol := Some p\<rparr>, AtLimit)"
  using parse_field [OF leaf_switches(1), of 1 0 "varint_int d" "tag_bytes 2 0 @ varint_int t @ tag_bytes 3 0 @ varint_int p" m "m\<lparr>sk_domain := Some d\<rparr>"]
    parse_field [OF leaf_switches(1), of 2 0 "varint_int t" "tag_bytes 3 0 @ varint_int p" "m\<lparr>sk_domain := Some d\<rparr>" "m\<lparr>sk_domain := Some d, sk_type := Some t\<rparr>"]
    parse_last [OF leaf_switches(1), of 3 0 "varint_int p" "m\<lparr>sk_domain := Some d, sk_type := Some t\<rparr>"] assms
  by (simp add: Request_Socket_InternalParse_def is_field_def reads reads_last sint_int32)

lemma parse_connect:
  assumes "length a < 2 ^ 31"
  shows "parse_all W (Request_Connect_InternalParse W) (calling_payload (CallConnect a)) m = (m\<lparr>co_addr := Some a\<rparr>, AtLimit)"
  using parse_last [OF leaf_switches(2), of 1 2 "delimited a" m] assms by (simp add: Request_Connect_InternalParse_def is_field_def reads_last)

lemma parse_recvfrom:
  assumes "int32 l" "int32 f"
  shows "parse_all W (Request_Recvfrom_InternalParse W) (calling_payload (CallRecvfrom l f r)) m =
    (m\<lparr>rf_len := Some l, rf_flags := Some f, rf_requireaddr := Some r\<rparr>, AtLimit)"
  using parse_field [OF leaf_switches(3), of 1 0 "varint_int l" "tag_bytes 2 0 @ varint_int f @ tag_bytes 3 0 @ varint (if r then 1 else 0)" m "m\<lparr>rf_len := Some l\<rparr>"]
    parse_field [OF leaf_switches(3), of 2 0 "varint_int f" "tag_bytes 3 0 @ varint (if r then 1 else 0)" "m\<lparr>rf_len := Some l\<rparr>" "m\<lparr>rf_len := Some l, rf_flags := Some f\<rparr>"]
    parse_last [OF leaf_switches(3), of 3 0 "varint (if r then 1 else 0)" "m\<lparr>rf_len := Some l, rf_flags := Some f\<rparr>"] assms
  by (simp add: Request_Recvfrom_InternalParse_def is_field_def reads reads_last sint_int32 del: if_split)

lemma parse_sendto:
  assumes "length b < 2 ^ 31" "int32 f" "\<And>x. a = Some x \<Longrightarrow> length x < 2 ^ 31" "st_addr m = None"
  shows "parse_all W (Request_Sendto_InternalParse W) (calling_payload (CallSendto b f a)) m =
    (m\<lparr>st_buf := Some b, st_flags := Some f, st_addr := a\<rparr>, AtLimit)"
proof (cases a)
  case None
  then show ?thesis
    using parse_field [OF leaf_switches(4), of 1 2 "delimited b" "tag_bytes 2 0 @ varint_int f" m "m\<lparr>st_buf := Some b\<rparr>"]
      parse_last [OF leaf_switches(4), of 2 0 "varint_int f" "m\<lparr>st_buf := Some b\<rparr>"] assms
    by (simp add: Request_Sendto_InternalParse_def is_field_def reads reads_last sint_int32)
next
  case (Some x)
  then show ?thesis
    using parse_field [OF leaf_switches(4), of 1 2 "delimited b" "tag_bytes 2 0 @ varint_int f @ tag_bytes 3 2 @ delimited x" m "m\<lparr>st_buf := Some b\<rparr>"]
      parse_field [OF leaf_switches(4), of 2 0 "varint_int f" "tag_bytes 3 2 @ delimited x" "m\<lparr>st_buf := Some b\<rparr>" "m\<lparr>st_buf := Some b, st_flags := Some f\<rparr>"]
      parse_last [OF leaf_switches(4), of 3 2 "delimited x" "m\<lparr>st_buf := Some b, st_flags := Some f\<rparr>"] assms
    by (simp add: Request_Sendto_InternalParse_def is_field_def reads reads_last sint_int32)
qed

lemma parse_atstart:
  assumes "length s < 2 ^ 31"
  shows "parse_all W (Request_Atstart_InternalParse W) (calling_payload (ActionAtstart s)) m = (m\<lparr>as_progname := Some (map of_char s)\<rparr>, AtLimit)"
  using parse_last [OF leaf_switches(5), of 1 2 "delimited (map of_char s)" m] assms by (simp add: Request_Atstart_InternalParse_def is_field_def reads_last)

lemma member_read:
  assumes "length b < 2 ^ 31" "parse_all W sw b (mutable_x (cr_calling m)) = (x, AtLimit)"
  shows "parse_member W sw mutable_x put (delimited b @ bs) m = Some (m\<lparr>cr_calling := put x\<rparr>, Some bs)"
  using assms by (simp add: parse_member_def ParseMessage_def read_delimited)

lemma rest_advances:
  "rest_within p x \<Longrightarrow> rest_within p y \<Longrightarrow> rest_within p (if c then x else y)" "rest_within p None"
  "rest_within p (parse_member W sw mutable_x put p m)" "rest_within p (case ReadVarint64 W p of (v, p1) \<Rightarrow> Some (f v, p1))"
  by (auto simp: rest_within_def parse_member_def ParseMessage_def split: prod.splits if_splits dest: pair_advances)

lemma request_switch: "switch_advances (Request_InternalParse W)"
  unfolding switch_advances_rest Request_InternalParse_def by (intro allI rest_advances)

lemma member_field:
  assumes "calling_case c \<noteq> 0" "calling_fits c" "length (calling_payload c) < 2 ^ 31" "cr_calling m = CALLING_NOT_SET"
  shows "Request_InternalParse W (of_nat (8 * calling_case c + 2)) (delimited (calling_payload c) @ bs) m =
    Some (m\<lparr>cr_calling := parsed_calling c\<rparr>, Some bs)"
proof (cases c)
  case (CallSocket d t p)
  then show ?thesis using assms member_read [OF assms(3), of "Request_Socket_InternalParse W" mutable_socketcall m] parse_socket [of d t p]
    by (simp add: Request_InternalParse_def is_field_def del: calling_payload.simps)
next
  case (CallConnect a)
  have "length a < 2 ^ 31" using assms(3) CallConnect by (simp add: delimited_def)
  then show ?thesis using CallConnect assms member_read [OF assms(3), of "Request_Connect_InternalParse W" mutable_connectcall m] parse_connect [of a]
    by (simp add: Request_InternalParse_def is_field_def del: calling_payload.simps)
next
  case (CallRecvfrom l f r)
  then show ?thesis using assms member_read [OF assms(3), of "Request_Recvfrom_InternalParse W" mutable_recvfromcall m] parse_recvfrom [of l f r]
    by (simp add: Request_InternalParse_def is_field_def del: calling_payload.simps)
next
  case (CallSendto b f a)
  have "length b < 2 ^ 31" "\<And>x. a = Some x \<Longrightarrow> length x < 2 ^ 31" using assms(3) CallSendto by (auto simp: delimited_def)
  then show ?thesis using CallSendto assms member_read [OF assms(3), of "Request_Sendto_InternalParse W" mutable_sendtocall m] parse_sendto [of b f a]
    by (simp add: Request_InternalParse_def is_field_def del: calling_payload.simps)
next
  case (ActionAtstart s)
  have "length s < 2 ^ 31" using assms(3) ActionAtstart by (simp add: delimited_def)
  then show ?thesis using ActionAtstart assms member_read [OF assms(3), of "Request_Atstart_InternalParse W" mutable_atstartaction m] parse_atstart [of s]
    by (simp add: Request_InternalParse_def is_field_def del: calling_payload.simps)
qed (use assms member_read [of "[]" no_fields "\<lambda>_. ()" m "()"] in \<open>simp_all add: Request_InternalParse_def is_field_def\<close>)

lemma pid_field:
  "n < 2 ^ 64 \<Longrightarrow> Request_InternalParse W (of_nat (8 * 15 + 0)) (varint n @ bs) m = Some (m\<lparr>cr_pid := Some (of_nat n)\<rparr>, Some bs)"
  using read_varint64 [of "of_nat n" bs] by (simp add: unat_of_nat Request_InternalParse_def is_field_def)

lemma request_read:
  assumes fits: "request_fits r"
  shows "Request_ParseFromArray W (request_bytes r) = (True, \<lparr>cr_pid = Some (of_nat (req_pid r)), cr_calling = parsed_calling (req_calling r)\<rparr>)"
proof -
  let ?c = "req_calling r" and ?n = "req_pid r" and ?new = cpp_Request_new
  have n: "?n < 2 ^ 64" and c: "calling_fits ?c" using fits by (simp_all add: request_fits_def)
  have "length (request_bytes r) < 2 ^ 31" using fits by (simp add: request_fits_def RPC_MESSAGE_MAX_SIZE_def)
  then have l: "length (calling_payload ?c) < 2 ^ 31" if "calling_case ?c \<noteq> 0"
    using that by (auto simp: request_bytes_def delimited_def Let_def split: if_splits)
  have "parse_all W (Request_InternalParse W) (request_bytes r) ?new =
      (\<lparr>cr_pid = Some (of_nat ?n), cr_calling = parsed_calling ?c\<rparr>, AtLimit)"
  proof (cases "calling_case ?c = 0")
    case True
    then have "?c = CallingNotSet" by (cases ?c) simp_all
    then show ?thesis using parse_last [OF request_switch, of 15 0 "varint ?n" ?new] pid_field [OF n, of "[]" ?new]
      by (simp add: request_bytes_def cpp_Request_new_def Let_def)
  next
    case False
    note f = member_field [OF False c l [OF False]]
    show ?thesis
    proof (cases "calling_case ?c < 15")
      case True
      let ?m = "?new\<lparr>cr_calling := parsed_calling ?c\<rparr>"
      show ?thesis using True False parse_field [OF request_switch _ _ f [of ?new "tag_bytes 15 0 @ varint ?n"]]
          parse_last [OF request_switch, of 15 0 "varint ?n" ?m] pid_field [OF n, of "[]" ?m]
        by (simp add: request_bytes_def cpp_Request_new_def Let_def)
    next
      case False
      let ?m = "?new\<lparr>cr_pid := Some (of_nat ?n)\<rparr>" and ?b = "delimited (calling_payload ?c)"
      have c16: "calling_case ?c = 16" using False by (cases ?c) simp_all
      show ?thesis using False c16 parse_field [OF request_switch _ _ pid_field [OF n, of "tag_bytes 16 2 @ ?b" ?new]]
          parse_last [OF request_switch, of 16 2 ?b ?m] f [of ?m "[]"]
        by (simp add: request_bytes_def cpp_Request_new_def Let_def)
    qed
  qed
  then show ?thesis by (simp add: Request_ParseFromArray_def Request_IsInitialized_def parsed_calling)
qed

end

lemma varint_cases: "n < 128 \<Longrightarrow> varint n = [of_nat n]" "128 \<le> n \<Longrightarrow> varint n = of_nat (n mod 128 + 128) # varint (n div 128)"
  by (subst varint.simps, simp)+

lemma varint_int_small: "0 \<le> v \<Longrightarrow> v < 128 \<Longrightarrow> varint_int v = [of_int v]"
  by (simp add: varint_int_def unsigned_of_int varint_cases take_bit_int_eq_self)

lemma minus_one_length: "length (varint_int (-1)) = 10"
  by (simp add: varint_int_def unsigned_minus_1_eq_mask mask_eq_exp_minus_1 varint_cases)

subsection \<open>The two sides together\<close>

text \<open>(C15) A request survives the way from the client to the daemon. For a library that implements the documented encoding: the bytes that
  the tables of the interceptor's message code describe for a request whose numbers fit the fields and that fits into a message are
  parsed by the daemon's message code without error, all required fields are there, and what the handlers see is the request the client made.\<close>

theorem request_round_trip:
  assumes "wire_format W" "request_fits r"
  shows "\<exists>m. Request_ParseFromArray W (encode_message request__descriptor (request_values r)) = (True, m) \<and> request_of m = r"
  using wire_format.request_read [OF assms] assms(2)
  by (simp add: encode_request request_of_def or_default_def parsed_calling unat_of_nat request_fits_def)

theorem request_round_trip_witness:
  "\<exists>m. Request_ParseFromArray base128 (encode_message request__descriptor
     (request_values \<lparr>req_pid = 300, req_calling = CallSendto [1, 2, 3] (-1) (Some [9])\<rparr>)) = (True, m) \<and>
     request_of m = \<lparr>req_pid = 300, req_calling = CallSendto [1, 2, 3] (-1) (Some [9])\<rparr>"
proof -
  have "request_fits \<lparr>req_pid = 300, req_calling = CallSendto [1, 2, 3] (-1) (Some [9])\<rparr>"
    by (simp add: request_fits_def int32_def request_bytes_def RPC_MESSAGE_MAX_SIZE_def delimited_def tag_bytes_def varint_cases minus_one_length)
  from request_round_trip [OF base128.wire_format_axioms this] show ?thesis .
qed

text \<open>(C16) The daemon writes what the client's tables describe. For a library that implements the documented encoding: the bytes the
  daemon's message code writes for a response are the ones the tables of the interceptor's message code describe for it, field by
  field, and they are as many as the daemon computed before - the length of its buffer's part that is sent.\<close>

theorem response_as_described:
  assumes "wire_format W"
  shows "Response_InternalSerialize W r = encode_message response__descriptor (response_values r) \<and>
    Response_ByteSizeLong W r = length (Response_InternalSerialize W r)"
  by (simp add: wire_format.Response_bytes [OF assms] wire_format.Response_size [OF assms] encode_response)

theorem response_as_described_witness:
  "Response_InternalSerialize base128 \<lparr>retcode = Some RC_OK, returning = RetSocket \<lparr>ret = -1, errno' = Some 22\<rparr>\<rparr> =
     encode_message response__descriptor (response_values \<lparr>retcode = Some RC_OK, returning = RetSocket \<lparr>ret = -1, errno' = Some 22\<rparr>\<rparr>) \<and>
   Response_ByteSizeLong base128 \<lparr>retcode = Some RC_OK, returning = RetSocket \<lparr>ret = -1, errno' = Some 22\<rparr>\<rparr> = 17"
  using response_as_described [OF base128.wire_format_axioms, of "\<lparr>retcode = Some RC_OK, returning = RetSocket \<lparr>ret = -1, errno' = Some 22\<rparr>\<rparr>"]
  by (simp add: base128.Response_bytes response_bytes_def ret_bytes_def delimited_def tag_bytes_def varint_cases minus_one_length varint_int_small)

end
