(* ===== verification/Rr_Channel.thy ===== *)
theory Rr_Channel
  imports Rpc_Schema
begin

section \<open>The request/response channel of the interceptor (src/interceptor/req-resp-channel.c)\<close>

text \<open>
  The interceptor reaches everything outside itself through the table of glibc functions
  (\<open>struct glibc_socket_funcs\<close> of src/interceptor/interceptor.h) and through protobuf-c. Both
  are parameters: the record \<open>env\<close> holds them, each glibc function a transformer of an
  arbitrary world \<open>'w\<close> that also gives the value of \<open>errno\<close> after the call. A pointer
  argument is an option (\<open>None\<close> for NULL): of the bytes it points to when it is read, of the
  size of the object when it is written.

  A channel is a connected UNIX socket. \<open>chan_send\<close> writes one packed request,
  \<open>chan_recv\<close> reads responses until one does not say \<open>WAIT_NEXT\<close>; its two nested
  loops are bounded by the fuel \<open>recv_fuel\<close>, and running out of it is the fault
  \<open>NoReturn\<close>. The lemmas say what a transaction returns when the peer answers, and that a
  read error other than EINTR keeps the caller in the loop for ever.
\<close>

subsection \<open>The environment\<close>

text \<open>What a call that fills caller memory gives back: its return value, the bytes stored at
  the buffer, the bytes stored at the address and the value stored at the address length.\<close>

record io =
  io_ret :: int
  io_buf :: "byte list"
  io_addr :: "byte list"
  io_addrlen :: "nat option"

definition io_plain :: "int \<Rightarrow> io" where
  "io_plain r = \<lparr>io_ret = r, io_buf = [], io_addr = [], io_addrlen = None\<rparr>"

record pollfd =
  pfd_fd :: int
  pfd_events :: u16
  pfd_revents :: u16

type_synonym fd_set = "int \<Rightarrow> bool"

record 'w env =
  g_socket :: "int \<Rightarrow> int \<Rightarrow> int \<Rightarrow> 'w \<Rightarrow> int \<times> int \<times> 'w"
  g_connect :: "int \<Rightarrow> byte list option \<Rightarrow> nat \<Rightarrow> 'w \<Rightarrow> int \<times> int \<times> 'w"
  g_close :: "int \<Rightarrow> 'w \<Rightarrow> int \<times> int \<times> 'w"
  g_read :: "int \<Rightarrow> nat option \<Rightarrow> nat \<Rightarrow> 'w \<Rightarrow> io \<times> int \<times> 'w"
  g_write :: "int \<Rightarrow> byte list option \<Rightarrow> nat \<Rightarrow> 'w \<Rightarrow> int \<times> int \<times> 'w"
  g_send :: "int \<Rightarrow> byte list option \<Rightarrow> nat \<Rightarrow> int \<Rightarrow> 'w \<Rightarrow> int \<times> int \<times> 'w"
  g_sendto :: "int \<Rightarrow> byte list option \<Rightarrow> nat \<Rightarrow> int \<Rightarrow> byte list option \<Rightarrow> nat \<Rightarrow>
     'w \<Rightarrow> int \<times> int \<times> 'w"
  g_recv :: "int \<Rightarrow> nat option \<Rightarrow> nat \<Rightarrow> int \<Rightarrow> 'w \<Rightarrow> io \<times> int \<times> 'w"
  g_recvfrom :: "int \<Rightarrow> nat option \<Rightarrow> nat \<Rightarrow> int \<Rightarrow> nat option \<Rightarrow> nat option \<Rightarrow>
     'w \<Rightarrow> io \<times> int \<times> 'w"
  g_poll :: "pollfd list \<Rightarrow> int \<Rightarrow> 'w \<Rightarrow> (int \<times> pollfd list) \<times> int \<times> 'w"
  g_select :: "int \<Rightarrow> fd_set option \<Rightarrow> fd_set option \<Rightarrow> fd_set option \<Rightarrow> int option \<Rightarrow>
     'w \<Rightarrow> (int \<times> fd_set option \<times> fd_set option \<times> fd_set option) \<times> int \<times> 'w"
  g_getpeername :: "int \<Rightarrow> nat option \<Rightarrow> nat option \<Rightarrow> 'w \<Rightarrow> io \<times> int \<times> 'w"
  g_getsockname :: "int \<Rightarrow> nat option \<Rightarrow> nat option \<Rightarrow> 'w \<Rightarrow> io \<times> int \<times> 'w"
  g_getsockopt :: "int \<Rightarrow> int \<Rightarrow> int \<Rightarrow> nat option \<Rightarrow> nat option \<Rightarrow> 'w \<Rightarrow> io \<times> int \<times> 'w"
  g_setsockopt :: "int \<Rightarrow> int \<Rightarrow> int \<Rightarrow> byte list option \<Rightarrow> nat \<Rightarrow> 'w \<Rightarrow> int \<times> int \<times> 'w"
  g_fcntl :: "int \<Rightarrow> int \<Rightarrow> int \<Rightarrow> 'w \<Rightarrow> int \<times> int \<times> 'w"
  request__get_packed_size :: "Request \<Rightarrow> nat"
  request__pack :: "Request \<Rightarrow> byte list"
  response__unpack :: "byte list \<Rightarrow> Response option"
  recv_fuel :: nat

text \<open>The part of the process the channel code uses.\<close>

record 'w proc =
  getpid :: nat
  errno :: int
  world :: 'w

definition glibc :: "('w \<Rightarrow> 'r \<times> int \<times> 'w) \<Rightarrow> ('w, 'x) proc_scheme \<Rightarrow>
    'r \<times> ('w, 'x) proc_scheme" where
  "glibc f s = (case f (world s) of (r, e, w) \<Rightarrow> (r, s\<lparr>errno := e, world := w\<rparr>))"

subsection \<open>Opening, sending, receiving\<close>

definition master_sockaddr :: "byte list" where
  "master_sockaddr = [1, 0] @ map of_char ''/run/veloxd/master.socket''
     @ replicate (108 - length ''/run/veloxd/master.socket'') 0"

definition open_chan :: "'w env \<Rightarrow> ('w, 'x) proc_scheme \<Rightarrow> (int \<times> ('w, 'x) proc_scheme) res" where
  "open_chan E s =
     (case glibc (g_socket E 1 5 0) s of (sockfd, s1) \<Rightarrow>
        if sockfd = -1 then Inl ProcessExit
        else (case glibc (g_connect E sockfd (Some master_sockaddr) (length master_sockaddr)) s1 of
            (r, s2) \<Rightarrow> if r = -1 then Inl ProcessExit else Inr (sockfd, s2)))"

definition chan_send :: "'w env \<Rightarrow> int \<Rightarrow> Request \<Rightarrow> ('w, 'x) proc_scheme \<Rightarrow>
    ('w, 'x) proc_scheme res" where
  "chan_send E ch req s =
     (let bufsize = request__get_packed_size E req in
      bindr (assertr (bufsize \<le> RPC_MESSAGE_MAX_SIZE)) (\<lambda>_.
      case glibc (g_write E ch (Some (request__pack E req)) bufsize) s of (nwritten, s1) \<Rightarrow>
      bindr (assertr (nwritten = int bufsize)) (\<lambda>_. Inr s1)))"

text \<open>
  \<open>WHILE_EINTR(nread = read(...))\<close>: both branches of the macro's body go back to the loop's
  head, so only a read that does not return \<open>-1\<close> leaves it.
\<close>

fun while_eintr :: "'w env \<Rightarrow> int \<Rightarrow> nat \<Rightarrow> ('w, 'x) proc_scheme \<Rightarrow>
    (io \<times> ('w, 'x) proc_scheme) res" where
  "while_eintr E ch 0 s = Inl NoReturn"
| "while_eintr E ch (Suc n) s =
     (case glibc (g_read E ch (Some RPC_MESSAGE_MAX_SIZE) RPC_MESSAGE_MAX_SIZE) s of (r, s1) \<Rightarrow>
        if io_ret r = -1 then while_eintr E ch n s1 else Inr (r, s1))"

fun chan_recv_loop :: "'w env \<Rightarrow> int \<Rightarrow> nat \<Rightarrow> ('w, 'x) proc_scheme \<Rightarrow>
    (Response \<times> ('w, 'x) proc_scheme) res" where
  "chan_recv_loop E ch 0 s = Inl NoReturn"
| "chan_recv_loop E ch (Suc n) s =
     bindr (while_eintr E ch (recv_fuel E) s) (\<lambda>(r, s1).
     bindr (assertr (io_ret r \<noteq> 0)) (\<lambda>_.
     bindr (derefr (response__unpack E (take (nat (io_ret r)) (io_buf r)))) (\<lambda>resp.
     if retcode resp = Some RC_WAIT_NEXT then chan_recv_loop E ch n s1
     else Inr (resp, s1))))"

definition chan_recv :: "'w env \<Rightarrow> int \<Rightarrow> ('w, 'x) proc_scheme \<Rightarrow>
    (Response \<times> ('w, 'x) proc_scheme) res" where
  "chan_recv E ch s = chan_recv_loop E ch (recv_fuel E) s"

text \<open>One transaction, as every intercepted call makes it.\<close>

definition transact :: "'w env \<Rightarrow> int \<Rightarrow> Request \<Rightarrow> ('w, 'x) proc_scheme \<Rightarrow>
    (Response \<times> ('w, 'x) proc_scheme) res" where
  "transact E ch req s = bindr (chan_send E ch req s) (chan_recv E ch)"

subsection \<open>What the loops do\<close>

text \<open>The first \<open>n\<close> reads of a channel, one after the other.\<close>

fun reads :: "'w env \<Rightarrow> int \<Rightarrow> nat \<Rightarrow> ('w, 'x) proc_scheme \<Rightarrow> io list \<times> ('w, 'x) proc_scheme" where
  "reads E ch 0 s = ([], s)"
| "reads E ch (Suc n) s =
     (case glibc (g_read E ch (Some RPC_MESSAGE_MAX_SIZE) RPC_MESSAGE_MAX_SIZE) s of (r, s1) \<Rightarrow>
        (case reads E ch n s1 of (rs, s2) \<Rightarrow> (r # rs, s2)))"

text \<open>A read that returned a message.\<close>

definition message :: "'w env \<Rightarrow> io \<Rightarrow> Response option" where
  "message E r =
     (if io_ret r = -1 \<or> io_ret r = 0 then None
      else response__unpack E (take (nat (io_ret r)) (io_buf r)))"

definition keeps_waiting :: "'w env \<Rightarrow> io \<Rightarrow> bool" where
  "keeps_waiting E r \<longleftrightarrow> io_ret r = -1 \<or>
     (\<exists>resp. message E r = Some resp \<and> retcode resp = Some RC_WAIT_NEXT)"

lemma while_eintr_mono:
  "while_eintr E ch f s = Inr y \<Longrightarrow> f \<le> g \<Longrightarrow> while_eintr E ch g s = Inr y"
proof (induction E ch f s arbitrary: g rule: while_eintr.induct)
  case (2 E ch n s)
  then obtain m where "g = Suc m" by (cases g) auto
  with 2 show ?case by (auto split: prod.splits if_splits)
qed simp

lemma while_eintr_reads:
  assumes "reads E ch n s = (rs, s')" "r \<in> set rs" "io_ret r \<noteq> -1" "n \<le> f"
  shows "\<exists>y. while_eintr E ch f s = Inr y"
  using assms
proof (induction n arbitrary: s rs f)
  case (Suc n)
  then obtain m where "f = Suc m" by (cases f) auto
  with Suc show ?case by (fastforce split: prod.splits)
qed simp

lemma chan_recv_loop_final:
  assumes "reads E ch (Suc (length outs)) s = (outs @ [fin], s')"
    and "list_all (keeps_waiting E) outs"
    and "message E fin = Some resp" "retcode resp \<noteq> Some RC_WAIT_NEXT"
    and "Suc (length outs) \<le> recv_fuel E" "Suc (length outs) \<le> f"
  shows "chan_recv_loop E ch f s = Inr (resp, s')"
  using assms
proof (induction outs arbitrary: s f)
  case Nil
  then obtain m k where "f = Suc m" "recv_fuel E = Suc k"
    by (metis Suc_le_D list.size(3))
  with Nil show ?case by (auto simp: message_def split: prod.splits if_splits)
next
  case (Cons r outs)
  obtain m k where f: "f = Suc m" and k: "recv_fuel E = Suc k"
    using Cons.prems by (metis Suc_le_D)
  obtain s1 where s1: "glibc (g_read E ch (Some RPC_MESSAGE_MAX_SIZE) RPC_MESSAGE_MAX_SIZE) s = (r, s1)"
    and rest: "reads E ch (Suc (length outs)) s1 = (outs @ [fin], s')"
    using Cons.prems(1) by (auto split: prod.splits)
  have IH: "Suc (length outs) \<le> g \<Longrightarrow> chan_recv_loop E ch g s1 = Inr (resp, s')" for g
    using Cons.IH [OF rest] Cons.prems by simp
  show ?case
  proof (cases "io_ret r = -1")
    case True
    have "io_ret fin \<noteq> -1" using Cons.prems(3) by (auto simp: message_def split: if_splits)
    then obtain y where y: "while_eintr E ch k s1 = Inr y"
      using while_eintr_reads [OF rest, of fin k] Cons.prems(5) k by auto
    then have "while_eintr E ch (recv_fuel E) s = while_eintr E ch (recv_fuel E) s1"
      using while_eintr_mono [OF y, of "Suc k"] s1 k True by simp
    then have "chan_recv_loop E ch f s = chan_recv_loop E ch f s1" by (simp add: f)
    then show ?thesis using IH [of f] Cons.prems(6) by simp
  next
    case False
    with Cons.prems(2) obtain w where "message E r = Some w" "retcode w = Some RC_WAIT_NEXT"
      by (auto simp: keeps_waiting_def)
    then have "chan_recv_loop E ch f s = chan_recv_loop E ch m s1"
      using False s1 k f by (auto simp: message_def split: if_splits)
    then show ?thesis using IH [of m] Cons.prems(6) f by simp
  qed
qed

lemma while_eintr_stuck:
  assumes "\<And>w. io_ret (fst (g_read E ch (Some RPC_MESSAGE_MAX_SIZE) RPC_MESSAGE_MAX_SIZE w)) = -1"
  shows "while_eintr E ch f s = Inl NoReturn"
proof (induction f arbitrary: s)
  case (Suc f)
  then show ?case using assms [of "world s"] by (auto simp: glibc_def split: prod.splits)
qed simp

subsection \<open>Channel code touches the world and errno only\<close>

definition only_world :: "('w, 'x) proc_scheme \<Rightarrow> ('w, 'x) proc_scheme \<Rightarrow> bool" where
  "only_world s s' \<longleftrightarrow> s' = s\<lparr>errno := errno s', world := world s'\<rparr>"

lemma only_world_refl [simp, intro]: "only_world s s"
  by (simp add: only_world_def)

lemma only_world_trans [trans]: "only_world s t \<Longrightarrow> only_world t u \<Longrightarrow> only_world s u"
  by (cases s; cases t; cases u) (auto simp: only_world_def)

lemma only_world_glibc [intro]: "glibc f s = (r, s') \<Longrightarrow> only_world s s'"
  by (cases s) (auto simp: glibc_def only_world_def split: prod.splits)

lemma only_world_chan_send: "chan_send E ch req s = Inr s' \<Longrightarrow> only_world s s'"
  by (auto simp: chan_send_def Let_def bindr_eq_Inr split: prod.splits)

lemma only_world_while_eintr: "while_eintr E ch n s = Inr (r, s') \<Longrightarrow> only_world s s'"
proof (induction E ch n s rule: while_eintr.induct)
  case (2 E ch n s)
  then show ?case
    by (auto split: prod.splits if_splits intro: only_world_trans)
qed simp

lemma only_world_chan_recv_loop: "chan_recv_loop E ch n s = Inr (r, s') \<Longrightarrow> only_world s s'"
proof (induction E ch n s rule: chan_recv_loop.induct)
  case (2 E ch n s)
  then show ?case
    by (auto simp: bindr_eq_Inr split: prod.splits if_splits
        dest!: only_world_while_eintr intro: only_world_trans)
qed simp

lemma only_world_transact: "transact E ch req s = Inr (r, s') \<Longrightarrow> only_world s s'"
  by (auto simp: transact_def chan_recv_def bindr_eq_Inr
      dest!: only_world_chan_send only_world_chan_recv_loop intro: only_world_trans)

lemma only_world_open_chan: "open_chan E s = Inr (r, s') \<Longrightarrow> only_world s s'"
  by (auto simp: open_chan_def split: prod.splits if_splits intro: only_world_trans)

subsection \<open>A scripted peer\<close>

text \<open>
  An environment whose world is the list of results its reads will give, every other call
  failing: the concrete instance at which the statements about channels are evaluated.
\<close>

definition script_env :: "nat \<Rightarrow> (byte list \<Rightarrow> Response option) \<Rightarrow> io list env" where
  "script_env fuel unpack =
     \<lparr>g_socket = (\<lambda>_ _ _ w. (-1, 0, w)), g_connect = (\<lambda>_ _ _ w. (-1, 0, w)),
      g_close = (\<lambda>_ w. (0, 0, w)),
      g_read = (\<lambda>_ _ _ w. case w of [] \<Rightarrow> (io_plain (-1), 5, []) | r # rs \<Rightarrow> (r, 0, rs)),
      g_write = (\<lambda>_ _ n w. (int n, 0, w)),
      g_send = (\<lambda>_ _ _ _ w. (-1, 0, w)), g_sendto = (\<lambda>_ _ _ _ _ _ w. (-1, 0, w)),
      g_recv = (\<lambda>_ _ _ _ w. (io_plain (-1), 0, w)),
      g_recvfrom = (\<lambda>_ _ _ _ _ _ w. (io_plain (-1), 0, w)),
      g_poll = (\<lambda>fds _ w. ((-1, fds), 0, w)),
      g_select = (\<lambda>_ r wr ex _ w. ((-1, r, wr, ex), 0, w)),
      g_getpeername = (\<lambda>_ _ _ w. (io_plain (-1), 0, w)),
      g_getsockname = (\<lambda>_ _ _ w. (io_plain (-1), 0, w)),
      g_getsockopt = (\<lambda>_ _ _ _ _ w. (io_plain (-1), 0, w)),
      g_setsockopt = (\<lambda>_ _ _ _ _ w. (-1, 0, w)), g_fcntl = (\<lambda>_ _ _ w. (-1, 0, w)),
      request__get_packed_size = (\<lambda>_. 1), request__pack = (\<lambda>_. [0]),
      response__unpack = unpack, recv_fuel = fuel\<rparr>"

text \<open>Codec of the examples: the first byte of a message is its return code.\<close>

definition toy_unpack :: "byte list \<Rightarrow> Response option" where
  "toy_unpack bs = (case bs of [] \<Rightarrow> None | b # _ \<Rightarrow>
     Some \<lparr>retcode = Some (if b = 2 then RC_WAIT_NEXT else RC_OK),
           returning = RetConnect \<lparr>ret = 0, errno' = None\<rparr>\<rparr>)"

subsection \<open>Properties\<close>

text \<open>(C30) A blocking call returns with the daemon's final answer: whatever the reads before it gave
  - interrupted reads and any number of \<open>WAIT_NEXT\<close> responses - \<open>chan_recv\<close> skips
  them, consumes exactly one more message and returns it, provided the fuel covers the number of
  reads.\<close>

theorem chan_recv_returns_final:
  assumes "reads E ch (Suc (length outs)) s = (outs @ [fin], s')"
    and "list_all (keeps_waiting E) outs"
    and "message E fin = Some resp" and "retcode resp \<noteq> Some RC_WAIT_NEXT"
    and "Suc (length outs) \<le> recv_fuel E"
  shows "chan_recv E ch s = Inr (resp, s')"
  unfolding chan_recv_def by (rule chan_recv_loop_final [OF assms assms(5)])

theorem chan_recv_returns_final_witness:
  "chan_recv (script_env 3 toy_unpack) 7
     \<lparr>getpid = 1, errno = 0,
      world = [io_plain (-1), (io_plain 1)\<lparr>io_buf := [2]\<rparr>, (io_plain 1)\<lparr>io_buf := [0]\<rparr>]\<rparr> =
   Inr (\<lparr>retcode = Some RC_OK, returning = RetConnect \<lparr>ret = 0, errno' = None\<rparr>\<rparr>,
        \<lparr>getpid = 1, errno = 0, world = []\<rparr>)"
  by (rule chan_recv_returns_final [where outs = "[io_plain (-1), (io_plain 1)\<lparr>io_buf := [2]\<rparr>]"
        and fin = "(io_plain 1)\<lparr>io_buf := [0]\<rparr>"])
    (simp_all add: script_env_def toy_unpack_def glibc_def io_plain_def keeps_waiting_def message_def)

text \<open>The retry macro does not tell EINTR from other errors: when every read of the channel
  fails (the daemon is gone, ECONNRESET or EBADF), \<open>chan_recv\<close> never returns, whatever
  number of reads it is given.\<close>

theorem chan_recv_never_returns_on_error:
  assumes "\<And>w. io_ret (fst (g_read E ch (Some RPC_MESSAGE_MAX_SIZE) RPC_MESSAGE_MAX_SIZE w)) = -1"
  shows "chan_recv (E\<lparr>recv_fuel := f\<rparr>) ch s = Inl NoReturn"
proof -
  have "while_eintr (E\<lparr>recv_fuel := f\<rparr>) ch n s = Inl NoReturn" for n
    by (rule while_eintr_stuck) (simp add: assms)
  then show ?thesis unfolding chan_recv_def by (cases f) (simp_all del: while_eintr.simps)
qed

theorem chan_recv_never_returns_on_error_witness:
  "chan_recv ((script_env 0 toy_unpack)\<lparr>g_read := (\<lambda>_ _ _ w. (io_plain (-1), 104, w)), recv_fuel := 1000\<rparr>)
     7 \<lparr>getpid = 1, errno = 0, world = []\<rparr> = Inl NoReturn"
  using chan_recv_never_returns_on_error
    [of "(script_env 0 toy_unpack)\<lparr>g_read := (\<lambda>_ _ _ w. (io_plain (-1), 104, w))\<rparr>" 7 1000
        "\<lparr>getpid = 1, errno = 0, world = []\<rparr>"]
  by (simp add: io_plain_def)

end
