(* ===== verification/Fd_Table.thy ===== *)
theory Fd_Table
  imports Rr_Channel
begin

section \<open>Velox file descriptors (src/interceptor/fdpool.c, fdchanmap.c)\<close>

text \<open>
  At startup the interceptor asks the daemon for a range of descriptor numbers and allocates a
  table with one channel per number. \<open>next_avail_fd\<close> hands the numbers out in order,
  \<open>fd_chanmap\<close> and its setters index the table by the offset of the descriptor. The globals
  of both files are the fields of \<open>iproc\<close>, an extension of the process record. An index
  outside the allocated table is the fault \<open>OutOfBounds\<close>.

  The locale \<open>chan_map\<close> is the interface the intercepted calls rely on; it is interpreted
  on the table below.
\<close>

record 'w iproc = "'w proc" +
  program_invocation_short_name :: string
  g_startfd :: int
  g_fd_count :: int
  last_fd_assigned :: int
  g_chan_table :: "int list"
  g_proc_chan :: int

subsection \<open>The pool (fdpool.c)\<close>

definition is_assigned_by_velox :: "('w, 'x) iproc_scheme \<Rightarrow> int \<Rightarrow> bool" where
  "is_assigned_by_velox s fd \<longleftrightarrow> fd \<ge> g_startfd s \<and> fd < g_startfd s + g_fd_count s"

definition next_avail_fd :: "('w, 'x) iproc_scheme \<Rightarrow> (int \<times> ('w, 'x) iproc_scheme) res" where
  "next_avail_fd s =
     bindr (assertr (last_fd_assigned s < g_startfd s + g_fd_count s - 1)) (\<lambda>_.
     Inr (last_fd_assigned s + 1, s\<lparr>last_fd_assigned := last_fd_assigned s + 1\<rparr>))"

text \<open>\<open>malloc\<close> is unchecked: when it fails, \<open>memset\<close> writes through NULL.\<close>

definition reserve_fd_range :: "bool \<Rightarrow> ('w, 'x) iproc_scheme \<Rightarrow> ('w, 'x) iproc_scheme res" where
  "reserve_fd_range malloc_ok s =
     (if malloc_ok \<and> 0 \<le> g_fd_count s
      then Inr (s\<lparr>g_chan_table := replicate (nat (g_fd_count s)) 0\<rparr>)
      else Inl NullDeref)"

definition ask_veloxd_fd_range :: "'w env \<Rightarrow> bool \<Rightarrow> ('w, 'x) iproc_scheme \<Rightarrow>
    ('w, 'x) iproc_scheme res" where
  "ask_veloxd_fd_range E malloc_ok s =
     bindr (transact E (g_proc_chan s)
        \<lparr>req_pid = getpid s, req_calling = ActionAtstart (program_invocation_short_name s)\<rparr> s)
       (\<lambda>(resp, s1).
     bindr (case returning resp of
          RetAtstart startfd count \<Rightarrow> Inr (startfd, case count of None \<Rightarrow> 0 | Some c \<Rightarrow> c)
        | _ \<Rightarrow> Inl NullDeref) (\<lambda>(startfd, count).
     let s2 = s1\<lparr>g_startfd := startfd, g_fd_count := count, last_fd_assigned := startfd - 1\<rparr> in
     bindr (assertr (g_startfd s2 \<noteq> 0)) (\<lambda>_.
     bindr (assertr (g_fd_count s2 \<noteq> 0)) (\<lambda>_.
     reserve_fd_range malloc_ok s2))))"

subsection \<open>The table (fdchanmap.c)\<close>

definition slot :: "('w, 'x) iproc_scheme \<Rightarrow> int \<Rightarrow> nat res" where
  "slot s fd =
     (let i = fd - g_startfd s in
      if 0 \<le> i \<and> nat i < length (g_chan_table s) then Inr (nat i) else Inl OutOfBounds)"

definition fd_chanmap :: "('w, 'x) iproc_scheme \<Rightarrow> int \<Rightarrow> int res" where
  "fd_chanmap s fd = bindr (slot s fd) (\<lambda>i. Inr (g_chan_table s ! i))"

definition set_fd_chanmap :: "int \<Rightarrow> int \<Rightarrow> ('w, 'x) iproc_scheme \<Rightarrow> ('w, 'x) iproc_scheme res" where
  "set_fd_chanmap fd ch s =
     bindr (slot s fd) (\<lambda>i. Inr (s\<lparr>g_chan_table := (g_chan_table s)[i := ch]\<rparr>))"

definition unset_fd_chanmap :: "int \<Rightarrow> int \<Rightarrow> ('w, 'x) iproc_scheme \<Rightarrow> ('w, 'x) iproc_scheme res" where
  "unset_fd_chanmap fd ch s =
     bindr (slot s fd) (\<lambda>i. Inr (s\<lparr>g_chan_table := (g_chan_table s)[i := 0]\<rparr>))"

definition get_proc_chan :: "('w, 'x) iproc_scheme \<Rightarrow> int" where
  "get_proc_chan s = g_proc_chan s"

definition chanmap_init :: "'w env \<Rightarrow> bool \<Rightarrow> ('w, 'x) iproc_scheme \<Rightarrow> ('w, 'x) iproc_scheme res" where
  "chanmap_init E malloc_ok s =
     bindr (open_chan E s) (\<lambda>(ch, s1).
     ask_veloxd_fd_range E malloc_ok (s1\<lparr>g_proc_chan := ch\<rparr>))"

subsection \<open>The invariant\<close>

definition fd_wf :: "('w, 'x) iproc_scheme \<Rightarrow> bool" where
  "fd_wf s \<longleftrightarrow> length (g_chan_table s) = nat (g_fd_count s) \<and> 0 < g_fd_count s \<and>
     g_startfd s - 1 \<le> last_fd_assigned s \<and>
     last_fd_assigned s < g_startfd s + g_fd_count s"

text \<open>The invariant and the table look at the pool fields only.\<close>

lemma fd_frame [simp]:
  "fd_wf (s\<lparr>errno := e\<rparr>) = fd_wf s" "fd_wf (s\<lparr>world := w\<rparr>) = fd_wf s"
  "is_assigned_by_velox (s\<lparr>errno := e\<rparr>) = is_assigned_by_velox s"
  "is_assigned_by_velox (s\<lparr>world := w\<rparr>) = is_assigned_by_velox s"
  "fd_chanmap (s\<lparr>errno := e\<rparr>) = fd_chanmap s" "fd_chanmap (s\<lparr>world := w\<rparr>) = fd_chanmap s"
  by (simp_all add: fd_wf_def is_assigned_by_velox_def fd_chanmap_def slot_def fun_eq_iff)

lemma slot_in_range:
  "fd_wf s \<Longrightarrow> is_assigned_by_velox s fd \<Longrightarrow> slot s fd = Inr (nat (fd - g_startfd s))"
  by (auto simp: fd_wf_def is_assigned_by_velox_def slot_def)

lemma slot_eq_Inr_iff:
  "fd_wf s \<Longrightarrow> (\<exists>i. slot s fd = Inr i) \<longleftrightarrow> is_assigned_by_velox s fd"
  by (auto simp: fd_wf_def is_assigned_by_velox_def slot_def Let_def split: if_splits)

lemma slot_out_of_range:
  "fd_wf s \<Longrightarrow> \<not> is_assigned_by_velox s fd \<Longrightarrow> slot s fd = Inl OutOfBounds"
  by (auto simp: fd_wf_def is_assigned_by_velox_def slot_def)

lemma next_avail_fd_Inr_iff:
  "next_avail_fd s = Inr (fd, s') \<longleftrightarrow>
     last_fd_assigned s < g_startfd s + g_fd_count s - 1 \<and> fd = last_fd_assigned s + 1 \<and>
     s' = s\<lparr>last_fd_assigned := fd\<rparr>"
  by (auto simp: next_avail_fd_def assertr_def)

lemma next_avail_fd_wf: "fd_wf s \<Longrightarrow> next_avail_fd s = Inr (fd, s') \<Longrightarrow> fd_wf s'"
  by (auto simp: next_avail_fd_Inr_iff fd_wf_def)

lemma next_avail_fd_assigned:
  "fd_wf s \<Longrightarrow> next_avail_fd s = Inr (fd, s') \<Longrightarrow> is_assigned_by_velox s' fd"
  by (auto simp: next_avail_fd_Inr_iff fd_wf_def is_assigned_by_velox_def)

lemma set_fd_chanmap_eq:
  "fd_wf s \<Longrightarrow> is_assigned_by_velox s fd \<Longrightarrow> set_fd_chanmap fd ch s =
     Inr (s\<lparr>g_chan_table := (g_chan_table s)[nat (fd - g_startfd s) := ch]\<rparr>)"
  by (simp add: set_fd_chanmap_def slot_in_range)

lemma unset_fd_chanmap_eq:
  "fd_wf s \<Longrightarrow> is_assigned_by_velox s fd \<Longrightarrow> unset_fd_chanmap fd ch s =
     Inr (s\<lparr>g_chan_table := (g_chan_table s)[nat (fd - g_startfd s) := 0]\<rparr>)"
  by (simp add: unset_fd_chanmap_def slot_in_range)

lemma fd_chanmap_eq:
  "fd_wf s \<Longrightarrow> is_assigned_by_velox s fd \<Longrightarrow>
     fd_chanmap s fd = Inr (g_chan_table s ! nat (fd - g_startfd s))"
  by (simp add: fd_chanmap_def slot_in_range)

lemma table_update_frame:
  "fd_wf (s\<lparr>g_chan_table := (g_chan_table s)[i := ch]\<rparr>) = fd_wf s"
  "is_assigned_by_velox (s\<lparr>g_chan_table := t\<rparr>) = is_assigned_by_velox s"
  by (simp_all add: fd_wf_def is_assigned_by_velox_def fun_eq_iff)

lemma fd_chanmap_update:
  assumes "fd_wf s" "is_assigned_by_velox s fd" "is_assigned_by_velox s j"
  shows "fd_chanmap (s\<lparr>g_chan_table := (g_chan_table s)[nat (fd - g_startfd s) := ch]\<rparr>) j =
     (if j = fd then Inr ch else fd_chanmap s j)"
  using assms
  by (auto simp: fd_chanmap_def slot_def fd_wf_def is_assigned_by_velox_def nth_list_update Let_def)

subsection \<open>The interface of the table\<close>

text \<open>
  What the intercepted calls assume of the map from descriptors to channels: inside the range
  every operation succeeds and keeps the invariant, a lookup sees the last store to the same
  descriptor and no store to another one.
\<close>

locale chan_map =
  fixes valid :: "'s \<Rightarrow> bool"
    and has :: "'s \<Rightarrow> 'k \<Rightarrow> bool"
    and lookup :: "'s \<Rightarrow> 'k \<Rightarrow> 'v res"
    and put :: "'k \<Rightarrow> 'v \<Rightarrow> 's \<Rightarrow> 's res"
    and clear :: "'k \<Rightarrow> 'v \<Rightarrow> 's \<Rightarrow> 's res"
    and blank :: 'v
  assumes lookup_ok: "valid s \<Longrightarrow> has s k \<Longrightarrow> \<exists>v. lookup s k = Inr v"
    and put_ok: "valid s \<Longrightarrow> has s k \<Longrightarrow> \<exists>s'. put k v s = Inr s'"
    and put_keeps: "valid s \<Longrightarrow> put k v s = Inr s' \<Longrightarrow> valid s' \<and> has s' = has s"
    and lookup_put: "valid s \<Longrightarrow> put k v s = Inr s' \<Longrightarrow> has s j \<Longrightarrow>
       lookup s' j = (if j = k then Inr v else lookup s j)"
    and clear_put: "clear k v s = put k blank s"
begin

text \<open>Clients with different descriptors do not see each other.\<close>

lemma other_put: "valid s \<Longrightarrow> put k v s = Inr s' \<Longrightarrow> has s j \<Longrightarrow> j \<noteq> k \<Longrightarrow> lookup s' j = lookup s j"
  by (simp add: lookup_put)

lemma other_clear:
  "valid s \<Longrightarrow> clear k v s = Inr s' \<Longrightarrow> has s j \<Longrightarrow> j \<noteq> k \<Longrightarrow> lookup s' j = lookup s j"
  by (simp add: clear_put lookup_put)

lemma put_then_other_clear:
  assumes "valid s" "has s k" "put k v s = Inr s1" "clear j u s1 = Inr s2" "j \<noteq> k"
  shows "valid s2 \<and> lookup s2 k = Inr v"
proof -
  have "valid s1" "has s1 = has s" using put_keeps assms by blast+
  then show ?thesis
    using assms put_keeps [of s1 j blank s2] other_clear [of s1 j u s2 k] lookup_put [of s k v s1 k]
    by (simp add: clear_put)
qed

lemma cleared: "valid s \<Longrightarrow> has s k \<Longrightarrow> clear k v s = Inr s' \<Longrightarrow> lookup s' k = Inr blank"
  by (simp add: clear_put lookup_put)

lemma clear_ok: "valid s \<Longrightarrow> has s k \<Longrightarrow> \<exists>s'. clear k v s = Inr s' \<and> valid s' \<and> has s' = has s"
  using put_ok [of s k blank] put_keeps [of s k blank] by (auto simp: clear_put)

end

interpretation fdmap: chan_map fd_wf is_assigned_by_velox fd_chanmap set_fd_chanmap
  unset_fd_chanmap 0
proof
  fix s s' :: "('w, 'x) iproc_scheme" and fd j ch :: int
  assume wf: "fd_wf s"
  show "\<exists>v. fd_chanmap s fd = Inr v" if "is_assigned_by_velox s fd"
    using wf that by (simp add: fd_chanmap_eq)
  show "\<exists>s'. set_fd_chanmap fd ch s = Inr s'" if "is_assigned_by_velox s fd"
    using wf that by (simp add: set_fd_chanmap_eq)
  assume put: "set_fd_chanmap fd ch s = Inr s'"
  then have "\<exists>i. slot s fd = Inr i" by (auto simp: set_fd_chanmap_def bindr_eq_Inr)
  then have fd: "is_assigned_by_velox s fd" using wf by (simp add: slot_eq_Inr_iff)
  then have s': "s' = s\<lparr>g_chan_table := (g_chan_table s)[nat (fd - g_startfd s) := ch]\<rparr>"
    using put wf by (simp add: set_fd_chanmap_eq)
  show "fd_wf s' \<and> is_assigned_by_velox s' = is_assigned_by_velox s"
    using wf by (simp add: s' table_update_frame)
  show "fd_chanmap s' j = (if j = fd then Inr ch else fd_chanmap s j)"
    if "is_assigned_by_velox s j"
    unfolding s' by (rule fd_chanmap_update [OF wf fd that])
next
  fix s :: "('w, 'x) iproc_scheme" and fd ch :: int
  show "unset_fd_chanmap fd ch s = set_fd_chanmap fd 0 s"
    by (simp add: unset_fd_chanmap_def set_fd_chanmap_def)
qed

subsection \<open>Properties\<close>

text \<open>A process of the examples: the range 4096 to 4099, nothing handed out yet.\<close>

definition proc0 :: "'w \<Rightarrow> 'w iproc" where
  "proc0 w = \<lparr>getpid = 1, errno = 0, world = w, program_invocation_short_name = ''curl'',
     g_startfd = 4096, g_fd_count = 4, last_fd_assigned = 4095,
     g_chan_table = [0, 0, 0, 0], g_proc_chan = 3\<rparr>"

lemma fd_wf_proc0: "fd_wf (proc0 w)"
  by (simp add: fd_wf_def proc0_def)

text \<open>Startup establishes the invariant: when the daemon answers \<open>AtStart\<close> with a nonzero
  start and a positive count, the process afterwards owns exactly that range, has handed nothing
  out, and every descriptor of the range maps to the empty channel.\<close>

theorem ask_veloxd_fd_range_establishes:
  assumes "transact E (g_proc_chan s)
      \<lparr>req_pid = getpid s, req_calling = ActionAtstart (program_invocation_short_name s)\<rparr> s =
      Inr (resp, s1)"
    and "returning resp = RetAtstart start (Some count)" and "start \<noteq> 0" and "0 < count"
  shows "\<exists>s'. ask_veloxd_fd_range E True s = Inr s' \<and> fd_wf s' \<and>
     last_fd_assigned s' = start - 1 \<and>
     (\<forall>fd. is_assigned_by_velox s' fd = (start \<le> fd \<and> fd < start + count)) \<and>
     (\<forall>fd. fd_chanmap s' fd = (if start \<le> fd \<and> fd < start + count then Inr 0 else Inl OutOfBounds))"
  using assms
  by (auto simp: ask_veloxd_fd_range_def reserve_fd_range_def fd_wf_def is_assigned_by_velox_def
      fd_chanmap_def slot_def Let_def)

definition atstart_unpack :: "byte list \<Rightarrow> Response option" where
  "atstart_unpack bs = Some \<lparr>retcode = Some RC_OK, returning = RetAtstart 4096 (Some 1024)\<rparr>"

theorem ask_veloxd_fd_range_establishes_witness:
  "\<exists>s'. ask_veloxd_fd_range (script_env 1 atstart_unpack) True (proc0 [(io_plain 1)\<lparr>io_buf := [0]\<rparr>]) = Inr s' \<and>
     fd_wf s' \<and> is_assigned_by_velox s' 5119 \<and> \<not> is_assigned_by_velox s' 5120"
proof -
  let ?s = "proc0 [(io_plain 1)\<lparr>io_buf := [0]\<rparr>] :: io list iproc"
  have "transact (script_env 1 atstart_unpack) (g_proc_chan ?s)
      \<lparr>req_pid = getpid ?s, req_calling = ActionAtstart (program_invocation_short_name ?s)\<rparr> ?s =
      Inr (\<lparr>retcode = Some RC_OK, returning = RetAtstart 4096 (Some 1024)\<rparr>, ?s\<lparr>world := []\<rparr>)"
    by (simp add: transact_def chan_send_def chan_recv_def script_env_def proc0_def glibc_def
        io_plain_def atstart_unpack_def RPC_MESSAGE_MAX_SIZE_def)
  from ask_veloxd_fd_range_establishes [OF this, of 4096 1024] show ?thesis by auto
qed

text \<open>Sockets do not interfere through the table: after \<open>set_fd_chanmap\<close> has bound a
  descriptor to its channel, clearing any other descriptor of the range leaves the binding as it
  is and keeps the invariant.\<close>

theorem fd_chanmap_isolated:
  assumes "fd_wf s" and "is_assigned_by_velox s fd" and "is_assigned_by_velox s other"
    and "other \<noteq> fd"
  shows "\<exists>s1 s2. set_fd_chanmap fd ch s = Inr s1 \<and> unset_fd_chanmap other u s1 = Inr s2 \<and>
     fd_wf s2 \<and> fd_chanmap s2 fd = Inr ch \<and> fd_chanmap s2 other = Inr 0"
proof -
  obtain s1 where s1: "set_fd_chanmap fd ch s = Inr s1"
    using fdmap.put_ok assms(1,2) by blast
  then have keep: "fd_wf s1" "is_assigned_by_velox s1 = is_assigned_by_velox s"
    using fdmap.put_keeps assms(1) by blast+
  then obtain s2 where s2: "unset_fd_chanmap other u s1 = Inr s2"
    using fdmap.clear_ok [of s1 other u] assms(3) by auto
  show ?thesis
    using s1 s2 fdmap.put_then_other_clear [OF assms(1,2) s1 s2 assms(4)]
      fdmap.cleared [OF keep(1) _ s2] keep(2) assms(3) by auto
qed

theorem fd_chanmap_isolated_witness:
  "\<exists>s1 s2. set_fd_chanmap 4096 9 (proc0 ()) = Inr s1 \<and> unset_fd_chanmap 4097 8 s1 = Inr s2 \<and>
     fd_wf s2 \<and> fd_chanmap s2 4096 = Inr 9 \<and> fd_chanmap s2 4097 = Inr 0"
  by (rule fd_chanmap_isolated [OF fd_wf_proc0]) (simp_all add: is_assigned_by_velox_def proc0_def)

end
