(* ===== verification/Interceptor.thy ===== *)
theory Interceptor
  imports Fd_Table
begin

unbundle bit_operations_syntax

section \<open>The intercepted socket calls (src/interceptor/interceptor.c)\<close>

text \<open>
  One definition per overridden libc function. A descriptor outside the Velox range goes to
  glibc unchanged; one inside it becomes a transaction with the daemon over the descriptor's
  channel. \<open>run_call\<close> collects the calls in one datatype, so that statements about all of
  them and about whole programs (\<open>run_calls\<close>) can be made. The readiness calls
  \<open>poll\<close> and \<open>select\<close> are in the theory Readiness. What \<open>socket\<close> prints for information, also when it passes a call on, is left out.
\<close>

subsection \<open>Constants of the system headers\<close>

definition SOCK_STREAM :: int where "SOCK_STREAM = 1"

definition SOCK_DGRAM :: int where "SOCK_DGRAM = 2"

definition EINVAL :: int where "EINVAL = 22"

definition ENOPROTOOPT :: int where "ENOPROTOOPT = 92"

subsection \<open>Helpers\<close>

text \<open>Reading \<open>n\<close> bytes of caller memory, writing \<open>bs\<close> to an object of the given size.\<close>

definition mem_read :: "byte list option \<Rightarrow> nat \<Rightarrow> byte list res" where
  "mem_read p n = bindr (derefr p) (\<lambda>b. if length b < n then Inl OutOfBounds else Inr (take n b))"

definition mem_write :: "nat option \<Rightarrow> byte list \<Rightarrow> unit res" where
  "mem_write p bs =
     (if bs = [] then Inr ()
      else bindr (derefr p) (\<lambda>sz. if sz < length bs then Inl OutOfBounds else Inr ()))"

text \<open>\<open>size_t\<close> stored in an \<open>int32_t\<close> field.\<close>

definition int32_of_nat :: "nat \<Rightarrow> int" where
  "int32_of_nat n = sint (of_nat n :: u32)"

text \<open>The macro \<open>INTERCEPTOR_RETURN__RET_AND_ERRNO\<close>.\<close>

definition ret_and_errno :: "'c call_ret_scheme \<Rightarrow> ('w, 'x) iproc_scheme \<Rightarrow>
    (int \<times> ('w, 'x) iproc_scheme) res" where
  "ret_and_errno c s =
     (if ret c \<noteq> -1 then Inr (ret c, s)
      else (case errno' c of None \<Rightarrow> Inl AssertFailed | Some e \<Rightarrow> Inr (-1, s\<lparr>errno := e\<rparr>)))"

definition request :: "('w, 'x) iproc_scheme \<Rightarrow> calling \<Rightarrow> Request" where
  "request s c = \<lparr>req_pid = getpid s, req_calling = c\<rparr>"

subsection \<open>Creation, connection, close\<close>

definition socket :: "'w env \<Rightarrow> int \<Rightarrow> int \<Rightarrow> int \<Rightarrow> ('w, 'x) iproc_scheme \<Rightarrow>
    (int \<times> ('w, 'x) iproc_scheme) res" where
  "socket E domain type protocol s =
     (if domain \<noteq> AF_INET then Inr (glibc (g_socket E domain type protocol) s)
      else if type AND SOCK_STREAM = 0 \<and> type AND SOCK_DGRAM = 0
      then Inr (glibc (g_socket E domain type protocol) s)
      else
        bindr (next_avail_fd s) (\<lambda>(connfd, s1).
        bindr (open_chan E s1) (\<lambda>(connCh, s2).
        bindr (set_fd_chanmap connfd connCh s2) (\<lambda>s3.
        bindr (transact E connCh (request s3 (CallSocket domain type protocol)) s3) (\<lambda>(resp, s4).
        case returning resp of
          RetSocket c \<Rightarrow>
            (if ret c \<noteq> -1 then Inr (connfd, s4)
             else (case errno' c of None \<Rightarrow> Inl AssertFailed
                   | Some e \<Rightarrow> Inr (-1, s4\<lparr>errno := e\<rparr>)))
        | _ \<Rightarrow> Inl AssertFailed)))))"

definition connect :: "'w env \<Rightarrow> int \<Rightarrow> byte list option \<Rightarrow> nat \<Rightarrow> ('w, 'x) iproc_scheme \<Rightarrow>
    (int \<times> ('w, 'x) iproc_scheme) res" where
  "connect E sockfd addr addrlen s =
     (if \<not> is_assigned_by_velox s sockfd then Inr (glibc (g_connect E sockfd addr addrlen) s)
      else
        bindr (assertr (addrlen = sockaddr_in_size)) (\<lambda>_.
        bindr (mem_read addr addrlen) (\<lambda>a.
        bindr (fd_chanmap s sockfd) (\<lambda>ch.
        bindr (transact E ch (request s (CallConnect a)) s) (\<lambda>(resp, s1).
        case returning resp of
          RetConnect c \<Rightarrow> ret_and_errno c s1
        | _ \<Rightarrow> Inl AssertFailed)))))"

text \<open>
  \<open>close\<close> ends with \<open>close_chan(ch)\<close>, which calls \<open>close\<close> again, now on the
  channel's descriptor. The first argument bounds that recursion.
\<close>

fun close :: "nat \<Rightarrow> 'w env \<Rightarrow> int \<Rightarrow> ('w, 'x) iproc_scheme \<Rightarrow>
    (int \<times> ('w, 'x) iproc_scheme) res"
  and close_chan :: "nat \<Rightarrow> 'w env \<Rightarrow> int \<Rightarrow> ('w, 'x) iproc_scheme \<Rightarrow>
    ('w, 'x) iproc_scheme res" where
  "close 0 E fd s = Inl NoReturn"
| "close (Suc n) E fd s =
     (if \<not> is_assigned_by_velox s fd then Inr (glibc (g_close E fd) s)
      else
        bindr (fd_chanmap s fd) (\<lambda>ch0.
        bindr (transact E ch0 (request s CallClose) s) (\<lambda>(resp, s1).
        case returning resp of
          RetClose c \<Rightarrow>
            bindr (fd_chanmap s1 fd) (\<lambda>ch.
            bindr (unset_fd_chanmap fd ch s1) (\<lambda>s2.
            bindr (close_chan n E ch s2) (\<lambda>s3. ret_and_errno c s3)))
        | _ \<Rightarrow> Inl AssertFailed)))"
| "close_chan n E ch s = bindr (close n E ch s) (\<lambda>(_, s1). Inr s1)"

subsection \<open>Reading and writing\<close>

definition sendto :: "'w env \<Rightarrow> int \<Rightarrow> byte list option \<Rightarrow> nat \<Rightarrow> int \<Rightarrow> byte list option \<Rightarrow> nat \<Rightarrow>
    ('w, 'x) iproc_scheme \<Rightarrow> (int \<times> ('w, 'x) iproc_scheme) res" where
  "sendto E sockfd buf len flags dest_addr addrlen s =
     (if \<not> is_assigned_by_velox s sockfd
      then Inr (glibc (g_sendto E sockfd buf len flags dest_addr addrlen) s)
      else if buf = None \<or> len = 0 then Inr (0, s)
      else
        bindr (if dest_addr = None then Inr None
               else bindr (assertr (addrlen = sockaddr_in_size)) (\<lambda>_.
                    bindr (mem_read dest_addr addrlen) (\<lambda>a. Inr (Some a)))) (\<lambda>addr.
        bindr (mem_read buf len) (\<lambda>b.
        bindr (fd_chanmap s sockfd) (\<lambda>ch.
        bindr (transact E ch (request s (CallSendto b flags addr)) s) (\<lambda>(resp, s1).
        case returning resp of
          RetSendto c \<Rightarrow> ret_and_errno c s1
        | _ \<Rightarrow> Inl AssertFailed)))))"

definition send :: "'w env \<Rightarrow> int \<Rightarrow> byte list option \<Rightarrow> nat \<Rightarrow> int \<Rightarrow>
    ('w, 'x) iproc_scheme \<Rightarrow> (int \<times> ('w, 'x) iproc_scheme) res" where
  "send E sockfd buf len flags s =
     (if \<not> is_assigned_by_velox s sockfd then Inr (glibc (g_send E sockfd buf len flags) s)
      else sendto E sockfd buf len flags None 0 s)"

definition fd_write :: "'w env \<Rightarrow> int \<Rightarrow> byte list option \<Rightarrow> nat \<Rightarrow>
    ('w, 'x) iproc_scheme \<Rightarrow> (int \<times> ('w, 'x) iproc_scheme) res" where
  "fd_write E fd buf count s =
     (if \<not> is_assigned_by_velox s fd then Inr (glibc (g_write E fd buf count) s)
      else sendto E fd buf count 0 None 0 s)"

definition recvfrom :: "'w env \<Rightarrow> int \<Rightarrow> nat option \<Rightarrow> nat \<Rightarrow> int \<Rightarrow> nat option \<Rightarrow> nat option \<Rightarrow>
    ('w, 'x) iproc_scheme \<Rightarrow> (io \<times> ('w, 'x) iproc_scheme) res" where
  "recvfrom E sockfd buf len flags src_addr addrlen s =
     (if \<not> is_assigned_by_velox s sockfd
      then Inr (glibc (g_recvfrom E sockfd buf len flags src_addr addrlen) s)
      else if buf = None \<or> len = 0 then Inr (io_plain 0, s)
      else
        bindr (fd_chanmap s sockfd) (\<lambda>ch.
        bindr (transact E ch
            (request s (CallRecvfrom (int32_of_nat len) flags (src_addr \<noteq> None))) s) (\<lambda>(resp, s1).
        case returning resp of
          RetRecvfrom c \<Rightarrow>
            (let data = (if ret c > 0 then (case buf' c of None \<Rightarrow> [] | Some b \<Rightarrow> b) else []) in
             bindr (mem_write buf data) (\<lambda>_.
             bindr (if src_addr \<noteq> None \<and> ret c > 0 \<and> addr' c \<noteq> None
                    then bindr (mem_read (addr' c) sockaddr_in_size) (\<lambda>a.
                         bindr (mem_write src_addr a) (\<lambda>_.
                         bindr (derefr addrlen) (\<lambda>_. Inr (a, Some sockaddr_in_size))))
                    else Inr ([], None)) (\<lambda>(a, al).
             bindr (ret_and_errno c s1) (\<lambda>(r, s2).
             Inr (\<lparr>io_ret = r, io_buf = data, io_addr = a, io_addrlen = al\<rparr>, s2)))))
        | _ \<Rightarrow> Inl AssertFailed)))"

definition recv :: "'w env \<Rightarrow> int \<Rightarrow> nat option \<Rightarrow> nat \<Rightarrow> int \<Rightarrow>
    ('w, 'x) iproc_scheme \<Rightarrow> (io \<times> ('w, 'x) iproc_scheme) res" where
  "recv E sockfd buf len flags s =
     (if \<not> is_assigned_by_velox s sockfd then Inr (glibc (g_recv E sockfd buf len flags) s)
      else recvfrom E sockfd buf len flags None None s)"

definition fd_read :: "'w env \<Rightarrow> int \<Rightarrow> nat option \<Rightarrow> nat \<Rightarrow>
    ('w, 'x) iproc_scheme \<Rightarrow> (io \<times> ('w, 'x) iproc_scheme) res" where
  "fd_read E fd buf count s =
     (if \<not> is_assigned_by_velox s fd then Inr (glibc (g_read E fd buf count) s)
      else recvfrom E fd buf count 0 None None s)"

subsection \<open>Names and options\<close>

definition getpeername :: "'w env \<Rightarrow> int \<Rightarrow> nat option \<Rightarrow> nat option \<Rightarrow>
    ('w, 'x) iproc_scheme \<Rightarrow> (io \<times> ('w, 'x) iproc_scheme) res" where
  "getpeername E sockfd addr addrlen s =
     (if \<not> is_assigned_by_velox s sockfd then Inr (glibc (g_getpeername E sockfd addr addrlen) s)
      else
        bindr (fd_chanmap s sockfd) (\<lambda>ch.
        bindr (transact E ch (request s CallGetpeername) s) (\<lambda>(resp, s1).
        case returning resp of
          RetGetpeername c \<Rightarrow>
            (let data = (case name' c of None \<Rightarrow> [] | Some b \<Rightarrow> b) in
             bindr (mem_write addr data) (\<lambda>_.
             bindr (derefr addrlen) (\<lambda>_.
             bindr (ret_and_errno c s1) (\<lambda>(r, s2).
             Inr (\<lparr>io_ret = r, io_buf = [], io_addr = data, io_addrlen = Some sockaddr_in_size\<rparr>, s2)))))
        | _ \<Rightarrow> Inl AssertFailed)))"

definition getsockname :: "'w env \<Rightarrow> int \<Rightarrow> nat option \<Rightarrow> nat option \<Rightarrow>
    ('w, 'x) iproc_scheme \<Rightarrow> (io \<times> ('w, 'x) iproc_scheme) res" where
  "getsockname E sockfd addr addrlen s =
     (if \<not> is_assigned_by_velox s sockfd then Inr (glibc (g_getsockname E sockfd addr addrlen) s)
      else
        bindr (fd_chanmap s sockfd) (\<lambda>ch.
        bindr (transact E ch (request s CallGetsockname) s) (\<lambda>(resp, s1).
        case returning resp of
          RetGetsockname c \<Rightarrow>
            (let data = (case name' c of None \<Rightarrow> [] | Some b \<Rightarrow> b) in
             bindr (mem_write addr data) (\<lambda>_.
             bindr (derefr addrlen) (\<lambda>_.
             bindr (ret_and_errno c s1) (\<lambda>(r, s2).
             Inr (\<lparr>io_ret = r, io_buf = [], io_addr = data, io_addrlen = Some sockaddr_in_size\<rparr>, s2)))))
        | _ \<Rightarrow> Inl AssertFailed)))"

definition setsockopt :: "'w env \<Rightarrow> int \<Rightarrow> int \<Rightarrow> int \<Rightarrow> byte list option \<Rightarrow> nat \<Rightarrow>
    ('w, 'x) iproc_scheme \<Rightarrow> (int \<times> ('w, 'x) iproc_scheme) res" where
  "setsockopt E sockfd level optname optval optlen s =
     (if \<not> is_assigned_by_velox s sockfd
      then Inr (glibc (g_setsockopt E sockfd level optname optval optlen) s)
      else Inr (0, s))"

text \<open>\<open>optlen\<close> holds the value the pointer points to; the stored option value is in
  \<open>io_buf\<close>, the stored length in \<open>io_addrlen\<close>.\<close>

definition getsockopt :: "'w env \<Rightarrow> int \<Rightarrow> int \<Rightarrow> int \<Rightarrow> nat option \<Rightarrow> nat option \<Rightarrow>
    ('w, 'x) iproc_scheme \<Rightarrow> (io \<times> ('w, 'x) iproc_scheme) res" where
  "getsockopt E sockfd level optname optval optlen s =
     (if \<not> is_assigned_by_velox s sockfd
      then Inr (glibc (g_getsockopt E sockfd level optname optval optlen) s)
      else if level = 1 \<and> optname = 4
      then (case (optval, optlen) of
              (Some _, Some n) \<Rightarrow>
                if 4 \<le> n
                then bindr (mem_write optval [0, 0, 0, 0]) (\<lambda>_.
                     Inr ((io_plain 0)\<lparr>io_buf := [0, 0, 0, 0], io_addrlen := Some 4\<rparr>, s))
                else Inr (io_plain 0, s)
            | _ \<Rightarrow> Inr (io_plain 0, s))
      else Inr (io_plain (-1), s\<lparr>errno := ENOPROTOOPT\<rparr>))"

definition fcntl :: "'w env \<Rightarrow> int \<Rightarrow> int \<Rightarrow> int \<Rightarrow>
    ('w, 'x) iproc_scheme \<Rightarrow> (int \<times> ('w, 'x) iproc_scheme) res" where
  "fcntl E fd cmd arg s =
     (if \<not> is_assigned_by_velox s fd then Inr (glibc (g_fcntl E fd cmd arg) s)
      else if cmd = 1 then Inr (0, s)
      else if cmd = 2 then Inr (0, s)
      else if cmd = 3 then Inr (2, s)
      else if cmd = 4 then Inr (0, s)
      else Inr (-1, s\<lparr>errno := EINVAL\<rparr>))"

subsection \<open>Startup\<close>

text \<open>The \<open>dlsym\<close> lookups of \<open>interceptor_init\<close> fill the glibc table, which is the
  environment here; what is left is \<open>chanmap_init\<close>. Then glibc's own startup runs the program.\<close>

definition interceptor_init :: "'w env \<Rightarrow> bool \<Rightarrow> ('w, 'x) iproc_scheme \<Rightarrow>
    ('w, 'x) iproc_scheme res" where
  "interceptor_init E malloc_ok s = chanmap_init E malloc_ok s"

definition libc_start_main :: "'w env \<Rightarrow> bool \<Rightarrow>
    (('w, 'x) iproc_scheme \<Rightarrow> (int \<times> ('w, 'x) iproc_scheme) res) \<Rightarrow>
    ('w, 'x) iproc_scheme \<Rightarrow> (int \<times> ('w, 'x) iproc_scheme) res" where
  "libc_start_main E malloc_ok glibc_start_main s =
     bindr (interceptor_init E malloc_ok s) glibc_start_main"

subsection \<open>All calls, and programs\<close>

datatype sockcall =
    Socket int int int
  | Connect int "byte list option" nat
  | Close int
  | Read int "nat option" nat
  | Write int "byte list option" nat
  | Send int "byte list option" nat int
  | Sendto int "byte list option" nat int "byte list option" nat
  | Recv int "nat option" nat int
  | Recvfrom int "nat option" nat int "nat option" "nat option"
  | Getpeername int "nat option" "nat option"
  | Getsockname int "nat option" "nat option"
  | Getsockopt int int int "nat option" "nat option"
  | Setsockopt int int int "byte list option" nat
  | Fcntl int int int

definition plain :: "(int \<times> 's) res \<Rightarrow> (io \<times> 's) res" where
  "plain m = bindr m (\<lambda>(r, s). Inr (io_plain r, s))"

fun run_call :: "nat \<Rightarrow> 'w env \<Rightarrow> sockcall \<Rightarrow> ('w, 'x) iproc_scheme \<Rightarrow>
    (io \<times> ('w, 'x) iproc_scheme) res" where
  "run_call n E (Socket d t p) s = plain (socket E d t p s)"
| "run_call n E (Connect fd a l) s = plain (connect E fd a l s)"
| "run_call n E (Close fd) s = plain (close n E fd s)"
| "run_call n E (Read fd b c) s = fd_read E fd b c s"
| "run_call n E (Write fd b c) s = plain (fd_write E fd b c s)"
| "run_call n E (Send fd b l f) s = plain (send E fd b l f s)"
| "run_call n E (Sendto fd b l f a al) s = plain (sendto E fd b l f a al s)"
| "run_call n E (Recv fd b l f) s = recv E fd b l f s"
| "run_call n E (Recvfrom fd b l f a al) s = recvfrom E fd b l f a al s"
| "run_call n E (Getpeername fd a al) s = getpeername E fd a al s"
| "run_call n E (Getsockname fd a al) s = getsockname E fd a al s"
| "run_call n E (Getsockopt fd l m v k) s = getsockopt E fd l m v k s"
| "run_call n E (Setsockopt fd l m v k) s = plain (setsockopt E fd l m v k s)"
| "run_call n E (Fcntl fd c a) s = plain (fcntl E fd c a s)"

text \<open>What the same call does when the library is not preloaded.\<close>

fun glibc_call :: "'w env \<Rightarrow> sockcall \<Rightarrow> ('w, 'x) iproc_scheme \<Rightarrow>
    (io \<times> ('w, 'x) iproc_scheme) res" where
  "glibc_call E (Socket d t p) s = plain (Inr (glibc (g_socket E d t p) s))"
| "glibc_call E (Connect fd a l) s = plain (Inr (glibc (g_connect E fd a l) s))"
| "glibc_call E (Close fd) s = plain (Inr (glibc (g_close E fd) s))"
| "glibc_call E (Read fd b c) s = Inr (glibc (g_read E fd b c) s)"
| "glibc_call E (Write fd b c) s = plain (Inr (glibc (g_write E fd b c) s))"
| "glibc_call E (Send fd b l f) s = plain (Inr (glibc (g_send E fd b l f) s))"
| "glibc_call E (Sendto fd b l f a al) s = plain (Inr (glibc (g_sendto E fd b l f a al) s))"
| "glibc_call E (Recv fd b l f) s = Inr (glibc (g_recv E fd b l f) s)"
| "glibc_call E (Recvfrom fd b l f a al) s = Inr (glibc (g_recvfrom E fd b l f a al) s)"
| "glibc_call E (Getpeername fd a al) s = Inr (glibc (g_getpeername E fd a al) s)"
| "glibc_call E (Getsockname fd a al) s = Inr (glibc (g_getsockname E fd a al) s)"
| "glibc_call E (Getsockopt fd l m v k) s = Inr (glibc (g_getsockopt E fd l m v k) s)"
| "glibc_call E (Setsockopt fd l m v k) s = plain (Inr (glibc (g_setsockopt E fd l m v k) s))"
| "glibc_call E (Fcntl fd c a) s = plain (Inr (glibc (g_fcntl E fd c a) s))"

fun run_calls :: "nat \<Rightarrow> 'w env \<Rightarrow> sockcall list \<Rightarrow> ('w, 'x) iproc_scheme \<Rightarrow>
    (io list \<times> ('w, 'x) iproc_scheme) res" where
  "run_calls n E [] s = Inr ([], s)"
| "run_calls n E (c # cs) s =
     bindr (run_call n E c s) (\<lambda>(r, s1).
     bindr (run_calls n E cs s1) (\<lambda>(rs, s2). Inr (r # rs, s2)))"

text \<open>Whether a call is an intercepted \<open>socket\<close>, and the descriptors those calls returned.\<close>

fun opens_velox :: "sockcall \<Rightarrow> bool" where
  "opens_velox (Socket d t p) \<longleftrightarrow>
     d = AF_INET \<and> \<not> (t AND SOCK_STREAM = 0 \<and> t AND SOCK_DGRAM = 0)"
| "opens_velox _ \<longleftrightarrow> False"

definition velox_fds :: "sockcall list \<Rightarrow> io list \<Rightarrow> int list" where
  "velox_fds cs rs = map (\<lambda>(c, r). io_ret r)
     (filter (\<lambda>(c, r). opens_velox c \<and> io_ret r \<noteq> -1) (zip cs rs))"

text \<open>The descriptor a call is about.\<close>

fun call_fd :: "sockcall \<Rightarrow> int option" where
  "call_fd (Socket d t p) = None"
| "call_fd (Connect fd a l) = Some fd"
| "call_fd (Close fd) = Some fd"
| "call_fd (Read fd b c) = Some fd"
| "call_fd (Write fd b c) = Some fd"
| "call_fd (Send fd b l f) = Some fd"
| "call_fd (Sendto fd b l f a al) = Some fd"
| "call_fd (Recv fd b l f) = Some fd"
| "call_fd (Recvfrom fd b l f a al) = Some fd"
| "call_fd (Getpeername fd a al) = Some fd"
| "call_fd (Getsockname fd a al) = Some fd"
| "call_fd (Getsockopt fd l m v k) = Some fd"
| "call_fd (Setsockopt fd l m v k) = Some fd"
| "call_fd (Fcntl fd c a) = Some fd"

lemmas call_defs = connect_def sendto_def send_def fd_write_def recvfrom_def recv_def fd_read_def
  getpeername_def getsockname_def setsockopt_def getsockopt_def fcntl_def

subsection \<open>What calls keep\<close>

text \<open>The calls accept one kind of response and assert that they got it.\<close>

lemma returning_Inr [fault_simps]:
  "(case r of RetSocket c \<Rightarrow> f c | _ \<Rightarrow> Inl e) = Inr y \<longleftrightarrow> (\<exists>c. r = RetSocket c \<and> f c = Inr y)"
  "(case r of RetConnect c \<Rightarrow> f c | _ \<Rightarrow> Inl e) = Inr y \<longleftrightarrow> (\<exists>c. r = RetConnect c \<and> f c = Inr y)"
  "(case r of RetClose c \<Rightarrow> f c | _ \<Rightarrow> Inl e) = Inr y \<longleftrightarrow> (\<exists>c. r = RetClose c \<and> f c = Inr y)"
  "(case r of RetRecvfrom c \<Rightarrow> h c | _ \<Rightarrow> Inl e) = Inr y \<longleftrightarrow> (\<exists>c. r = RetRecvfrom c \<and> h c = Inr y)"
  "(case r of RetSendto c \<Rightarrow> f c | _ \<Rightarrow> Inl e) = Inr y \<longleftrightarrow> (\<exists>c. r = RetSendto c \<and> f c = Inr y)"
  "(case r of RetGetpeername c \<Rightarrow> k c | _ \<Rightarrow> Inl e) = Inr y \<longleftrightarrow> (\<exists>c. r = RetGetpeername c \<and> k c = Inr y)"
  "(case r of RetGetsockname c \<Rightarrow> k c | _ \<Rightarrow> Inl e) = Inr y \<longleftrightarrow> (\<exists>c. r = RetGetsockname c \<and> k c = Inr y)"
  by (cases r; simp)+

text \<open>A call that opens no socket keeps the range and the position in it; what it does to the
  table is seen through \<open>fd_chanmap\<close>.\<close>

definition same_pool :: "('w, 'x) iproc_scheme \<Rightarrow> ('w, 'x) iproc_scheme \<Rightarrow> bool" where
  "same_pool s s' \<longleftrightarrow> g_startfd s' = g_startfd s \<and> g_fd_count s' = g_fd_count s \<and>
     last_fd_assigned s' = last_fd_assigned s \<and> length (g_chan_table s') = length (g_chan_table s)"

lemma same_pool_refl [simp, intro]: "same_pool s s"
  by (simp add: same_pool_def)

lemma same_pool_trans [trans]: "same_pool s t \<Longrightarrow> same_pool t u \<Longrightarrow> same_pool s u"
  by (simp add: same_pool_def)

lemma same_pool_wf: "same_pool s s' \<Longrightarrow> fd_wf s' = fd_wf s"
  by (simp add: same_pool_def fd_wf_def)

lemma same_pool_assigned: "same_pool s s' \<Longrightarrow> is_assigned_by_velox s' = is_assigned_by_velox s"
  by (simp add: same_pool_def is_assigned_by_velox_def fun_eq_iff)

lemma only_world_table:
  assumes "only_world s s'"
  shows "same_pool s s'" "fd_chanmap s' = fd_chanmap s" "getpid s' = getpid s"
    "g_chan_table s' = g_chan_table s" "g_startfd s' = g_startfd s" "g_fd_count s' = g_fd_count s"
    "last_fd_assigned s' = last_fd_assigned s"
proof -
  obtain e w where "s' = s\<lparr>errno := e, world := w\<rparr>" using assms unfolding only_world_def by blast
  then show "same_pool s s'" "fd_chanmap s' = fd_chanmap s" "getpid s' = getpid s"
    "g_chan_table s' = g_chan_table s" "g_startfd s' = g_startfd s" "g_fd_count s' = g_fd_count s"
    "last_fd_assigned s' = last_fd_assigned s"
    by (simp_all add: same_pool_def)
qed

lemma only_world_ret_and_errno: "ret_and_errno c s = Inr (r, s') \<Longrightarrow> only_world s s'"
  by (cases s) (auto simp: ret_and_errno_def only_world_def split: if_splits option.splits)

lemmas only_world_calls = only_world_transact only_world_ret_and_errno only_world_glibc

lemma only_world_errno [intro]: "only_world s (s\<lparr>errno := e\<rparr>)"
  by (cases s) (simp add: only_world_def)

lemma only_world_connect: "connect E fd a l s = Inr (r, s') \<Longrightarrow> only_world s s'"
  by (auto simp: connect_def bindr_eq_Inr returning_Inr split: if_splits
      dest!: only_world_calls intro: only_world_trans)

lemma only_world_sendto: "sendto E fd b l f a al s = Inr (r, s') \<Longrightarrow> only_world s s'"
  by (auto simp: sendto_def bindr_eq_Inr returning_Inr split: if_splits
      dest!: only_world_calls intro: only_world_trans)

lemma only_world_recvfrom: "recvfrom E fd b l f a al s = Inr (r, s') \<Longrightarrow> only_world s s'"
  by (auto simp: recvfrom_def bindr_eq_Inr returning_Inr Let_def split: if_splits
      dest!: only_world_calls intro: only_world_trans)

lemma only_world_names:
  "getpeername E fd a al s = Inr (r, s') \<Longrightarrow> only_world s s'"
  "getsockname E fd a al s = Inr (r, s') \<Longrightarrow> only_world s s'"
  by (auto simp: getpeername_def getsockname_def bindr_eq_Inr returning_Inr Let_def
      split: if_splits
      dest!: only_world_calls intro: only_world_trans)

lemma only_world_options:
  "getsockopt E fd lv m v k s = Inr (x, s') \<Longrightarrow> only_world s s'"
  "setsockopt E fd lv m b n s = Inr (r, s') \<Longrightarrow> only_world s s'"
  "fcntl E fd c i s = Inr (r, s') \<Longrightarrow> only_world s s'"
  by (auto simp: getsockopt_def setsockopt_def fcntl_def bindr_eq_Inr returning_Inr
      split: if_splits option.splits dest!: only_world_glibc)

lemma run_call_only_world:
  assumes "run_call n E c s = Inr (r, s')" "\<nexists>d t p. c = Socket d t p" "\<nexists>fd. c = Close fd"
  shows "only_world s s'"
  using assms
  by (cases c) (auto simp: plain_def bindr_eq_Inr returning_Inr send_def fd_write_def recv_def fd_read_def
      split: if_splits dest!: only_world_connect only_world_sendto only_world_recvfrom
        only_world_names only_world_options only_world_glibc)

text \<open>\<open>close\<close> and the \<open>close\<close> it makes on the channel.\<close>

lemma unset_same_pool: "unset_fd_chanmap fd ch s = Inr s' \<Longrightarrow> same_pool s s'"
  by (auto simp: unset_fd_chanmap_def bindr_eq_Inr returning_Inr same_pool_def)

lemma close_same_pool:
  "close n E fd s = Inr (r, s') \<Longrightarrow> same_pool s s'"
  "close_chan n E fd s = Inr s'' \<Longrightarrow> same_pool s s''"
proof (induction n E fd s and n E fd s arbitrary: r s' and s'' rule: close_close_chan.induct)
  case (2 n E fd s)
  then show ?case
    by (auto simp: bindr_eq_Inr returning_Inr split: if_splits
        dest!: only_world_calls [THEN only_world_table(1)] unset_same_pool)
      (meson same_pool_trans)
qed (auto simp: bindr_eq_Inr returning_Inr)

lemma run_call_same_pool:
  assumes "run_call n E c s = Inr (r, s')" "\<not> opens_velox c"
  shows "same_pool s s'"
proof -
  consider d t p where "c = Socket d t p" | fd where "c = Close fd"
    | "\<nexists>d t p. c = Socket d t p" "\<nexists>fd. c = Close fd" by blast
  then show ?thesis
  proof cases
    case 1
    with assms show ?thesis
      by (auto simp: plain_def socket_def bindr_eq_Inr split: if_splits
          dest!: only_world_glibc [THEN only_world_table(1)])
  next
    case 2
    with assms show ?thesis by (auto simp: plain_def bindr_eq_Inr dest: close_same_pool)
  next
    case 3
    with assms run_call_only_world only_world_table(1) show ?thesis by blast
  qed
qed

lemma run_call_opens:
  assumes "run_call n E c s = Inr (r, s')" "opens_velox c"
  shows "same_pool (s\<lparr>last_fd_assigned := last_fd_assigned s + 1\<rparr>) s' \<and>
    (io_ret r = -1 \<or> io_ret r = last_fd_assigned s + 1) \<and>
    last_fd_assigned s < g_startfd s + g_fd_count s - 1"
  using assms
  by (cases c) (auto simp: plain_def socket_def bindr_eq_Inr returning_Inr next_avail_fd_Inr_iff
      set_fd_chanmap_def io_plain_def same_pool_def split: if_splits option.splits
      dest!: only_world_open_chan only_world_transact simp: only_world_table)

lemma run_call_wf:
  assumes "fd_wf s" "run_call n E c s = Inr (r, s')"
  shows "fd_wf s'"
proof (cases "opens_velox c")
  case True
  then have "same_pool (s\<lparr>last_fd_assigned := last_fd_assigned s + 1\<rparr>) s'"
    and "last_fd_assigned s < g_startfd s + g_fd_count s - 1"
    using run_call_opens [OF assms(2)] by simp_all
  then show ?thesis using assms(1) by (auto simp: fd_wf_def same_pool_def)
next
  case False
  then show ?thesis using run_call_same_pool [OF assms(2)] assms(1) same_pool_wf by blast
qed

lemma velox_fds_simps [simp]:
  "velox_fds [] rs = []"
  "velox_fds (c # cs) (r # rs) = (if opens_velox c \<and> io_ret r \<noteq> -1 then [io_ret r] else []) @ velox_fds cs rs"
  by (simp_all add: velox_fds_def)

lemma run_calls_pool:
  assumes "fd_wf s" "run_calls n E cs s = Inr (rs, s')"
  shows "fd_wf s' \<and> g_startfd s' = g_startfd s \<and> g_fd_count s' = g_fd_count s \<and>
    last_fd_assigned s \<le> last_fd_assigned s' \<and>
    sorted_wrt (<) (velox_fds cs rs) \<and>
    list_all (\<lambda>fd. last_fd_assigned s < fd \<and> fd \<le> last_fd_assigned s') (velox_fds cs rs)"
  using assms
proof (induction cs arbitrary: s rs)
  case (Cons c cs)
  then obtain r s1 rs' where call: "run_call n E c s = Inr (r, s1)"
    and rest: "run_calls n E cs s1 = Inr (rs', s')" and rs: "rs = r # rs'"
    by (auto simp: bindr_eq_Inr)
  have wf: "fd_wf s1" using run_call_wf [OF Cons.prems(1) call] .
  note IH = Cons.IH [OF wf rest]
  show ?case
  proof (cases "opens_velox c")
    case True
    note o = run_call_opens [OF call True]
    then have "last_fd_assigned s1 = last_fd_assigned s + 1"
      "g_startfd s1 = g_startfd s" "g_fd_count s1 = g_fd_count s"
      by (auto simp: same_pool_def)
    then show ?thesis using IH o True
      by (fastforce simp: rs list_all_iff)
  next
    case False
    note p = run_call_same_pool [OF call False]
    have "last_fd_assigned s1 = last_fd_assigned s" "g_startfd s1 = g_startfd s"
      "g_fd_count s1 = g_fd_count s" using p by (simp_all add: same_pool_def)
    then show ?thesis using IH False
      by (simp add: rs)
  qed
qed simp

lemma run_calls_position:
  "run_calls n E cs s = Inr (rs, s') \<Longrightarrow> last_fd_assigned s' = last_fd_assigned s + int (length (filter opens_velox cs))"
proof (induction cs arbitrary: s rs)
  case (Cons c cs)
  then obtain r s1 rs' where call: "run_call n E c s = Inr (r, s1)" and rest: "run_calls n E cs s1 = Inr (rs', s')"
    by (auto simp: bindr_eq_Inr)
  show ?case using Cons.IH [OF rest] run_call_opens [OF call] run_call_same_pool [OF call]
    by (cases "opens_velox c") (simp_all add: same_pool_def)
qed simp

subsection \<open>Properties\<close>

text \<open>(C10) The descriptors of a program: whatever sequence of intercepted calls a process makes, the
  table invariant still holds at the end, the range has not changed, and the descriptors its
  successful Velox \<open>socket\<close> calls returned are strictly increasing - so pairwise different,
  also across closes - and all handed out during the run.\<close>

theorem run_calls_fds_distinct:
  assumes "fd_wf s" and "run_calls n E cs s = Inr (rs, s')"
  shows "fd_wf s' \<and> g_startfd s' = g_startfd s \<and> g_fd_count s' = g_fd_count s \<and>
     sorted_wrt (<) (velox_fds cs rs) \<and> distinct (velox_fds cs rs) \<and>
     list_all (\<lambda>fd. is_assigned_by_velox s' fd \<and> last_fd_assigned s < fd) (velox_fds cs rs)"
proof -
  note p = run_calls_pool [OF assms]
  then have "distinct (velox_fds cs rs)"
    by (simp add: strict_sorted_iff)
  moreover have "list_all (\<lambda>fd. is_assigned_by_velox s' fd \<and> last_fd_assigned s < fd) (velox_fds cs rs)"
    using p assms(1) by (fastforce simp: list_all_iff is_assigned_by_velox_def fd_wf_def)
  ultimately show ?thesis using p by simp
qed

text \<open>An environment in which the daemon accepts every socket and every close; its world is the
  number of messages exchanged so far, even when a socket is to be answered.\<close>

definition ok_unpack :: "byte list \<Rightarrow> Response option" where
  "ok_unpack bs = (case bs of [] \<Rightarrow> None | b # _ \<Rightarrow>
     Some \<lparr>retcode = Some RC_OK, returning =
       (if b = 0 then RetSocket \<lparr>ret = 0, errno' = None\<rparr>
        else if b = 1 then RetClose \<lparr>ret = 0, errno' = None\<rparr>
        else RetRecvfrom \<lparr>ret = 3, errno' = None, buf' = Some [7, 8, 9], addr' = None\<rparr>)\<rparr>)"

definition ok_env :: "io list env" where
  "ok_env = (script_env 1 ok_unpack)\<lparr>g_socket := (\<lambda>_ _ _ w. (9, 0, w)), g_connect := (\<lambda>_ _ _ w. (0, 0, w))\<rparr>"

definition answer :: "byte \<Rightarrow> io" where
  "answer b = (io_plain 1)\<lparr>io_buf := [b]\<rparr>"

lemmas example_defs = ok_env_def ok_unpack_def answer_def script_env_def proc0_def glibc_def io_plain_def
  request_def transact_def chan_send_def chan_recv_def RPC_MESSAGE_MAX_SIZE_def

theorem run_calls_fds_distinct_witness:
  "distinct (velox_fds [Socket 2 1 0, Close 4096, Socket 2 2 0] [io_plain 4096, io_plain 0, io_plain 4097])"
proof -
  obtain s' where "run_calls 2 ok_env [Socket 2 1 0, Close 4096, Socket 2 2 0] (proc0 [answer 0, answer 1, answer 0]) =
      Inr ([io_plain 4096, io_plain 0, io_plain 4097], s')"
    by (simp add: numeral_2_eq_2 plain_def socket_def AF_INET_def SOCK_STREAM_def SOCK_DGRAM_def
        next_avail_fd_def open_chan_def set_fd_chanmap_def unset_fd_chanmap_def fd_chanmap_def slot_def
        is_assigned_by_velox_def ret_and_errno_def Let_def example_defs)
  from run_calls_fds_distinct [OF fd_wf_proc0 this] show ?thesis by blast
qed

text \<open>(C9) Preloading the library is invisible to ordinary descriptors. Every call on a descriptor
  outside the Velox range, and every \<open>socket\<close> call that is not IPv4 or whose type has neither the bit of \<open>SOCK_STREAM\<close> nor that of
  \<open>SOCK_DGRAM\<close>, has the effect of the glibc call - same result, same \<open>errno\<close>, same
  world but for the line \<open>socket\<close> prints, and no change of the library's own state. The test is one of bits, though, and the types are numbers:
  a raw (3) or sequenced-packet (5) IPv4 socket has the bit of a stream, and such a call uses up a Velox number.\<close>

theorem ordinary_calls_transparent:
  assumes "case c of Socket d t p \<Rightarrow> d \<noteq> AF_INET \<or> t AND SOCK_STREAM = 0 \<and> t AND SOCK_DGRAM = 0
    | _ \<Rightarrow> (case call_fd c of None \<Rightarrow> True | Some fd \<Rightarrow> \<not> is_assigned_by_velox s fd)"
  shows "run_call (Suc n) E c s = glibc_call E c s \<and>
    (t \<in> {3, 5} \<and> run_call (Suc n) E (Socket AF_INET t p) s = Inr (r, s') \<longrightarrow>
      last_fd_assigned s' = last_fd_assigned s + 1 \<and> (io_ret r = -1 \<or> io_ret r = last_fd_assigned s + 1))"
proof (intro conjI impI)
  show "run_call (Suc n) E c s = glibc_call E c s" using assms by (cases c) (auto simp: socket_def call_defs)
  assume a: "t \<in> {3, 5} \<and> run_call (Suc n) E (Socket AF_INET t p) s = Inr (r, s')"
  then have "opens_velox (Socket AF_INET t p)" by (auto simp: SOCK_STREAM_def SOCK_DGRAM_def)
  from run_call_opens [OF _ this] a
  show "last_fd_assigned s' = last_fd_assigned s + 1" "io_ret r = -1 \<or> io_ret r = last_fd_assigned s + 1"
    by (auto simp: same_pool_def)
qed

theorem ordinary_calls_transparent_witness:
  "run_call 1 ok_env (Close 7) (proc0 [answer 0]) = glibc_call ok_env (Close 7) (proc0 [answer 0]) \<and>
   (\<exists>s'. run_call 1 ok_env (Socket AF_INET 3 0) (proc0 [answer 0]) = Inr (io_plain 4096, s') \<and> last_fd_assigned s' = 4096)"
proof -
  obtain s' where s': "run_call 1 ok_env (Socket AF_INET 3 0) (proc0 [answer 0]) = Inr (io_plain 4096, s')"
    by (simp add: plain_def socket_def SOCK_STREAM_def SOCK_DGRAM_def next_avail_fd_def open_chan_def
        set_fd_chanmap_def slot_def Let_def example_defs)
  have "last_fd_assigned (proc0 [answer 0]) = 4095" by (simp add: proc0_def)
  with ordinary_calls_transparent [where c = "Close 7" and s = "proc0 [answer 0]" and n = 0 and E = ok_env and t = 3 and p = 0
      and r = "io_plain 4096" and s' = s'] s' show ?thesis
    by (auto simp: is_assigned_by_velox_def proc0_def)
qed

text \<open>What an intercepted \<open>socket\<close> does when a number is left, the channel opens and the daemon
  answers: on success it returns the next number, on failure \<open>-1\<close> with the daemon's
  \<open>errno\<close> (an answer without one stops the process). In both cases the number is bound to the
  new channel and every other binding is as before: a refused socket keeps its number and its
  channel.\<close>

theorem socket_outcome:
  assumes "fd_wf s" and "type AND SOCK_STREAM \<noteq> 0 \<or> type AND SOCK_DGRAM \<noteq> 0"
    and fd: "fd = last_fd_assigned s + 1" and room: "fd < g_startfd s + g_fd_count s"
    and opened: "open_chan E (s\<lparr>last_fd_assigned := fd\<rparr>) = Inr (ch, s2)"
    and s3: "s3 = s2\<lparr>g_chan_table := (g_chan_table s)[nat (fd - g_startfd s) := ch]\<rparr>"
    and answered: "transact E ch \<lparr>req_pid = getpid s, req_calling = CallSocket AF_INET type protocol\<rparr> s3 =
      Inr (resp, s4)" and "returning resp = RetSocket c"
  shows "socket E AF_INET type protocol s =
      (if ret c \<noteq> -1 then Inr (fd, s4)
       else case errno' c of None \<Rightarrow> Inl AssertFailed | Some e \<Rightarrow> Inr (-1, s4\<lparr>errno := e\<rparr>)) \<and>
    fd_wf s4 \<and> fd_chanmap s4 fd = Inr ch \<and>
    (\<forall>j. is_assigned_by_velox s j \<and> j \<noteq> fd \<longrightarrow> fd_chanmap s4 j = fd_chanmap s j)"
proof -
  let ?s1 = "s\<lparr>last_fd_assigned := fd\<rparr>"
  note t2 = only_world_table [OF only_world_open_chan [OF opened]]
  note t4 = only_world_table [OF only_world_transact [OF answered]]
  have next': "next_avail_fd s = Inr (fd, ?s1)" using fd room by (simp add: next_avail_fd_Inr_iff)
  have wf1: "fd_wf ?s1" and in1: "is_assigned_by_velox ?s1 fd"
    using next_avail_fd_wf [OF assms(1) next'] next_avail_fd_assigned [OF assms(1) next'] by simp_all
  have wf2: "fd_wf s2" and as2: "is_assigned_by_velox s2 = is_assigned_by_velox s"
    using wf1 same_pool_wf [OF t2(1)] same_pool_assigned [OF t2(1)]
    by (simp_all add: is_assigned_by_velox_def fun_eq_iff)
  have in2: "is_assigned_by_velox s2 fd"
    using in1 same_pool_assigned [OF t2(1)] by simp
  have s3': "s3 = s2\<lparr>g_chan_table := (g_chan_table s2)[nat (fd - g_startfd s2) := ch]\<rparr>"
    using s3 t2 by simp
  have put: "set_fd_chanmap fd ch s2 = Inr s3" using set_fd_chanmap_eq [OF wf2 in2] s3' by simp
  have look: "fd_chanmap s4 j = (if j = fd then Inr ch else fd_chanmap s j)" if "is_assigned_by_velox s j" for j
    using that fdmap.lookup_put [OF wf2 put] t4(2) t2(2) as2 by (simp add: fd_chanmap_def slot_def)
  have req: "request s3 k = \<lparr>req_pid = getpid s, req_calling = k\<rparr>" for k
    using t2(3) s3 by (simp add: request_def)
  have "fd_wf s4" using fdmap.put_keeps [OF wf2 put] same_pool_wf [OF t4(1)] by simp
  then show ?thesis
    using assms(2,8) next' opened put answered look in2 as2 by (auto simp: socket_def req)
qed

theorem socket_outcome_witness:
  "\<exists>s4. socket ok_env AF_INET 1 0 (proc0 [answer 0]) = Inr (4096, s4) \<and> fd_chanmap s4 4096 = Inr 9 \<and>
     fd_chanmap s4 4097 = Inr 0"
proof -
  let ?s1 = "proc0 [answer 0] :: io list iproc"
  let ?s3 = "?s1\<lparr>last_fd_assigned := 4096, g_chan_table := [9, 0, 0, 0]\<rparr>"
  have o: "open_chan ok_env (?s1\<lparr>last_fd_assigned := 4096\<rparr>) = Inr (9, ?s1\<lparr>last_fd_assigned := 4096\<rparr>)"
    by (simp add: open_chan_def example_defs)
  have t: "transact ok_env 9 \<lparr>req_pid = getpid ?s1, req_calling = CallSocket AF_INET 1 0\<rparr> ?s3 =
      Inr (\<lparr>retcode = Some RC_OK, returning = RetSocket \<lparr>ret = 0, errno' = None\<rparr>\<rparr>, ?s3\<lparr>world := []\<rparr>)"
    by (simp add: example_defs)
  have "is_assigned_by_velox ?s1 4097" "fd_chanmap ?s1 4097 = Inr 0"
    by (simp_all add: is_assigned_by_velox_def fd_chanmap_def slot_def proc0_def)
  then show ?thesis
    using socket_outcome [OF fd_wf_proc0 _ _ _ o _ t, of "\<lparr>ret = 0, errno' = None\<rparr>"]
    by (auto simp: proc0_def SOCK_STREAM_def)
qed

text \<open>What \<open>close\<close> does to a Velox descriptor once the daemon has answered: it returns the
  daemon's result, the binding is replaced by channel \<open>0\<close>, no other binding changes, and
  the channel's own descriptor is closed with glibc - the inner \<open>close\<close> of
  \<open>close_chan\<close> passes through, so the recursion is two deep. The number stays inside the
  range: a later call on it is sent to descriptor \<open>0\<close>, standard input.\<close>

theorem close_releases:
  assumes "fd_wf s" and "is_assigned_by_velox s fd" and "fd_chanmap s fd = Inr ch"
    and "\<not> is_assigned_by_velox s ch"
    and answered: "transact E ch \<lparr>req_pid = getpid s, req_calling = CallClose\<rparr> s = Inr (resp, s1)"
    and "returning resp = RetClose c" and "ret c \<noteq> -1"
    and closed: "g_close E ch (world s1) = (r, e, w)"
  shows "\<exists>s'. close (Suc (Suc n)) E fd s = Inr (ret c, s') \<and> world s' = w \<and> errno s' = e \<and> fd_wf s' \<and>
     is_assigned_by_velox s' fd \<and> fd_chanmap s' fd = Inr 0 \<and>
     (\<forall>j. is_assigned_by_velox s j \<and> j \<noteq> fd \<longrightarrow> fd_chanmap s' j = fd_chanmap s j)"
proof -
  note t = only_world_table [OF only_world_transact [OF answered]]
  have wf1: "fd_wf s1" and as1: "is_assigned_by_velox s1 = is_assigned_by_velox s"
    using assms(1) same_pool_wf [OF t(1)] same_pool_assigned [OF t(1)] by simp_all
  obtain s2 where clr: "unset_fd_chanmap fd ch s1 = Inr s2"
    and wf2: "fd_wf s2" and as2: "is_assigned_by_velox s2 = is_assigned_by_velox s1"
    using fdmap.clear_ok [OF wf1, of fd ch] assms(2) as1 by auto
  have w2: "world s2 = world s1" using clr by (auto simp: unset_fd_chanmap_def bindr_eq_Inr)
  let ?s' = "s2\<lparr>errno := e, world := w\<rparr>"
  have "close (Suc (Suc n)) E fd s = Inr (ret c, ?s')"
    using assms(2-4,6,7) answered clr closed t(2) as1 as2 w2
    by (simp add: request_def glibc_def ret_and_errno_def)
  moreover have "fd_chanmap s2 j = fd_chanmap s j" if "is_assigned_by_velox s j" "j \<noteq> fd" for j
    using that fdmap.other_clear [OF wf1 clr] as1 t(2) by simp
  ultimately show ?thesis
    using wf2 as2 as1 assms(2) fdmap.cleared [OF wf1 _ clr] by simp
qed

theorem close_releases_witness:
  "\<exists>s'. close 2 ok_env 4096 ((proc0 [answer 1])\<lparr>g_chan_table := [9, 8, 0, 0]\<rparr>) = Inr (0, s') \<and>
     fd_chanmap s' 4096 = Inr 0 \<and> fd_chanmap s' 4097 = Inr 8"
proof -
  let ?s = "(proc0 [answer 1])\<lparr>g_chan_table := [9, 8, 0, 0]\<rparr> :: io list iproc"
  have t: "transact ok_env 9 \<lparr>req_pid = getpid ?s, req_calling = CallClose\<rparr> ?s =
      Inr (\<lparr>retcode = Some RC_OK, returning = RetClose \<lparr>ret = 0, errno' = None\<rparr>\<rparr>, ?s\<lparr>world := []\<rparr>)"
    by (simp add: example_defs)
  have c: "g_close ok_env 9 (world (?s\<lparr>world := []\<rparr>)) = (0, 0, [])" by (simp add: example_defs)
  have m: "fd_wf ?s" "is_assigned_by_velox ?s 4096" "fd_chanmap ?s 4096 = Inr 9"
    "\<not> is_assigned_by_velox ?s 9" "is_assigned_by_velox ?s 4097" "fd_chanmap ?s 4097 = Inr 8"
    by (simp_all add: fd_wf_def is_assigned_by_velox_def fd_chanmap_def slot_def proc0_def)
  from close_releases [OF m(1-4) t _ _ c, of "\<lparr>ret = 0, errno' = None\<rparr>" 0] m(5,6)
  show ?thesis by (auto simp: numeral_2_eq_2)
qed

text \<open>(C33) The numbers run out. Whatever calls a process makes, closing included, every intercepted \<open>socket\<close> call uses
  up one number of the range, also one that fails, and none comes back: the position in the range is exactly their count further.
  So no more calls get through than numbers were left, and once the last one is used, every further \<open>socket\<close> call for a
  Velox socket stops the process at the assertion of \<open>next_avail_fd\<close>, whatever was closed before.\<close>

theorem sockets_run_out:
  assumes "fd_wf s" and "run_calls n E cs s = Inr (rs, s')"
  shows "last_fd_assigned s' = last_fd_assigned s + int (length (filter opens_velox cs)) \<and>
    int (length (filter opens_velox cs)) \<le> g_startfd s + g_fd_count s - 1 - last_fd_assigned s \<and>
    (int (length (filter opens_velox cs)) = g_startfd s + g_fd_count s - 1 - last_fd_assigned s \<and> opens_velox c \<longrightarrow>
      run_call n E c s' = Inl AssertFailed)"
proof -
  have l: "last_fd_assigned s' = last_fd_assigned s + int (length (filter opens_velox cs))" using run_calls_position [OF assms(2)] .
  have p: "fd_wf s'" "g_startfd s' = g_startfd s" "g_fd_count s' = g_fd_count s" using run_calls_pool [OF assms] by simp_all
  then have "last_fd_assigned s' \<le> g_startfd s + g_fd_count s - 1" by (auto simp: fd_wf_def)
  moreover have "run_call n E c s' = Inl AssertFailed" if "last_fd_assigned s' = g_startfd s' + g_fd_count s' - 1" "opens_velox c"
    using that by (cases c) (auto simp: plain_def socket_def next_avail_fd_def)
  ultimately show ?thesis using l p by auto
qed

text \<open>Two numbers left: two sockets, the first one closed, and a third stops the process.\<close>

theorem sockets_run_out_witness:
  "\<exists>rs s'. run_calls 2 ok_env [Socket 2 1 0, Close 4098, Socket 2 2 0]
       ((proc0 [answer 0, answer 1, answer 0])\<lparr>last_fd_assigned := 4097\<rparr>) = Inr (rs, s') \<and>
     last_fd_assigned s' = 4099 \<and> run_call 2 ok_env (Socket 2 1 0) s' = Inl AssertFailed"
proof -
  let ?cs = "[Socket 2 1 0, Close 4098, Socket 2 2 0]"
  let ?s = "(proc0 [answer 0, answer 1, answer 0])\<lparr>last_fd_assigned := 4097\<rparr>"
  obtain rs s' where r: "run_calls 2 ok_env ?cs ?s = Inr (rs, s')"
    by (simp add: numeral_2_eq_2 plain_def socket_def AF_INET_def SOCK_STREAM_def SOCK_DGRAM_def
        next_avail_fd_def open_chan_def set_fd_chanmap_def unset_fd_chanmap_def fd_chanmap_def slot_def
        is_assigned_by_velox_def ret_and_errno_def Let_def example_defs)
  have "fd_wf ?s" by (simp add: fd_wf_def proc0_def)
  moreover have "length (filter opens_velox ?cs) = 2" "opens_velox (Socket 2 1 0)"
    by (simp_all add: AF_INET_def SOCK_STREAM_def SOCK_DGRAM_def)
  ultimately show ?thesis using sockets_run_out [OF _ r, of "Socket 2 1 0"] r by (auto simp: proc0_def)
qed

end
