(* ===== verification/Rpc_Answers.thy ===== *)
theory Rpc_Answers
  imports Daemon_Safe
begin

unbundle bit_operations_syntax

section \<open>What a client gets for a request\<close>

text \<open>
  Which requests are answered, which are answered later, and which are not answered at all. The
  last kind reaches \<open>AgentChannel::write\<close> without a \<open>retCode\<close>, where an assertion stops
  the daemon for all its clients.
\<close>

fun unanswered :: "calling \<Rightarrow> nat \<Rightarrow> daemon \<Rightarrow> bool" where
  "unanswered CallingNotSet c d \<longleftrightarrow> True"
| "unanswered CallPoll c d \<longleftrightarrow> True"
| "unanswered CallSelect c d \<longleftrightarrow> True"
| "unanswered CallSetsockopt c d \<longleftrightarrow> True"
| "unanswered (CallConnect addr) c d \<longleftrightarrow> (\<exists>e ep. chan_socket c d = Inr (e, ep) \<and> ep_type ep = EP_UDP)"
| "unanswered _ c d \<longleftrightarrow> False"

text \<open>Calls that wait: \<open>connect\<close> on a blocking TCP socket and \<open>recvfrom\<close> on a blocking
  socket whose queue is empty.\<close>

fun waits :: "calling \<Rightarrow> nat \<Rightarrow> daemon \<Rightarrow> bool" where
  "waits (CallConnect addr) c d \<longleftrightarrow> (\<exists>e ep. chan_socket c d = Inr (e, ep) \<and> ep_type ep = EP_TCP \<and> \<not> ep_nonblocking ep)"
| "waits (CallRecvfrom len flags ra) c d \<longleftrightarrow> (\<exists>e ep. chan_socket c d = Inr (e, ep) \<and> ep_recvQ ep = [] \<and> \<not> ep_nonblocking ep)"
| "waits _ c d \<longleftrightarrow> False"

text \<open>\<open>connect\<close> on a nonblocking TCP socket.\<close>

fun starts_connecting :: "calling \<Rightarrow> nat \<Rightarrow> daemon \<Rightarrow> bool" where
  "starts_connecting (CallConnect addr) c d \<longleftrightarrow>
     (\<exists>e ep. chan_socket c d = Inr (e, ep) \<and> ep_type ep = EP_TCP \<and> ep_nonblocking ep)"
| "starts_connecting _ c d \<longleftrightarrow> False"

definition answered_as :: "calling \<Rightarrow> nat \<Rightarrow> daemon \<Rightarrow> Response \<Rightarrow> bool" where
  "answered_as q c d resp \<longleftrightarrow>
     (if unanswered q c d then retcode resp = None
      else if waits q c d then resp = \<lparr>retcode = Some RC_WAIT_NEXT, returning = ReturningNotSet\<rparr>
      else if starts_connecting q c d
      then resp = \<lparr>retcode = Some RC_OK,
                    returning = RetRecvfrom \<lparr>ret = EINPROGRESS, errno' = None, buf' = None, addr' = None\<rparr>\<rparr>
      else retcode resp = Some RC_OK \<and> returning_case (returning resp) = calling_case q)"

lemma Response_new_simps [simp]: "retcode Response_new = None" "returning Response_new = ReturningNotSet"
  by (simp_all add: Response_new_def)

lemma answer_ok_simps [simp]: "retcode (answer_ok v resp) = Some RC_OK" "returning (answer_ok v resp) = v"
  by (simp_all add: answer_ok_def)

lemma connectCall_answer:
  assumes r: "connectCall E c addr Response_new d = Inr (resp, d')"
  shows "answered_as (CallConnect addr) c d resp"
proof -
  obtain e ep where so: "chan_socket c d = Inr (e, ep)" using r by (auto simp: connectCall_def bindr_eq_Inr)
  show ?thesis using r so
    by (cases "ep_type ep") (auto simp: connectCall_def bindr_eq_Inr answered_as_def answer_ok_def Response_new_def split: if_splits)
qed

lemma recvfromCall_answer:
  assumes r: "recvfromCall c ra Response_new d = Inr (resp, d')"
  shows "answered_as (CallRecvfrom len flags ra) c d resp"
proof -
  obtain e ep where so: "chan_socket c d = Inr (e, ep)" using r by (auto simp: recvfromCall_def bindr_eq_Inr)
  show ?thesis using r so
    by (cases "ep_recvQ ep") (auto simp: recvfromCall_def try_takeFromRecvQ_def bindr_eq_Inr answered_as_def recv_answer_def Response_new_def
        Let_def split: if_splits)
qed

lemma handleRequest_answer:
  assumes r: "handleRequest E c req d = Inr (resp, d')"
  shows "answered_as (req_calling req) c d resp"
proof -
  consider (connect) addr where "req_calling req = CallConnect addr"
    | (recvfrom) len flags ra where "req_calling req = CallRecvfrom len flags ra"
    | (other) "\<And>addr. req_calling req \<noteq> CallConnect addr" "\<And>len flags ra. req_calling req \<noteq> CallRecvfrom len flags ra"
    by blast
  then show ?thesis
  proof cases
    case connect
    then show ?thesis using r connectCall_answer by (simp add: handleRequest_def)
  next
    case recvfrom
    then show ?thesis using r recvfromCall_answer by (simp add: handleRequest_def)
  next
    case other
    then show ?thesis using r
      by (cases "req_calling req")
        (auto simp: handleRequest_def Let_def bindr_eq_Inr socketCall_def sendtoCall_def closeCall_def getpeernameCall_def
          getsocknameCall_def getsockoptCall_def setsockoptCall_def fcntlCall_def atstartAction_def answered_as_def)
  qed
qed

text \<open>(C23) What each request is answered with. Whenever \<open>handleRequest\<close> returns, the response is one of:
  not completed (\<open>poll\<close>, \<open>select\<close>, \<open>setsockopt\<close>, an empty request, \<open>connect\<close> on a UDP socket);
  \<open>WAIT_NEXT\<close> with nothing else (a blocking TCP \<open>connect\<close>, a blocking \<open>recvfrom\<close> on an empty queue);
  a \<open>recvfrom\<close> answer carrying EINPROGRESS (\<open>connect\<close> on a nonblocking TCP socket); in every other
  case OK with the answer of the same call. No request is answered with \<open>ERROR\<close>.\<close>

theorem request_answer_kind:
  assumes "handleRequest E c req d = Inr (resp, d')"
  shows "answered_as (req_calling req) c d resp \<and> retcode resp \<noteq> Some RC_ERROR"
  using handleRequest_answer [OF assms] by (auto simp: answered_as_def split: if_splits)

text \<open>A channel that unregisters itself is out of the event loop and out of epoll.\<close>

lemma unregistered_channel:
  assumes "daemon_wf d" "d_chans d c \<noteq> None"
  shows "\<exists>r. on_loop (unregisterSelf (HChannel c)) d = Inr (d\<lparr>d_loop := r\<rparr>) \<and> HChannel c \<notin> set (loop_channels r) \<and>
    loop_channels r = remove1 (HChannel c) (loop_channels (d_loop d)) \<and> (\<forall>fd ev. interest (ctl_calls r) fd \<noteq> Some (ev, HChannel c))"
proof -
  note ow = daemon_wfD(1) [OF assms(1)]
  obtain i where i: "io_handles (d_loop d) (HChannel c) = Some i" using objects_wfD(2) [OF ow, of "HChannel c"] assms(2) by auto
  obtain r where r: "unregisterSelf (HChannel c) (d_loop d) = Inr r" "reactor_wf r"
    "loop_channels r = remove1 (HChannel c) (loop_channels (d_loop d))"
    using unregisterSelf_ok [OF objects_wfD(1) [OF ow] i] by blast
  have out: "HChannel c \<notin> set (loop_channels r)" using r(3) reactor_wfD(1) [OF objects_wfD(1) [OF ow]] by simp
  then have "interest (ctl_calls r) fd \<noteq> Some (ev, HChannel c)" for fd ev using reactor_wfD(4) [OF r(2)] by (auto simp: wanted_def)
  then show ?thesis using r out by (intro exI [of _ r]) (simp add: on_loop_def)
qed

text \<open>(C13) One response per request. In a reachable state a request that \<open>handleRequest\<close> serves and whose
  response fits in a message leads, if the response was completed, to exactly one response written
  to the client's own channel, and nothing else changes of what the handler left. When the write fails there is none; the channel
  stays in the daemon but is unregistered - it is out of the event loop, out of which nothing else is taken, and epoll reports
  nothing for it. If the response was not completed, the daemon stops at the assertion of \<open>AgentChannel::write\<close>.\<close>

theorem request_outcome:
  assumes "dmn.reachable d" "env_ok E d" "d_chans d c \<noteq> None" "read_msg E c = RdBytes bs"
    and "handleRequest E c (ParseFromArray E (Some bs)) d = Inr (resp, d1)" "byte_size E resp \<le> RPC_MESSAGE_MAX_SIZE"
  shows "if unanswered (req_calling (ParseFromArray E (Some bs))) c d then onReadReady E c d = Inl AssertFailed
    else sent_resps d1 = sent_resps d \<and> d_chans d1 c \<noteq> None \<and>
      (if nwritten E resp \<noteq> -1 then onReadReady E c d = Inr (d1\<lparr>sent_resps := sent_resps d @ [(c, resp)]\<rparr>)
       else \<exists>r. onReadReady E c d = Inr (d1\<lparr>d_loop := r\<rparr>) \<and> HChannel c \<notin> set (loop_channels r) \<and>
         loop_channels r = remove1 (HChannel c) (loop_channels (d_loop d1)) \<and> (\<forall>fd ev. interest (ctl_calls r) fd \<noteq> Some (ev, HChannel c)))"
proof -
  have wf: "daemon_wf d" using daemon_reachable_wf [OF assms(1)] .
  have s: "daemon_wf d1" "sent_resps d1 = sent_resps d" "d_chans d1 c \<noteq> None"
    using handleRequest_served [OF wf assms(2,3,5)] by (simp_all add: served_def)
  have o': "onReadReady E c d = chan_write E c resp d1" using assms(3-5) by (auto simp: onReadReady_def)
  have a: "retcode resp = None \<longleftrightarrow> unanswered (req_calling (ParseFromArray E (Some bs))) c d"
    using handleRequest_answer [OF assms(5)] by (auto simp: answered_as_def split: if_splits)
  show ?thesis
  proof (cases "retcode resp")
    case None
    then show ?thesis using a o' s(3) by (auto simp: chan_write_def IsInitialized_def assertr_def bindr_def)
  next
    case (Some rc)
    then show ?thesis using a o' s assms(6) unregistered_channel [OF s(1,3)]
      by (auto simp: chan_write_def IsInitialized_def)
  qed
qed

lemma sample_request:
  assumes "dmn.reachable d" "env_ok sample_env d" "d_chans d 0 = Some ch"
  shows "\<exists>d'. handleRequest sample_env 0 (ParseFromArray sample_env (Some [])) d =
    Inr (answer_ok (RetSocket (plain_ret 0)) Response_new, d')"
  using socketCall_ok [OF daemon_reachable_wf [OF assms(1)] assms(2,3), of 2 False False "d_fresh d" Response_new]
  by (auto simp: handleRequest_def sample_env_def AF_INET_def SOCK_STREAM_BIT_def SOCK_DGRAM_BIT_def SOCK_NONBLOCK_def numeral_2_eq_2)

theorem request_answer_kind_witness:
  "\<exists>d resp d'. handleRequest sample_env 0 (ParseFromArray sample_env (Some [])) d = Inr (resp, d') \<and>
     answered_as (CallSocket 2 2 0) 0 d resp \<and> returning_case (returning resp) = 1"
proof -
  obtain d where d: "dmn.reachable d" "env_ok sample_env d" "d_chans d 0 = Some \<lparr>ch_peer = [], ch_peerPid = None, ch_socket = None\<rparr>"
    using sample_reachable by blast
  from sample_request [OF d] obtain d' where h: "handleRequest sample_env 0 (ParseFromArray sample_env (Some [])) d =
    Inr (answer_ok (RetSocket (plain_ret 0)) Response_new, d')" by blast
  from request_answer_kind [OF h] have "answered_as (CallSocket 2 2 0) 0 d (answer_ok (RetSocket (plain_ret 0)) Response_new)"
    by (simp add: sample_env_def)
  then show ?thesis using h
    by (intro exI [of _ d] exI [of _ "answer_ok (RetSocket (plain_ret 0)) Response_new"] exI [of _ d']) simp
qed

theorem request_outcome_witness:
  "\<exists>d d'. dmn.reachable d \<and> env_ok sample_env d \<and> onReadReady sample_env 0 d = Inr d' \<and>
     sent_resps d' = sent_resps d @ [(0, answer_ok (RetSocket (plain_ret 0)) Response_new)]"
proof -
  obtain d where d: "dmn.reachable d" "env_ok sample_env d" "d_chans d 0 = Some \<lparr>ch_peer = [], ch_peerPid = None, ch_socket = None\<rparr>"
    using sample_reachable by blast
  from sample_request [OF d] obtain d' where h: "handleRequest sample_env 0 (ParseFromArray sample_env (Some [])) d =
    Inr (answer_ok (RetSocket (plain_ret 0)) Response_new, d')" by blast
  have e: "read_msg sample_env 0 = RdBytes []" "byte_size sample_env r \<le> RPC_MESSAGE_MAX_SIZE" "nwritten sample_env r \<noteq> -1"
    "\<not> unanswered (req_calling (ParseFromArray sample_env (Some []))) 0 d" for r
    by (simp_all add: sample_env_def)
  have c: "d_chans d 0 \<noteq> None" using d(3) by simp
  from request_outcome [OF d(1,2) c e(1) h e(2)] show ?thesis using d(1,2) e(3,4) by auto
qed

end
