(* ===== verification/Udp_Delivery.thy ===== *)
theory Udp_Delivery
  imports Rpc_Answers
begin

unbundle bit_operations_syntax

section \<open>A datagram from the sender's stack to the receiver's answer\<close>

text \<open>
  The sending session, the IP output, the device, the IP input of another daemon, the choice of the
  session, the endpoint's queue and the answer to \<open>recvfrom\<close>, one after the other.
\<close>

subsection \<open>The header fields of a valid packet as the receiver reads them\<close>

lemma nth_addr_bytes:
  assumes "take 4 (drop k pkt) = addr_bytes a" "k + 4 \<le> length pkt"
  shows "get32 (raw_of pkt) k = a"
proof -
  have n: "pkt ! (k + i) = addr_bytes a ! i" if "i < 4" for i
  proof -
    have "take 4 (drop k pkt) ! i = pkt ! (k + i)" using that assms(2) by simp
    then show ?thesis using assms(1) by simp
  qed
  show ?thesis using n [of 0] n [of 1] n [of 2] n [of 3] assms(2)
    by (simp add: get32_def get16_def raw_of_def addr_bytes_def add.assoc numeral_3_eq_3 numeral_2_eq_2)
qed

lemma valid_ip_fields:
  assumes v: "valid_ip_packet proto src dst pkt"
  shows "ip_version (raw_of pkt) 0 = 4" "ip_ihl (raw_of pkt) 0 = 5" "\<not> isFrag (raw_of pkt) 0"
    "ip_protocol (raw_of pkt) 0 = proto" "ip_saddr (raw_of pkt) 0 = src" "ip_daddr (raw_of pkt) 0 = dst"
proof -
  have p: "20 \<le> length pkt" "pkt ! 0 = 69" "pkt ! 6 = 0" "pkt ! 7 = 0" "pkt ! 9 = proto"
    "take 4 (drop 12 pkt) = addr_bytes src" "take 4 (drop 16 pkt) = addr_bytes dst"
    using v by (auto simp: valid_ip_packet_def)
  have r: "raw_of pkt i = pkt ! i" if "i < 20" for i using that p(1) by (simp add: raw_of_def)
  show "ip_version (raw_of pkt) 0 = 4" "ip_ihl (raw_of pkt) 0 = 5"
    using r [of 0] p(2) by (simp_all add: ip_version_def ip_ihl_def)
  show "\<not> isFrag (raw_of pkt) 0" using r [of 6] r [of 7] p(3,4) by (simp add: isFrag_def ip_frag_off_def get16_def bswap16_def)
  show "ip_protocol (raw_of pkt) 0 = proto" using r [of 9] p(5) by (simp add: ip_protocol_def)
  show "ip_saddr (raw_of pkt) 0 = src" "ip_daddr (raw_of pkt) 0 = dst"
    using nth_addr_bytes [OF p(6)] nth_addr_bytes [OF p(7)] p(1) by (simp_all add: ip_saddr_def ip_daddr_def)
qed

subsection \<open>Through the receiver\<close>

lemma arrives_whole:
  assumes v: "valid_ip_packet proto src dst pkt" and p: "proto = 17 \<or> proto = 6" and len: "length pkt \<le> maxRawBytesSize"
    and q: "d_rxQ d = []"
  shows "\<exists>fb q. interface_turn (Some pkt) d = Inr (d\<lparr>d_rxQ := q\<rparr>) \<and> q \<noteq> [] \<and>
    (\<forall>E. ip_turn E (d\<lparr>d_rxQ := q\<rparr>) = (if proto = 17 then udp_rx [fb] d else tcp_rx E [fb] d)) \<and> rawBytes fb = raw_of pkt \<and>
    network_hdr fb = Raw 0 \<and> transport_hdr fb = Raw 20 \<and> user_payload_end fb = Raw (length pkt)"
proof -
  note f = valid_ip_fields [OF v]
  let ?fb = "FrameBuf_new\<lparr>rawBytes := raw_of pkt, network_hdr := Raw 0, hdrs_begin := Raw 0, user_payload_end := Raw (length pkt)\<rparr>"
  have l: "20 \<le> length pkt" using v by (simp add: valid_ip_packet_def)
  have rx: "tun_rx (Some pkt) = Inr ?fb" using tun_rx_Some [OF len] .
  have i: "interface_turn (Some pkt) d = Inr (d\<lparr>d_rxQ := [?fb]\<rparr>)"
    using rx f(1) q by (simp add: interface_turn_def interface_rx_def enRxQue_def)
  have "ip_rx ?fb (d_groups d) =
      Inr (if proto = 17 then ToUdp [?fb\<lparr>transport_hdr := Raw 20\<rparr>] else ToTcp [?fb\<lparr>transport_hdr := Raw 20\<rparr>], d_groups d)"
    using ip_rx_whole [OF rx len l f(3), of "d_groups d"] f(2,4) p by (auto simp: protocol_def Let_def)
  moreover have "d\<lparr>d_rxQ := []\<rparr> = d" using q by (cases d) simp
  ultimately have "ip_turn E (d\<lparr>d_rxQ := [?fb]\<rparr>) =
      (if proto = 17 then udp_rx [?fb\<lparr>transport_hdr := Raw 20\<rparr>] d else tcp_rx E [?fb\<lparr>transport_hdr := Raw 20\<rparr>] d)" for E
    by (simp add: ip_turn_def)
  then show ?thesis using i by (intro exI [of _ "?fb\<lparr>transport_hdr := Raw 20\<rparr>"] exI [of _ "[?fb]"]) simp
qed

lemma arrives:
  assumes v: "valid_ip_packet 17 src dst pkt" and len: "length pkt \<le> maxRawBytesSize" and q: "d_rxQ d = []"
  shows "\<exists>fb d1. interface_turn (Some pkt) d = Inr d1 \<and> ip_turn E d1 = udp_rx [fb] d \<and> rawBytes fb = raw_of pkt \<and>
    network_hdr fb = Raw 0 \<and> transport_hdr fb = Raw 20 \<and> user_payload_end fb = Raw (length pkt)"
  using arrives_whole [OF v _ len q] by auto

lemma datagram_ports:
  assumes "28 \<le> length pkt"
  shows "get16 (raw_of pkt) 20 = dg_source (datagram_of pkt)" "get16 (raw_of pkt) 22 = dg_dest (datagram_of pkt)"
    "drop 28 pkt = dg_data (datagram_of pkt)"
  using assms by (simp_all add: datagram_of_def Let_def get16_def raw_of_def)

definition udp_peer :: "u32 \<Rightarrow> u16 \<Rightarrow> sockaddr_in" where
  "udp_peer a p = \<lparr>sin_family = 2, sin_port = p, sin_addr = a, sin_zero = replicate 8 0\<rparr>"

lemma udp_rx_queues:
  assumes v: "valid_ip_packet 17 src dst pkt" and len: "28 \<le> length pkt" "length pkt \<le> maxRawBytesSize"
    and fb: "rawBytes fb = raw_of pkt" "network_hdr fb = Raw 0" "transport_hdr fb = Raw 20" "user_payload_end fb = Raw (length pkt)"
    and p: "find_session (\<lambda>i. map_option pcb_session (d_pcbs d i)) (udp_pcbs d) src (dg_source (datagram_of pkt)) dst
      (dg_dest (datagram_of pkt)) = Some p" "d_pcbs d p = Some (UdpPcb u)" "socket_of u = Some e" "d_eps d e = Some ep"
  shows "\<exists>fbs. udp_rx [fb] d = Inr (put_ep e (Some (putToRecvQ (Some (udp_peer src (dg_source (datagram_of pkt))), fbs) ep)) d) \<and>
    drain_skbuf_chain fbs = Inr (dg_data (datagram_of pkt))"
proof -
  note f = valid_ip_fields [OF v]
  let ?fb = "fb\<lparr>user_payload_begin := Raw 28\<rparr>"
  have "demux (d_pcbs d) (udp_pcbs d) (raw_of pkt) 0 20 = Some p"
    using p(1) f(5,6) datagram_ports [OF len(1)] by (simp add: demux_def)
  then have "udp_rx [fb] d = Inr (put_ep e (Some (putToRecvQ (Some (udp_peer src (dg_source (datagram_of pkt))), [?fb]) ep)) d)"
    using fb p(2-4) f(5) datagram_ports [OF len(1)]
    by (simp add: udp_rx_def udp_recv_def put_to_socket_def peer_sockaddr_def udp_peer_def Let_def)
  moreover have "drain_skbuf_chain [?fb] = Inr (dg_data (datagram_of pkt))"
    using fb len hslice_raw_of [of pkt 28] datagram_ports(3) [OF len(1)] by (auto simp: span_def)
  ultimately show ?thesis by blast
qed

subsection \<open>From the queue to the answer\<close>

definition datagram_answer :: "byte list \<Rightarrow> sockaddr_in \<Rightarrow> Response" where
  "datagram_answer buf a = \<lparr>retcode = Some RC_OK, returning = RetRecvfrom \<lparr>ret = int (length buf), errno' = None, buf' = Some buf,
     addr' = Some (sockaddr_bytes a)\<rparr>\<rparr>"

lemma queued_is_answered:
  assumes so: "chan_socket c d = Inr (e, ep)" and q: "ep_recvQ ep = [(Some a, fbs)]" and fbs: "drain_skbuf_chain fbs = Inr buf"
  shows "\<exists>d'. recvfromCall c True Response_new d = Inr (datagram_answer buf a, d')"
  using so q fbs
  by (simp add: recvfromCall_def try_takeFromRecvQ_def recv_answer_def answer_ok_def Response_new_def datagram_answer_def)

lemma queued_is_delivered:
  assumes so: "chan_socket c d = Inr (e, ep)" and q: "ep_recvQ ep = [(Some a, fbs)]" and fbs: "drain_skbuf_chain fbs = Inr buf"
    and wait: "ep_waiting ep" "ep_onAsyncNewPacket ep = Some (OnAsyncNewUdpPacket c True)"
    and wr: "byte_size E (datagram_answer buf a) \<le> RPC_MESSAGE_MAX_SIZE" "nwritten E (datagram_answer buf a) \<noteq> -1"
  shows "\<exists>d' ep'. sChannelReadCb E e d = Inr d' \<and> sent_resps d' = sent_resps d @ [(c, datagram_answer buf a)] \<and>
    d_eps d' e = Some ep' \<and> \<not> ep_waiting ep' \<and> ep_recvQ ep' = []"
proof -
  obtain ch where ch: "d_chans d c = Some ch" "ch_socket ch = Some e" "d_eps d e = Some ep"
    using so by (auto simp: chan_socket_def bindr_eq_Inr)
  let ?d0 = "put_ep e (Some (drain_pipe ep)) d" and ?ep1 = "(drain_pipe ep)\<lparr>ep_recvQ := []\<rparr>"
  have "recv_answer True (Some a, fbs) Response_new = Inr (datagram_answer buf a)"
    using fbs by (simp add: recv_answer_def answer_ok_def Response_new_def datagram_answer_def)
  moreover have "chan_socket c ?d0 = Inr (e, drain_pipe ep)" using ch by (simp add: chan_socket_def put_ep_def)
  moreover have "takeFromRecvQ (drain_pipe ep) = Inr ((Some a, fbs), ?ep1)" using q by (simp add: takeFromRecvQ_def drain_pipe_def)
  ultimately have "onAsyncNewUdpPacket E c True ?d0 = chan_write E c (datagram_answer buf a) (put_ep e (Some ?ep1) ?d0)"
    using ch(1) by (simp add: onAsyncNewUdpPacket_def deliver_def put_ep_def)
  also have "\<dots> = Inr ((put_ep e (Some ?ep1) ?d0)\<lparr>sent_resps := sent_resps d @ [(c, datagram_answer buf a)]\<rparr>)"
    using ch(1) wr by (simp add: chan_write_def IsInitialized_def datagram_answer_def put_ep_def)
  finally have cb: "onAsyncNewUdpPacket E c True ?d0 = \<dots>" .
  have "calls_back (drain_pipe ep) = Some (OnAsyncNewUdpPacket c True)" "ep_waiting (drain_pipe ep)"
    using wait by (simp_all add: calls_back_def drain_pipe_def)
  then show ?thesis using ch(3) cb by (simp add: sChannelReadCb_def Let_def put_ep_def setWaiting_def)
qed

text \<open>(C6) Delivery of a UDP datagram. A bound session sends at most 1490 bytes to an address; the packet is
  read from the device by a daemon in any reachable state with nothing else to read, where a
  socket with an empty queue is the best match for it. Then the packet passes both threads,
  and a \<open>recvfrom\<close> on the socket's channel is answered with exactly the bytes sent, their number, and
  the sender's address and port. If the client was already waiting in \<open>recvfrom\<close>, the same answer is
  written to its channel as soon as the event loop looks at the endpoint's pipe, and the waiting ends.\<close>

theorem udp_delivery:
  assumes snd: "lport s \<noteq> 0" "length buf \<le> 1490"
    and rcv: "dmn.reachable d" "d_rxQ d = []" "chan_socket c d = Inr (e, ep)" "ep_recvQ ep = []" "ep_session ep d = Inr (p, UdpPcb u)"
    and best: "find_session (\<lambda>i. map_option pcb_session (d_pcbs d i)) (udp_pcbs d) (laddr s) (lport s) fa fp = Some p"
    and answer: "answer = datagram_answer buf (udp_peer (laddr s) (lport s))"
    and wr: "byte_size E answer \<le> RPC_MESSAGE_MAX_SIZE" "nwritten E answer \<noteq> -1"
  shows "\<exists>s' st' pkt d1 d2. udp_send_to fa fp buf s st = Inr (int (length buf), s', st') \<and> wire st' = wire st @ [pkt] \<and>
    interface_turn (Some pkt) d = Inr d1 \<and> ip_turn E d1 = Inr d2 \<and>
    (\<exists>d3. recvfromCall c True Response_new d2 = Inr (answer, d3)) \<and>
    (ep_waiting ep \<and> ep_onAsyncNewPacket ep = Some (OnAsyncNewUdpPacket c True) \<longrightarrow>
      (\<exists>d3 ep3. sChannelReadCb E e d2 = Inr d3 \<and> sent_resps d3 = sent_resps d @ [(c, answer)] \<and>
        d_eps d3 e = Some ep3 \<and> \<not> ep_waiting ep3 \<and> ep_recvQ ep3 = []))"
proof -
  obtain s' st' pkt where pkt: "udp_send_to fa fp buf s st = Inr (int (length buf), s', st')" "wire st' = wire st @ [pkt]"
    "valid_ip_packet 17 (laddr s) fa pkt" "datagram_of pkt = \<lparr>dg_source = lport s, dg_dest = fp, dg_len = of_nat (length buf + 8),
      dg_check = 0, dg_data = buf\<rparr>" "length pkt = length buf + 28"
    using udp_send_to_tx [OF snd(1), of buf fa fp st] snd(2) by auto
  have len: "28 \<le> length pkt" "length pkt \<le> maxRawBytesSize" using pkt(5) snd(2) by (simp_all add: maxRawBytesSize_def)
  have wf: "daemon_wf d" using daemon_reachable_wf [OF rcv(1)] .
  have ep: "d_eps d e = Some ep" using chan_socketD(1) [OF wf rcv(3)] .
  have u: "d_pcbs d p = Some (UdpPcb u)" "socket_of u = Some e" using ep_sessionD(2,3) [OF wf ep rcv(5)] by simp_all
  obtain fb d1 where d1: "interface_turn (Some pkt) d = Inr d1" "ip_turn E d1 = udp_rx [fb] d" "rawBytes fb = raw_of pkt"
    "network_hdr fb = Raw 0" "transport_hdr fb = Raw 20" "user_payload_end fb = Raw (length pkt)"
    using arrives [OF pkt(3) len(2) rcv(2)] by blast
  let ?a = "udp_peer (laddr s) (lport s)"
  obtain fbs where fbs: "udp_rx [fb] d = Inr (put_ep e (Some (putToRecvQ (Some ?a, fbs) ep)) d)" "drain_skbuf_chain fbs = Inr buf"
    using udp_rx_queues [OF pkt(3) len d1(3-6) _ u ep] best pkt(4) by auto
  let ?ep = "putToRecvQ (Some ?a, fbs) ep" let ?d2 = "put_ep e (Some ?ep) d"
  have q: "ep_recvQ ?ep = [(Some ?a, fbs)]" "ep_waiting ?ep = ep_waiting ep" "ep_onAsyncNewPacket ?ep = ep_onAsyncNewPacket ep"
    using rcv(4) by (simp_all add: putToRecvQ_def enqueue_def markSChannelAsReadable_def)
  have so: "chan_socket c ?d2 = Inr (e, ?ep)" using rcv(3) by (auto simp: chan_socket_def bindr_eq_Inr put_ep_def)
  have "sent_resps ?d2 = sent_resps d" by (simp add: put_ep_def)
  then show ?thesis
    using pkt(1,2) d1(1,2) fbs(1) queued_is_answered [OF so q(1) fbs(2)] queued_is_delivered [OF so q(1) fbs(2), of E] q(2,3) wr
    unfolding answer by (intro exI [of _ s'] exI [of _ st'] exI [of _ pkt] exI [of _ d1] exI [of _ ?d2]) auto
qed

theorem udp_delivery_witness:
  "\<exists>d s' st' pkt d1 d2 d3. dmn.reachable d \<and>
     udp_send_to 1 0 [7, 8, 9] ((Session_new 5)\<lparr>lport := 1025\<rparr>) \<lparr>ip_last = 0, tcp_port = 1024, udp_port = 1024, wire = []\<rparr> =
       Inr (3, s', st') \<and> wire st' = [pkt] \<and> interface_turn (Some pkt) d = Inr d1 \<and> ip_turn sample_env d1 = Inr d2 \<and>
     recvfromCall 0 True Response_new d2 = Inr (datagram_answer [7, 8, 9] (udp_peer 5 1025), d3)"
proof -
  let ?s = "(Session_new 5)\<lparr>lport := 1025\<rparr>" and ?u = "(Session_new 1)\<lparr>socket_of := Some 1\<rparr>"
  obtain d where d: "dmn.reachable d" "d_chans d 0 = Some \<lparr>ch_peer = [], ch_peerPid = None, ch_socket = Some 1\<rparr>"
    "d_eps d 1 = Some (fresh_ep 0 2 False False)" "d_pcbs d 2 = Some (UdpPcb ?u)" "udp_pcbs d = [2]" "d_rxQ d = []"
    using sample_reachable by blast
  have so: "chan_socket 0 d = Inr (1, fresh_ep 0 2 False False)" using d(2,3) by (simp add: chan_socket_def)
  have se: "ep_session (fresh_ep 0 2 False False) d = Inr (2, UdpPcb ?u)" using d(4) by (simp add: ep_session_def)
  have best: "find_session (\<lambda>i. map_option pcb_session (d_pcbs d i)) (udp_pcbs d) (laddr ?s) (lport ?s) 1 0 = Some 2"
    using d(4,5) by (simp add: find_session_def match_score_def in_addr_match_def Session_new_def Let_def)
  have wr: "byte_size sample_env r \<le> RPC_MESSAGE_MAX_SIZE" "nwritten sample_env r \<noteq> -1" for r by (simp_all add: sample_env_def)
  have "lport ?s \<noteq> 0" "length [7, 8, 9 :: byte] \<le> 1490" "ep_recvQ (fresh_ep 0 2 False False) = []" by simp_all
  from udp_delivery [OF this(1,2) d(1,6) so this(3) se best refl wr, of "\<lparr>ip_last = 0, tcp_port = 1024, udp_port = 1024, wire = []\<rparr>"]
  obtain s' st' pkt d1 d2 d3 where "udp_send_to 1 0 [7, 8, 9] ?s \<lparr>ip_last = 0, tcp_port = 1024, udp_port = 1024, wire = []\<rparr> =
      Inr (int (length [7, 8, 9 :: byte]), s', st')" "wire st' = wire \<lparr>ip_last = 0, tcp_port = 1024, udp_port = 1024, wire = []\<rparr> @ [pkt]"
    "interface_turn (Some pkt) d = Inr d1" "ip_turn sample_env d1 = Inr d2"
    "recvfromCall 0 True Response_new d2 = Inr (datagram_answer [7, 8, 9] (udp_peer (laddr ?s) (lport ?s)), d3)" by blast
  then show ?thesis using d(1)
    by (intro exI [of _ d] exI [of _ s'] exI [of _ st'] exI [of _ pkt] exI [of _ d1] exI [of _ d2] exI [of _ d3])
      (simp add: Session_new_def)
qed

end
