(* ===== verification/Whole_System.thy ===== *)
theory Whole_System
  imports Interceptor Udp_Delivery
begin

unbundle bit_operations_syntax

section \<open>Clients and daemon together\<close>

text \<open>
  The interceptor talks to an environment, the daemon to a kernel and a message library. Here the
  environment of the interceptor is built from the daemon: a process whose \<open>world\<close> holds the daemon's
  state, with the Unix sockets between the two as unix(7) and seqpacket sockets are documented - messages arrive
  whole and in order, the end that lost its peer reads end of file.

  A write to a channel makes it readable, and the daemon's loop takes its turn for it at once. A read waits:
  while no response is there, the daemon does what is next on the schedule \<open>w_sched\<close>: packets, the IP thread, handles of the loop that
  are readable. Requests, connections and hang-ups of other clients are not among it (\<open>quiet\<close>); these clients make their calls before or after. A read that
  would wait for ever is one that is interrupted again and again. The daemon that hit a fault is gone,
  but for \<open>WouldBlock\<close>, where its loop is stuck. All other calls of the process go to an environment
  of its own, \<open>B\<close>. The message library (\<open>codec\<close>) and the numbers of new descriptors
  (\<open>kernel\<close>) are parameters.
\<close>

record codec =
  pack_request :: "Request \<Rightarrow> byte list"
  parse_request :: "byte list option \<Rightarrow> Request"
  serialize_response :: "Response \<Rightarrow> byte list"
  unpack_response :: "byte list \<Rightarrow> Response option"

record kernel =
  pipe_fds :: "daemon \<Rightarrow> int \<times> int"
  accept_fd :: "daemon \<Rightarrow> int"

datatype connection = Accepted nat | Backlog

text \<open>A packet (or a failure) read by the interface thread, a turn of the IP thread, a handle of the loop that is
  readable.\<close>

datatype daemon_event = Net "byte list option" | Packet | Ready handle

record 'k world =
  w_daemon :: "daemon res"
  w_conn :: "int \<Rightarrow> connection option"
  w_unread :: "nat \<Rightarrow> byte list list"
  w_sched :: "daemon_event list"
  w_rest :: 'k

subsection \<open>Steps of the daemon\<close>

definition sys_denv :: "codec \<Rightarrow> kernel \<Rightarrow> (nat \<Rightarrow> rd) \<Rightarrow> int list \<Rightarrow> daemon \<Rightarrow> denv" where
  "sys_denv C K rd acc d = \<lparr>read_msg = rd, accepted = acc, ParseFromArray = parse_request C,
     byte_size = (\<lambda>r. length (serialize_response C r)), nwritten = (\<lambda>r. int (length (serialize_response C r))),
     so_pipe = fst (pipe_fds K d), estab_pipe = snd (pipe_fds K d)\<rparr>"

definition loop_event :: "denv \<Rightarrow> handle \<Rightarrow> u32 \<Rightarrow> daemon \<Rightarrow> daemon res" where
  "loop_event E h ev d =
     (if List.member (loop_channels (d_loop d)) h then reactor_turn E (Some [(h, ev)]) d else Inr d)"

definition quiet :: "nat \<Rightarrow> rd" where
  "quiet c = RdError True"

fun run_event :: "codec \<Rightarrow> kernel \<Rightarrow> daemon_event \<Rightarrow> daemon \<Rightarrow> daemon res" where
  "run_event C K (Net rd) d = interface_turn rd d"
| "run_event C K Packet d = (if d_rxQ d = [] then Inr d else ip_turn (sys_denv C K quiet [] d) d)"
| "run_event C K (Ready h) d = loop_event (sys_denv C K quiet [] d) h POLLIN d"

text \<open>What the daemon wrote in the step is now to be read by the clients.\<close>

definition advance :: "codec \<Rightarrow> (daemon \<Rightarrow> daemon res) \<Rightarrow> 'k world \<Rightarrow> 'k world" where
  "advance C f w =
     (case w_daemon w of
        Inl x \<Rightarrow> w
      | Inr d \<Rightarrow>
          (case f d of
             Inl x \<Rightarrow> w\<lparr>w_daemon := Inl x\<rparr>
           | Inr d' \<Rightarrow> w\<lparr>w_daemon := Inr d', w_unread := (\<lambda>c. w_unread w c @
               map (serialize_response C \<circ> snd) (filter (\<lambda>m. fst m = c) (drop (length (sent_resps d)) (sent_resps d'))))\<rparr>))"

fun await :: "codec \<Rightarrow> kernel \<Rightarrow> nat \<Rightarrow> daemon_event list \<Rightarrow> 'k world \<Rightarrow> 'k world" where
  "await C K c [] w = w\<lparr>w_sched := []\<rparr>"
| "await C K c (ev # evs) w =
     (if w_unread w c \<noteq> [] then w\<lparr>w_sched := ev # evs\<rparr> else await C K c evs (advance C (run_event C K ev) w))"

subsection \<open>The calls of the client's kernel\<close>

definition on_rest :: "('k \<Rightarrow> 'r \<times> int \<times> 'k) \<Rightarrow> 'k world \<Rightarrow> 'r \<times> int \<times> 'k world" where
  "on_rest f w = (case f (w_rest w) of (r, e, k) \<Rightarrow> (r, e, w\<lparr>w_rest := k\<rparr>))"

definition EINTR :: int where "EINTR = 4"
definition EPIPE :: int where "EPIPE = 32"
definition ECONNREFUSED :: int where "ECONNREFUSED = 111"

definition sys_connect :: "codec \<Rightarrow> kernel \<Rightarrow> 'k env \<Rightarrow> int \<Rightarrow> byte list option \<Rightarrow> nat \<Rightarrow> 'k world \<Rightarrow> int \<times> int \<times> 'k world" where
  "sys_connect C K B fd addr len w =
     (if addr \<noteq> Some master_sockaddr then on_rest (g_connect B fd addr len) w
      else (case w_daemon w of
          Inl x \<Rightarrow> if x = WouldBlock then (0, 0, w\<lparr>w_conn := (w_conn w)(fd := Some Backlog)\<rparr>) else (-1, ECONNREFUSED, w)
        | Inr d \<Rightarrow>
            if \<not> List.member (loop_channels (d_loop d)) HListener then (0, 0, w\<lparr>w_conn := (w_conn w)(fd := Some Backlog)\<rparr>)
            else (0, 0, advance C (\<lambda>d. loop_event (sys_denv C K quiet [accept_fd K d] d) HListener POLLIN d)
                   (w\<lparr>w_conn := (w_conn w)(fd := Some (Accepted (d_fresh d))), w_unread := (w_unread w)(d_fresh d := [])\<rparr>))))"

definition sys_write :: "codec \<Rightarrow> kernel \<Rightarrow> 'k env \<Rightarrow> int \<Rightarrow> byte list option \<Rightarrow> nat \<Rightarrow> 'k world \<Rightarrow> int \<times> int \<times> 'k world" where
  "sys_write C K B fd buf n w =
     (case w_conn w fd of
        None \<Rightarrow> on_rest (g_write B fd buf n) w
      | Some Backlog \<Rightarrow> (int n, 0, w)
      | Some (Accepted c) \<Rightarrow>
          (case w_daemon w of
             Inl x \<Rightarrow> if x = WouldBlock then (int n, 0, w) else (-1, EPIPE, w)
           | Inr _ \<Rightarrow>
               (int n, 0, advance C (\<lambda>d. loop_event (sys_denv C K (quiet(c := RdBytes (take n (the buf)))) [] d) (HChannel c) POLLIN d) w)))"

definition sys_read :: "codec \<Rightarrow> kernel \<Rightarrow> 'k env \<Rightarrow> int \<Rightarrow> nat option \<Rightarrow> nat \<Rightarrow> 'k world \<Rightarrow> io \<times> int \<times> 'k world" where
  "sys_read C K B fd buf n w =
     (case w_conn w fd of
        None \<Rightarrow> on_rest (g_read B fd buf n) w
      | Some Backlog \<Rightarrow> (io_plain (-1), EINTR, w)
      | Some (Accepted c) \<Rightarrow>
          (let w1 = await C K c (w_sched w) w in
           case w_unread w1 c of
             m # ms \<Rightarrow>
               (\<lparr>io_ret = int (length (take n m)), io_buf = take n m, io_addr = [], io_addrlen = None\<rparr>, 0,
                w1\<lparr>w_unread := (w_unread w1)(c := ms)\<rparr>)
           | [] \<Rightarrow>
               (case w_daemon w1 of
                  Inr _ \<Rightarrow> (io_plain (-1), EINTR, w1)
                | Inl x \<Rightarrow> if x = WouldBlock then (io_plain (-1), EINTR, w1) else (io_plain 0, 0, w1))))"

text \<open>Closing the client's end hangs up the daemon's: the descriptor is the only reference to it, there is no child that inherited a copy.\<close>

definition sys_close :: "codec \<Rightarrow> kernel \<Rightarrow> 'k env \<Rightarrow> int \<Rightarrow> 'k world \<Rightarrow> int \<times> int \<times> 'k world" where
  "sys_close C K B fd w =
     (case w_conn w fd of
        Some (Accepted c) \<Rightarrow>
          (0, 0, advance C (\<lambda>d. loop_event (sys_denv C K (quiet(c := RdEof)) [] d) (HChannel c) (POLLIN OR POLLHUP) d)
                   (w\<lparr>w_conn := (w_conn w)(fd := None)\<rparr>))
      | Some Backlog \<Rightarrow> (0, 0, w\<lparr>w_conn := (w_conn w)(fd := None)\<rparr>)
      | None \<Rightarrow> on_rest (g_close B fd) w)"

definition sys_env :: "codec \<Rightarrow> kernel \<Rightarrow> 'k env \<Rightarrow> 'k world env" where
  "sys_env C K B = \<lparr>
     g_socket = (\<lambda>d t p. on_rest (g_socket B d t p)), g_connect = sys_connect C K B, g_close = sys_close C K B,
     g_read = sys_read C K B, g_write = sys_write C K B, g_send = (\<lambda>fd b n f. on_rest (g_send B fd b n f)),
     g_sendto = (\<lambda>fd b n f a l. on_rest (g_sendto B fd b n f a l)), g_recv = (\<lambda>fd b n f. on_rest (g_recv B fd b n f)),
     g_recvfrom = (\<lambda>fd b n f a l. on_rest (g_recvfrom B fd b n f a l)), g_poll = (\<lambda>ps t. on_rest (g_poll B ps t)),
     g_select = (\<lambda>n r w e t. on_rest (g_select B n r w e t)), g_getpeername = (\<lambda>fd a l. on_rest (g_getpeername B fd a l)),
     g_getsockname = (\<lambda>fd a l. on_rest (g_getsockname B fd a l)), g_getsockopt = (\<lambda>fd l n v m. on_rest (g_getsockopt B fd l n v m)),
     g_setsockopt = (\<lambda>fd l n v m. on_rest (g_setsockopt B fd l n v m)), g_fcntl = (\<lambda>fd c a. on_rest (g_fcntl B fd c a)),
     request__get_packed_size = (\<lambda>r. length (pack_request C r)), request__pack = pack_request C,
     response__unpack = unpack_response C, recv_fuel = recv_fuel B\<rparr>"

subsection \<open>A turn of the loop for one handle\<close>

text \<open>The loop notes the event in the handle before the callback, and clears the note after it.\<close>

definition marked :: "handle \<Rightarrow> daemon \<Rightarrow> daemon" where
  "marked h d = (case io_handles (d_loop d) h of
     None \<Rightarrow> d
   | Some i \<Rightarrow> set_loop (put_handle h (Some (i\<lparr>eventsReceived := POLLIN, handlingEvents := True\<rparr>)) (d_loop d)) d)"

definition unmarked :: "handle \<Rightarrow> daemon \<Rightarrow> daemon" where
  "unmarked h d = (case io_handles (d_loop d) h of
     None \<Rightarrow> d
   | Some i \<Rightarrow> set_loop (put_handle h (Some (i\<lparr>handlingEvents := False\<rparr>)) (d_loop d)) d)"

lemma marked_simps [simp]:
  "d_chans (marked h d) = d_chans d" "d_eps (marked h d) = d_eps d" "d_pcbs (marked h d) = d_pcbs d"
  "sent_resps (marked h d) = sent_resps d" "d_rxQ (marked h d) = d_rxQ d" "stack_addr (marked h d) = stack_addr d"
  "tcp_pcbs (marked h d) = tcp_pcbs d" "udp_pcbs (marked h d) = udp_pcbs d" "wire (marked h d) = wire d"
  "loop_channels (d_loop (marked h d)) = loop_channels (d_loop d)"
  by (simp_all add: marked_def set_loop_def put_handle_def split: option.split)

lemma unmarked_simps [simp]:
  "d_chans (unmarked h d) = d_chans d" "d_eps (unmarked h d) = d_eps d" "d_pcbs (unmarked h d) = d_pcbs d"
  "sent_resps (unmarked h d) = sent_resps d" "d_rxQ (unmarked h d) = d_rxQ d" "stack_addr (unmarked h d) = stack_addr d"
  "tcp_pcbs (unmarked h d) = tcp_pcbs d" "udp_pcbs (unmarked h d) = udp_pcbs d" "wire (unmarked h d) = wire d"
  "loop_channels (d_loop (unmarked h d)) = loop_channels (d_loop d)"
  by (simp_all add: unmarked_def set_loop_def put_handle_def split: option.split)

lemma callbacks_for_POLLIN [simp]: "callbacks_for POLLIN = [OnRead]"
  by (simp add: callbacks_for_def poll_defs)

lemma marked_turn:
  assumes h: "io_handles (d_loop d) h \<noteq> None" and f: "daemon_cb E h OnRead = Some f"
  shows "reactor_turn E (Some [(h, POLLIN)]) d =
    bindr (f (marked h d)) (\<lambda>d1. if io_handles (d_loop d1) h = None then Inl UseAfterFree else Inr (unmarked h d1))"
proof -
  obtain i where i: "io_handles (d_loop d) h = Some i" using h by blast
  have "call_back d_loop (daemon_cb E) h OnRead (marked h d) = f (marked h d)"
    using i f by (simp add: call_back_def marked_def set_loop_def put_handle_def)
  then show ?thesis using i f
    by (simp add: reactor_turn_def loop_turn_def maxEventsReceivedEachPoll_def handleEventsReceived_def set_handling_def
        marked_def unmarked_def set_loop_def put_handle_def bindr_def liver_def split: sum.split option.split)
qed

lemma reachable_marked: "dmn.reachable d \<Longrightarrow> dmn.reachable (marked h d)"
  using dmn.reach_step [OF _ daemon_step.flags] by (auto simp: marked_def split: option.split)

lemma reachable_unmarked: "dmn.reachable d \<Longrightarrow> dmn.reachable (unmarked h d)"
proof (cases "io_handles (d_loop d) h")
  case (Some i)
  assume "dmn.reachable d"
  then have "dmn.reachable (set_loop (put_handle h (Some (i\<lparr>eventsReceived := eventsReceived i, handlingEvents := False\<rparr>)) (d_loop d)) d)"
    using dmn.reach_step [OF _ daemon_step.flags] Some by blast
  then show ?thesis using Some by (simp add: unmarked_def)
qed (simp add: unmarked_def)

lemma env_ok_marked [simp]: "env_ok E (marked h d) = env_ok E d"
  by (auto simp: env_ok_def unused_fd_def marked_def set_loop_def put_handle_def split: option.splits)

text \<open>accept(2) and pipe(2) return descriptors that are not in use.\<close>

definition kernel_ok :: "kernel \<Rightarrow> bool" where
  "kernel_ok K \<longleftrightarrow> (\<forall>d. dmn.reachable d \<longrightarrow> unused_fd (fst (pipe_fds K d)) d \<and> unused_fd (snd (pipe_fds K d)) d \<and>
     fst (pipe_fds K d) \<noteq> snd (pipe_fds K d) \<and> unused_fd (accept_fd K d) d)"

lemma kernel_env_ok: "kernel_ok K \<Longrightarrow> dmn.reachable d \<Longrightarrow> env_ok (sys_denv C K rd acc d) d"
  by (simp add: kernel_ok_def env_ok_def sys_denv_def)

lemma sys_denv_simps [simp]:
  "read_msg (sys_denv C K rd acc d) = rd" "accepted (sys_denv C K rd acc d) = acc"
  "ParseFromArray (sys_denv C K rd acc d) = parse_request C"
  "byte_size (sys_denv C K rd acc d) r = length (serialize_response C r)"
  "nwritten (sys_denv C K rd acc d) r = int (length (serialize_response C r))"
  by (simp_all add: sys_denv_def)

lemma registered_live:
  assumes "dmn.reachable d" "h \<in> set (loop_channels (d_loop d))"
  shows "io_handles (d_loop d) h \<noteq> None" "live d h"
proof -
  have wf: "objects_wf d" using daemon_wfD(1) [OF daemon_reachable_wf [OF assms(1)]] .
  show "io_handles (d_loop d) h \<noteq> None" using reactor_wfD(2) [OF objects_wfD(1) [OF wf], of h] assms(2) by auto
  then show "live d h" using objects_wfD(2) [OF wf] by blast
qed

lemma OnRead_callback: "\<exists>f. daemon_cb E h OnRead = Some f"
  by (cases h) auto

lemma loop_event_reachable:
  assumes r: "dmn.reachable d" and env: "env_ok E d" "fresh_fds (accepted E) (marked h d)" and e: "loop_event E h POLLIN d = Inr d'"
  shows "dmn.reachable d'"
proof (cases "h \<in> set (loop_channels (d_loop d))")
  case True
  note h = registered_live(1) [OF r True]
  obtain f where f: "daemon_cb E h OnRead = Some f" using OnRead_callback by blast
  obtain d1 where d1: "f (marked h d) = Inr d1" "d' = unmarked h d1"
    using e True marked_turn [OF h f] by (auto simp: loop_event_def bindr_eq_Inr split: if_splits)
  have "io_handles (d_loop (marked h d)) h \<noteq> None" using h by (auto simp: marked_def set_loop_def put_handle_def)
  from daemon_step.event [OF this _ env(2) f d1(1)] env(1) have "daemon_step (marked h d) d1" by simp
  then show ?thesis using d1(2) reachable_unmarked dmn.reach_step [OF reachable_marked [OF r]] by blast
qed (use e r in \<open>simp add: loop_event_def\<close>)

lemma run_event_reachable:
  assumes "kernel_ok K" "dmn.reachable d" "run_event C K ev d = Inr d'"
  shows "dmn.reachable d'"
proof (cases ev)
  case (Net rd)
  then show ?thesis using assms dmn.reach_step [OF _ daemon_step.device] by auto
next
  case Packet
  then show ?thesis using assms dmn.reach_step [OF _ daemon_step.packet] by (auto split: if_splits)
next
  case (Ready h)
  then show ?thesis using loop_event_reachable [OF assms(2) kernel_env_ok [OF assms(1,2)], of C quiet "[]" h d'] assms(3) by simp
qed

lemma request_turn:
  assumes k: "kernel_ok K" and r: "dmn.reachable d" and c: "HChannel c \<in> set (loop_channels (d_loop d))"
    and E: "E = sys_denv C K (quiet(c := RdBytes bs)) [] d"
  shows "loop_event E (HChannel c) POLLIN d =
    bindr (handleRequest E c (parse_request C (Some bs)) (marked (HChannel c) d)) (\<lambda>(resp, d1).
      if retcode resp = None \<or> RPC_MESSAGE_MAX_SIZE < length (serialize_response C resp) then Inl AssertFailed
      else Inr (unmarked (HChannel c) (d1\<lparr>sent_resps := sent_resps d1 @ [(c, resp)]\<rparr>)))"
proof -
  let ?h = "HChannel c" let ?d = "marked ?h d"
  have l: "io_handles (d_loop d) ?h \<noteq> None" "d_chans d c \<noteq> None" using registered_live [OF r c] by simp_all
  have wf: "daemon_wf ?d" using daemon_reachable_wf [OF reachable_marked [OF r]] .
  have env: "env_ok E ?d" using kernel_env_ok [OF k r] E by simp
  have o': "onReadReady E c ?d = bindr (handleRequest E c (parse_request C (Some bs)) ?d) (\<lambda>(resp, d1). chan_write E c resp d1)"
    using l(2) E by (auto simp: onReadReady_def liver_def)
  have w: "bindr (chan_write E c resp d1) (\<lambda>d1. if io_handles (d_loop d1) ?h = None then Inl UseAfterFree else Inr (unmarked ?h d1)) =
      (if retcode resp = None \<or> RPC_MESSAGE_MAX_SIZE < length (serialize_response C resp) then Inl AssertFailed
       else Inr (unmarked ?h (d1\<lparr>sent_resps := sent_resps d1 @ [(c, resp)]\<rparr>)))"
    if "handleRequest E c (parse_request C (Some bs)) ?d = Inr (resp, d1)" for resp d1
  proof -
    have "served ?d c d1" using handleRequest_served [OF wf env _ that] l(2) by simp
    then have "io_handles (d_loop d1) ?h \<noteq> None" "d_chans d1 c \<noteq> None"
      using objects_wfD(2) [OF daemon_wfD(1), of d1 ?h] by (simp_all add: served_def)
    then show ?thesis using E by (auto simp: chan_write_def IsInitialized_def assertr_def bindr_def)
  qed
  show ?thesis unfolding loop_event_def marked_turn [OF l(1), of E "onReadReady E c", simplified] o' using c w
    by (auto simp: bindr_def split: sum.split)
qed

subsection \<open>A remote call is a call\<close>

lemma sys_env_simps [simp]:
  "g_write (sys_env C K B) = sys_write C K B" "g_read (sys_env C K B) = sys_read C K B"
  "g_connect (sys_env C K B) = sys_connect C K B" "g_close (sys_env C K B) = sys_close C K B"
  "g_socket (sys_env C K B) af t p = on_rest (g_socket B af t p)"
  "Rr_Channel.request__get_packed_size (sys_env C K B) r = length (pack_request C r)"
  "Rr_Channel.request__pack (sys_env C K B) = pack_request C"
  "Rr_Channel.response__unpack (sys_env C K B) = unpack_response C" "recv_fuel (sys_env C K B) = recv_fuel B"
  by (simp_all add: sys_env_def)

text \<open>The messages a codec gets across.\<close>

definition carries_request :: "codec \<Rightarrow> Request \<Rightarrow> bool" where
  "carries_request C r \<longleftrightarrow> parse_request C (Some (pack_request C r)) = r \<and> length (pack_request C r) \<le> RPC_MESSAGE_MAX_SIZE"

definition carries_response :: "codec \<Rightarrow> Response \<Rightarrow> bool" where
  "carries_response C r \<longleftrightarrow> unpack_response C (serialize_response C r) = Some r \<and> serialize_response C r \<noteq> [] \<and>
     length (serialize_response C r) \<le> RPC_MESSAGE_MAX_SIZE"

lemma await_unread: "w_unread w c \<noteq> [] \<Longrightarrow> await C K c (w_sched w) w = w"
  by (cases "w_sched w") auto

lemma advance_dead [simp]: "w_daemon w = Inl x \<Longrightarrow> advance C f w = w"
  by (simp add: advance_def)

lemma advance_answer:
  assumes "w_daemon w = Inr d" "f d = Inr d'" "sent_resps d' = sent_resps d @ [(c, resp)]"
  shows "advance C f w = w\<lparr>w_daemon := Inr d', w_unread := (w_unread w)(c := w_unread w c @ [serialize_response C resp])\<rparr>"
proof -
  have "(\<lambda>x. w_unread w x @ map (serialize_response C \<circ> snd) (filter (\<lambda>m. fst m = x) [(c, resp)])) =
      (w_unread w)(c := w_unread w c @ [serialize_response C resp])" by (rule ext) simp
  then show ?thesis using assms by (simp add: advance_def)
qed

lemma await_dead: "w_daemon w = Inl x \<Longrightarrow> w_unread w c = [] \<Longrightarrow> await C K c evs w = w\<lparr>w_sched := []\<rparr>"
  by (induction evs) auto

lemma sys_read_message:
  assumes "w_conn (world s) ch = Some (Accepted c)" "w_unread (world s) c = serialize_response C resp # ms" "carries_response C resp"
  shows "glibc (sys_read C K B ch (Some RPC_MESSAGE_MAX_SIZE) RPC_MESSAGE_MAX_SIZE) s =
    (\<lparr>io_ret = int (length (serialize_response C resp)), io_buf = serialize_response C resp, io_addr = [], io_addrlen = None\<rparr>,
     s\<lparr>errno := 0, world := (world s)\<lparr>w_unread := (w_unread (world s))(c := ms)\<rparr>\<rparr>)"
  using assms await_unread [of "world s" c C K] by (simp add: glibc_def sys_read_def carries_response_def Let_def)

lemma recv_message:
  assumes "w_conn (world s) ch = Some (Accepted c)" "w_unread (world s) c = serialize_response C resp # ms" "carries_response C resp"
    and "0 < recv_fuel B" "s' = s\<lparr>errno := 0, world := (world s)\<lparr>w_unread := (w_unread (world s))(c := ms)\<rparr>\<rparr>"
  shows "chan_recv_loop (sys_env C K B) ch (Suc n) s =
    (if retcode resp = Some RC_WAIT_NEXT then chan_recv_loop (sys_env C K B) ch n s' else Inr (resp, s'))"
proof -
  obtain m where "recv_fuel B = Suc m" using assms(4) gr0_implies_Suc by blast
  then have "while_eintr (sys_env C K B) ch (recv_fuel B) s =
      Inr (\<lparr>io_ret = int (length (serialize_response C resp)), io_buf = serialize_response C resp, io_addr = [], io_addrlen = None\<rparr>, s')"
    using sys_read_message [OF assms(1-3)] assms(5) by simp
  then show ?thesis using assms(3) by (simp add: carries_response_def)
qed

lemma recv_dead:
  assumes "w_conn (world s) ch = Some (Accepted c)" "w_unread (world s) c = []" "w_daemon (world s) = Inl x" "x \<noteq> WouldBlock"
    and "0 < recv_fuel B"
  shows "chan_recv_loop (sys_env C K B) ch (Suc n) s = Inl AssertFailed"
proof -
  obtain m where "recv_fuel B = Suc m" using assms(5) gr0_implies_Suc by blast
  then show ?thesis using assms await_dead [OF assms(3,2), of C K "w_sched (world s)"]
    by (simp add: glibc_def sys_read_def Let_def io_plain_def)
qed

lemma transact_sends:
  assumes "w_daemon (world s) = Inr d" "w_conn (world s) ch = Some (Accepted c)" "carries_request C req"
  shows "transact (sys_env C K B) ch req s = chan_recv_loop (sys_env C K B) ch (recv_fuel B) (s\<lparr>errno := 0, world :=
    advance C (\<lambda>d. loop_event (sys_denv C K (quiet(c := RdBytes (pack_request C req))) [] d) (HChannel c) POLLIN d) (world s)\<rparr>)"
  using assms by (simp add: transact_def chan_send_def chan_recv_def carries_request_def glibc_def sys_write_def Let_def)

lemma failed_call:
  assumes daemon: "w_daemon (world s) = Inr d" "dmn.reachable d" "kernel_ok K"
    and conn: "w_conn (world s) ch = Some (Accepted c)" "w_unread (world s) c = []" "HChannel c \<in> set (loop_channels (d_loop d))"
    and msg: "carries_request C req" "recv_fuel B = Suc n"
    and E: "E = sys_denv C K (quiet(c := RdBytes (pack_request C req))) [] d"
    and h: "handleRequest E c req (marked (HChannel c) d) = Inl x \<and> x \<noteq> WouldBlock \<or>
      handleRequest E c req (marked (HChannel c) d) = Inr (resp, d1) \<and> retcode resp = None"
  shows "transact (sys_env C K B) ch req s = Inl AssertFailed"
proof -
  let ?f = "\<lambda>d. loop_event (sys_denv C K (quiet(c := RdBytes (pack_request C req))) [] d) (HChannel c) POLLIN d"
  have parse: "parse_request C (Some (pack_request C req)) = req" using msg(1) by (simp add: carries_request_def)
  obtain y where y: "?f d = Inl y" "y \<noteq> WouldBlock"
    using request_turn [OF daemon(3,2) conn(3) E] h unfolding parse E by (auto simp: bindr_def)
  then have "advance C ?f (world s) = (world s)\<lparr>w_daemon := Inl y\<rparr>" using daemon(1) by (simp add: advance_def)
  then show ?thesis
    unfolding transact_sends [OF daemon(1) conn(1) msg(1)] msg(2) using y conn msg(2) by (intro recv_dead [of _ _ c y]) simp_all
qed

lemma answered_call:
  assumes daemon: "w_daemon (world s) = Inr d" "dmn.reachable d" "kernel_ok K"
    and conn: "w_conn (world s) ch = Some (Accepted c)" "w_unread (world s) c = []" "HChannel c \<in> set (loop_channels (d_loop d))"
    and msg: "carries_request C req" "recv_fuel B = Suc n"
    and E: "E = sys_denv C K (quiet(c := RdBytes (pack_request C req))) [] d"
    and h: "handleRequest E c req (marked (HChannel c) d) = Inr (resp, d1)" "retcode resp \<noteq> None" "carries_response C resp"
    and s': "s' = s\<lparr>errno := 0, world := (world s)\<lparr>w_daemon := Inr (unmarked (HChannel c) (d1\<lparr>sent_resps := sent_resps d @ [(c, resp)]\<rparr>))\<rparr>\<rparr>"
  shows "transact (sys_env C K B) ch req s =
      (if retcode resp = Some RC_WAIT_NEXT then chan_recv_loop (sys_env C K B) ch n s' else Inr (resp, s'))"
    and "dmn.reachable (unmarked (HChannel c) (d1\<lparr>sent_resps := sent_resps d @ [(c, resp)]\<rparr>))"
proof -
  let ?h = "HChannel c" let ?w = "world s" let ?d = "unmarked ?h (d1\<lparr>sent_resps := sent_resps d @ [(c, resp)]\<rparr>)"
  let ?f = "\<lambda>d. loop_event (sys_denv C K (quiet(c := RdBytes (pack_request C req))) [] d) ?h POLLIN d"
  have parse: "parse_request C (Some (pack_request C req)) = req" using msg(1) by (simp add: carries_request_def)
  have env: "env_ok E (marked ?h d)" using kernel_env_ok [OF daemon(3,2)] E by simp
  have l: "d_chans (marked ?h d) c \<noteq> None" using registered_live(2) [OF daemon(2) conn(3)] by simp
  have sr: "sent_resps d1 = sent_resps d"
    using handleRequest_served [OF daemon_reachable_wf [OF reachable_marked [OF daemon(2)]] env l h(1)] by (simp add: served_def)
  have fd: "?f d = Inr ?d"
    using request_turn [OF daemon(3,2) conn(3) E] h sr unfolding parse E by (simp add: bindr_def carries_response_def)
  show "dmn.reachable ?d" by (rule loop_event_reachable [OF daemon(2) kernel_env_ok [OF daemon(3,2)] _ fd]) simp
  have w: "advance C ?f ?w = ?w\<lparr>w_daemon := Inr ?d, w_unread := (w_unread ?w)(c := [serialize_response C resp])\<rparr>"
    using advance_answer [of ?w d ?f ?d c resp C] fd daemon(1) conn(2) by simp
  have same: "(w_unread ?w)(c := []) = w_unread ?w" using conn(2) by auto
  show "transact (sys_env C K B) ch req s =
      (if retcode resp = Some RC_WAIT_NEXT then chan_recv_loop (sys_env C K B) ch n s' else Inr (resp, s'))"
    unfolding transact_sends [OF daemon(1) conn(1) msg(1)] msg(2) w using h(3) conn(1) msg(2) s'
    by (intro recv_message [of _ _ c _ _ "[]"]) (simp_all add: same)
qed

text \<open>A remote call is a call. A client with a connected channel makes a request; the daemon is in any reachable state.
  If \<open>handleRequest\<close> serves the request with a completed response, the client's transaction returns
  exactly that response, or goes on waiting when it says \<open>WAIT_NEXT\<close>; the daemon is in the state the handler
  left, which is reachable again, with the response in its log, and nothing else changed for any client. If the
  handler fails or leaves the response incomplete, the daemon stops at an assertion, and the client after it, at its own.\<close>

theorem remote_call:
  assumes daemon: "w_daemon (world s) = Inr d" "dmn.reachable d" "kernel_ok K"
    and conn: "w_conn (world s) ch = Some (Accepted c)" "w_unread (world s) c = []" "HChannel c \<in> set (loop_channels (d_loop d))"
    and msg: "carries_request C req" "recv_fuel B = Suc n"
    and E: "E = sys_denv C K (quiet(c := RdBytes (pack_request C req))) [] d"
  shows "case handleRequest E c req (marked (HChannel c) d) of
      Inl x \<Rightarrow> x \<noteq> WouldBlock \<longrightarrow> transact (sys_env C K B) ch req s = Inl AssertFailed
    | Inr (resp, d1) \<Rightarrow>
        (let d' = unmarked (HChannel c) (d1\<lparr>sent_resps := sent_resps d @ [(c, resp)]\<rparr>);
             s' = s\<lparr>errno := 0, world := (world s)\<lparr>w_daemon := Inr d'\<rparr>\<rparr> in
         if retcode resp = None then transact (sys_env C K B) ch req s = Inl AssertFailed
         else carries_response C resp \<longrightarrow> dmn.reachable d' \<and>
           transact (sys_env C K B) ch req s =
             (if retcode resp = Some RC_WAIT_NEXT then chan_recv_loop (sys_env C K B) ch n s' else Inr (resp, s')))"
proof (cases "handleRequest E c req (marked (HChannel c) d)")
  case (Inl x)
  then show ?thesis using failed_call [OF daemon conn msg E] by simp
next
  case (Inr rd)
  obtain resp d1 where "rd = (resp, d1)" by (cases rd)
  then show ?thesis using Inr failed_call [OF daemon conn msg E] answered_call [OF daemon conn msg E _ _ _ refl] by (simp add: Let_def)
qed

text \<open>A kernel that numbers descriptors above all that are in use, and a codec that numbers messages.\<close>

definition used_fds :: "daemon \<Rightarrow> int list" where
  "used_fds d = concat (map (\<lambda>h. case io_handles (d_loop d) h of None \<Rightarrow> [] | Some i \<Rightarrow> [h_fd i])
     (HListener # concat (map (\<lambda>n. [HChannel n, HSocket n, HEstab n]) [0..<d_fresh d])))"

definition top_fd :: "daemon \<Rightarrow> int" where
  "top_fd d = Max (insert 0 (set (used_fds d)))"

definition counting_kernel :: kernel where
  "counting_kernel = \<lparr>pipe_fds = (\<lambda>d. (top_fd d + 1, top_fd d + 2)), accept_fd = (\<lambda>d. top_fd d + 1)\<rparr>"

lemma above_top_unused:
  assumes "daemon_wf d" "top_fd d < fd"
  shows "unused_fd fd d"
  unfolding unused_fd_def
proof (intro allI impI)
  fix h i assume i: "io_handles (d_loop d) h = Some i"
  have l: "live d h" using objects_wfD(2) [OF daemon_wfD(1) [OF assms(1)], of h] i by simp
  have f: "n < d_fresh d" if "d_chans d n \<noteq> None \<or> d_eps d n \<noteq> None \<or> d_pcbs d n \<noteq> None" for n
    using objects_wfD(3-5) [OF daemon_wfD(1) [OF assms(1)], of n] that by (meson not_le)
  have "h_fd i \<in> set (used_fds d)"
  proof (cases h)
    case HListener
    then show ?thesis using i by (auto simp: used_fds_def)
  next
    case (HChannel n)
    then show ?thesis using i l f [of n] by (auto simp: used_fds_def intro!: bexI [of _ n])
  next
    case (HSocket n)
    then show ?thesis using i l f [of n] by (auto simp: used_fds_def intro!: bexI [of _ n])
  next
    case (HEstab n)
    then show ?thesis using i l f [of n] by (auto simp: used_fds_def intro!: bexI [of _ n])
  qed
  then have "h_fd i \<le> top_fd d" by (simp add: top_fd_def)
  then show "h_fd i \<noteq> fd" using assms(2) by simp
qed

lemma counting_kernel_ok: "kernel_ok counting_kernel"
  using above_top_unused [OF daemon_reachable_wf] by (simp add: kernel_ok_def counting_kernel_def)

fun position :: "'a \<Rightarrow> 'a list \<Rightarrow> nat" where
  "position x [] = 0"
| "position x (y # ys) = (if x = y then 0 else Suc (position x ys))"

lemma nth_position: "x \<in> set xs \<Longrightarrow> position x xs < length xs \<and> xs ! position x xs = x"
  by (induction xs) auto

definition numbering_codec :: "Request list \<Rightarrow> Response list \<Rightarrow> codec" where
  "numbering_codec qs rs = \<lparr>pack_request = (\<lambda>q. [of_nat (position q qs)]),
     parse_request = (\<lambda>b. case b of Some [n] \<Rightarrow> qs ! unat n | _ \<Rightarrow> hd qs),
     serialize_response = (\<lambda>r. [of_nat (position r rs)]), unpack_response = (\<lambda>b. case b of [n] \<Rightarrow> Some (rs ! unat n) | _ \<Rightarrow> None)\<rparr>"

lemma unat_byte: "n < 256 \<Longrightarrow> unat (of_nat n :: byte) = n"
  by (simp add: unat_of_nat)

lemma numbering_codec_carries:
  assumes "length qs \<le> 256" "length rs \<le> 256"
  shows "q \<in> set qs \<Longrightarrow> carries_request (numbering_codec qs rs) q" "r \<in> set rs \<Longrightarrow> carries_response (numbering_codec qs rs) r"
proof -
  show "carries_request (numbering_codec qs rs) q" if "q \<in> set qs"
    using assms nth_position [OF that] by (simp add: carries_request_def numbering_codec_def unat_byte RPC_MESSAGE_MAX_SIZE_def)
  show "carries_response (numbering_codec qs rs) r" if "r \<in> set rs"
    using assms nth_position [OF that] by (simp add: carries_response_def numbering_codec_def unat_byte RPC_MESSAGE_MAX_SIZE_def)
qed

lemma sample_channel:
  "\<exists>d. dmn.reachable d \<and> HChannel 0 \<in> set (loop_channels (d_loop d)) \<and>
     d_chans d 0 = Some \<lparr>ch_peer = [], ch_peerPid = None, ch_socket = None\<rparr>"
proof -
  have "\<exists>d0 d1. daemon_start 1 3 = Inr d0 \<and> onNewConnection 4 d0 = Inr d1 \<and> env_ok sample_env d0 \<and> unused_fd 4 d0 \<and>
      io_handles (d_loop d0) HListener \<noteq> None \<and> HChannel 0 \<in> set (loop_channels (d_loop d1)) \<and>
      d_chans d1 0 = Some \<lparr>ch_peer = [], ch_peerPid = None, ch_socket = None\<rparr>"
    by (simp add: start_defs serve_defs env_ok_def unused_fd_def sample_env_def)
  then obtain d0 d1 where s: "daemon_start 1 3 = Inr d0" "onNewConnection 4 d0 = Inr d1" "env_ok sample_env d0" "unused_fd 4 d0"
    "io_handles (d_loop d0) HListener \<noteq> None" "HChannel 0 \<in> set (loop_channels (d_loop d1))"
    "d_chans d1 0 = Some \<lparr>ch_peer = [], ch_peerPid = None, ch_socket = None\<rparr>" by blast
  have "dmn.reachable d0" using s(1) by (intro dmn.reach_init) (auto simp: daemon_init_def)
  moreover have "daemon_step d0 d1" using s(2-4)
    by (intro daemon_step.event [OF s(5), of "sample_env\<lparr>accepted := [4]\<rparr>" OnRead "hub_onReadReady [4]"]) (simp_all add: env_ok_def)
  ultimately show ?thesis using s(6,7) dmn.reach_step by blast
qed

definition sample_world :: "daemon \<Rightarrow> io list world" where
  "sample_world d = \<lparr>w_daemon = Inr d, w_conn = (\<lambda>_. None)(9 := Some (Accepted 0)), w_unread = (\<lambda>_. []), w_sched = [], w_rest = []\<rparr>"

theorem remote_call_witness:
  "\<exists>d d'. dmn.reachable d \<and> dmn.reachable d' \<and>
     (let q = \<lparr>req_pid = 7, req_calling = CallSocket 2 2 0\<rparr>; r = answer_ok (RetSocket (plain_ret 0)) Response_new;
          s = \<lparr>getpid = 7, errno = 0, world = sample_world d\<rparr> in
      transact (sys_env (numbering_codec [q] [r]) counting_kernel (ok_env\<lparr>recv_fuel := 1\<rparr>)) 9 q s = Inr (r, s\<lparr>world := sample_world d'\<rparr>))"
proof -
  let ?q = "\<lparr>req_pid = 7, req_calling = CallSocket 2 2 0\<rparr>" let ?r = "answer_ok (RetSocket (plain_ret 0)) Response_new"
  let ?C = "numbering_codec [?q] [?r]" and ?K = counting_kernel
  obtain d where d: "dmn.reachable d" "HChannel 0 \<in> set (loop_channels (d_loop d))"
    "d_chans d 0 = Some \<lparr>ch_peer = [], ch_peerPid = None, ch_socket = None\<rparr>" using sample_channel by blast
  let ?E = "sys_denv ?C ?K (quiet(0 := RdBytes (pack_request ?C ?q))) [] d" and ?m = "marked (HChannel 0) d"
  let ?s = "\<lparr>getpid = 7, errno = 0, world = sample_world d\<rparr>"
  have cq: "carries_request ?C ?q" by (rule numbering_codec_carries) simp_all
  have env: "env_ok ?E ?m" using kernel_env_ok [OF counting_kernel_ok d(1)] by simp
  obtain d1 where "socketCall ?E 0 AF_INET 2 Response_new ?m = Inr (?r, d1)"
    using socketCall_ok [OF daemon_reachable_wf [OF reachable_marked [OF d(1)]] env _ _ refl refl refl,
        of 0 "\<lparr>ch_peer = [], ch_peerPid = None, ch_socket = None\<rparr>" 2 Response_new] d(3) by (auto simp: SOCK_DGRAM_BIT_def)
  then have "handleRequest ?E 0 ?q ?m = Inr (?r, d1)" by (simp add: handleRequest_def AF_INET_def)
  moreover have "w_daemon (world ?s) = Inr d" "w_conn (world ?s) 9 = Some (Accepted 0)" "w_unread (world ?s) 0 = []"
    by (simp_all add: sample_world_def)
  note remote_call [where B = "ok_env\<lparr>recv_fuel := 1\<rparr>" and n = 0 and C = ?C and req = ?q,
    OF this(1) d(1) counting_kernel_ok this(2,3) d(2) cq _ refl]
  ultimately show ?thesis using d(1) numbering_codec_carries(2) [of "[?q]" "[?r]" ?r]
    by (intro exI [of _ d] exI [of _ "unmarked (HChannel 0) (d1\<lparr>sent_resps := sent_resps d @ [(0, ?r)]\<rparr>)"])
      (simp add: Let_def sample_world_def)
qed

end
