(* ===== verification/Wire_System.thy ===== *)
theory Wire_System
  imports Wire_Codec Whole_System
begin

unbundle bit_operations_syntax

section \<open>The whole system with its message code\<close>

text \<open>
  The codec of Whole_System, filled with the code of both sides: the client packs with protobuf-c (\<open>pk\<close>) from its tables, the daemon parses and
  serializes with the generated C++ code. Left open are the library below it (\<open>W\<close>), protobuf-c, of which the theorem asks that it packs the request as
  the tables describe it (\<open>packs_as_described\<close>) and unpacks the response so (\<open>unp\<close>), and what
  \<open>ParseFromArray\<close> makes of the length -1 (\<open>bad\<close>).
\<close>

definition wire_codec :: "wirelib \<Rightarrow> (Request \<Rightarrow> byte list) \<Rightarrow> (byte list \<Rightarrow> Response option) \<Rightarrow> Request \<Rightarrow> codec" where
  "wire_codec W pk unp bad = \<lparr>
     pack_request = pk,
     parse_request = (\<lambda>b. case b of None \<Rightarrow> bad | Some bs \<Rightarrow> request_of (snd (Request_ParseFromArray W bs))),
     serialize_response = Response_InternalSerialize W,
     unpack_response = unp\<rparr>"

definition packs_as_described :: "(Request \<Rightarrow> byte list) \<Rightarrow> Request \<Rightarrow> bool" where
  "packs_as_described pk r \<longleftrightarrow> pk r = encode_message request__descriptor (request_values r)"

lemma wire_codec_request:
  assumes "wire_format W" "request_fits r" "packs_as_described pk r"
  shows "carries_request (wire_codec W pk unp bad) r"
  using wire_format.request_read [OF assms(1,2)] assms(2,3)
  by (simp add: packs_as_described_def carries_request_def wire_codec_def encode_request request_of_def or_default_def parsed_calling unat_of_nat request_fits_def)

text \<open>A response that fits, and that protobuf-c unpacks from the bytes its tables describe.\<close>

definition response_fits :: "(byte list \<Rightarrow> Response option) \<Rightarrow> Response \<Rightarrow> bool" where
  "response_fits unp r \<longleftrightarrow> unp (encode_message response__descriptor (response_values r)) = Some r \<and>
     length (encode_message response__descriptor (response_values r)) \<le> RPC_MESSAGE_MAX_SIZE"

lemma wire_codec_response:
  assumes "wire_format W" "response_fits unp r" "retcode r \<noteq> None"
  shows "carries_response (wire_codec W pk unp bad) r"
proof -
  have "response_bytes r \<noteq> []" using assms(3) by (auto simp: response_bytes_def Let_def)
  then show ?thesis using assms(2)
    by (simp add: carries_response_def wire_codec_def response_fits_def encode_response wire_format.Response_bytes [OF assms(1)])
qed

text \<open>(C14) A call from the client to the daemon is a call of its handler, with the message code of both sides in between. A process sends a
  request that fits its message, packed as the tables describe, on a channel of a daemon in any reachable state. If the handler faults (other than by
  blocking) or leaves the response without its return code, the daemon stops and the client's receive fails its assertion. Otherwise, if the
  response fits its message and protobuf-c unpacks it from the bytes the tables describe, the client
  gets, from \<open>chan_recv\<close>, the very response the handler built (or goes on waiting, if it says so), and the daemon is in the state the
  handler left, a reachable one.\<close>

theorem remote_call_on_wire:
  assumes daemon: "w_daemon (world s) = Inr d" "dmn.reachable d" "kernel_ok K"
    and conn: "w_conn (world s) ch = Some (Accepted c)" "w_unread (world s) c = []" "HChannel c \<in> set (loop_channels (d_loop d))"
    and msg: "wire_format W" "request_fits req" "packs_as_described pk req" "recv_fuel B = Suc n"
    and C: "C = wire_codec W pk unp bad"
    and E: "E = sys_denv C K (quiet(c := RdBytes (pack_request C req))) [] d"
  shows "case handleRequest E c req (marked (HChannel c) d) of
      Inl x \<Rightarrow> x \<noteq> WouldBlock \<longrightarrow> transact (sys_env C K B) ch req s = Inl AssertFailed
    | Inr (resp, d1) \<Rightarrow>
        (let d' = unmarked (HChannel c) (d1\<lparr>sent_resps := sent_resps d @ [(c, resp)]\<rparr>);
             s' = s\<lparr>errno := 0, world := (world s)\<lparr>w_daemon := Inr d'\<rparr>\<rparr> in
         if retcode resp = None then transact (sys_env C K B) ch req s = Inl AssertFailed
         else response_fits unp resp \<longrightarrow> dmn.reachable d' \<and>
           transact (sys_env C K B) ch req s =
             (if retcode resp = Some RC_WAIT_NEXT then chan_recv_loop (sys_env C K B) ch n s' else Inr (resp, s')))"
proof -
  have q: "carries_request C req" using wire_codec_request [OF msg(1-3)] C by simp
  have r: "carries_response C resp" if "response_fits unp resp" "retcode resp \<noteq> None" for resp
    using wire_codec_response [OF msg(1) that] C by simp
  show ?thesis using remote_call [OF daemon conn q msg(4) E] r by (auto simp: Let_def split: sum.splits prod.splits)
qed

definition sample_answer :: Response where
  "sample_answer = answer_ok (RetSocket (plain_ret 0)) Response_new"

definition sample_unpack :: "byte list \<Rightarrow> Response option" where
  "sample_unpack bs = (if bs = response_bytes sample_answer then Some sample_answer else None)"

theorem remote_call_on_wire_witness:
  "\<exists>d d'. dmn.reachable d \<and> dmn.reachable d' \<and>
     (let q = \<lparr>req_pid = 7, req_calling = CallSocket 2 2 0\<rparr>; s = \<lparr>getpid = 7, errno = 0, world = sample_world d\<rparr> in
      transact (sys_env (wire_codec base128 (\<lambda>r. encode_message request__descriptor (request_values r)) sample_unpack q) counting_kernel (ok_env\<lparr>recv_fuel := 1\<rparr>)) 9 q s =
        Inr (sample_answer, s\<lparr>world := sample_world d'\<rparr>))"
proof -
  let ?q = "\<lparr>req_pid = 7, req_calling = CallSocket 2 2 0\<rparr>" let ?C = "wire_codec base128 (\<lambda>r. encode_message request__descriptor (request_values r)) sample_unpack ?q"
  obtain d where d: "dmn.reachable d" "HChannel 0 \<in> set (loop_channels (d_loop d))"
    "d_chans d 0 = Some \<lparr>ch_peer = [], ch_peerPid = None, ch_socket = None\<rparr>" using sample_channel by blast
  let ?E = "sys_denv ?C counting_kernel (quiet(0 := RdBytes (pack_request ?C ?q))) [] d" and ?m = "marked (HChannel 0) d"
  let ?s = "\<lparr>getpid = 7, errno = 0, world = sample_world d\<rparr>"
  have env: "env_ok ?E ?m" using kernel_env_ok [OF counting_kernel_ok d(1)] by simp
  obtain d1 where "socketCall ?E 0 AF_INET 2 Response_new ?m = Inr (sample_answer, d1)"
    using socketCall_ok [OF daemon_reachable_wf [OF reachable_marked [OF d(1)]] env _ _ refl refl refl,
        of 0 "\<lparr>ch_peer = [], ch_peerPid = None, ch_socket = None\<rparr>" 2 Response_new] d(3) by (auto simp: SOCK_DGRAM_BIT_def sample_answer_def)
  then have h: "handleRequest ?E 0 ?q ?m = Inr (sample_answer, d1)" by (simp add: handleRequest_def AF_INET_def)
  have q: "request_fits ?q" by (simp add: request_fits_def int32_def request_bytes_def RPC_MESSAGE_MAX_SIZE_def delimited_def tag_bytes_def
      varint_cases varint_int_small)
  have a: "retcode sample_answer = Some RC_OK" "response_fits sample_unpack sample_answer"
    by (simp_all add: response_fits_def encode_response sample_unpack_def sample_answer_def response_bytes_def ret_bytes_def answer_ok_def plain_ret_def
      Response_new_def RPC_MESSAGE_MAX_SIZE_def delimited_def tag_bytes_def varint_cases varint_int_small)
  have s: "w_daemon (world ?s) = Inr d" "w_conn (world ?s) 9 = Some (Accepted 0)" "w_unread (world ?s) 0 = []" by (simp_all add: sample_world_def)
  note rc = remote_call_on_wire [where B = "ok_env\<lparr>recv_fuel := 1\<rparr>" and n = 0 and unp = sample_unpack and bad = ?q and pk = "\<lambda>r. encode_message request__descriptor (request_values r)", OF s(1) d(1) counting_kernel_ok s(2,3) d(2) base128.wire_format_axioms q _ _ refl refl]
  let ?d = "unmarked (HChannel 0) (d1\<lparr>sent_resps := sent_resps d @ [(0, sample_answer)]\<rparr>)"
  have "dmn.reachable ?d" "transact (sys_env ?C counting_kernel (ok_env\<lparr>recv_fuel := 1\<rparr>)) 9 ?q ?s = Inr (sample_answer, ?s\<lparr>world := sample_world ?d\<rparr>)"
    using rc h a by (simp_all add: Let_def sample_world_def packs_as_described_def)
  then show ?thesis using d(1) by (auto simp: Let_def)
qed

end
