(* ===== verification/Readiness.thy ===== *)
theory Readiness
  imports Interceptor
begin

unbundle bit_operations_syntax

section \<open>Waiting for readiness (src/interceptor/interceptor.c: poll, select)\<close>

text \<open>
  \<open>poll\<close> and \<open>select\<close> split the caller's descriptors: the ordinary ones are given to
  glibc without waiting, the Velox ones are reported ready at once. The index arrays of
  \<open>poll\<close> are the list of pairs that \<open>collect\<close> builds; an \<open>fd_set\<close> is its
  characteristic function, and testing a number outside its 1024 bits is the fault
  \<open>OutOfBounds\<close>. \<open>merge\<close> is the reference definition \<open>poll\<close> is compared with.
\<close>

subsection \<open>poll\<close>

definition ENOMEM :: int where "ENOMEM = 12"

text \<open>\<open>POLLIN | POLLOUT | POLLHUP\<close>.\<close>

definition velox_events :: u16 where "velox_events = 1 OR 4 OR 16"

fun collect :: "(int \<Rightarrow> bool) \<Rightarrow> nat \<Rightarrow> pollfd list \<Rightarrow> (nat \<times> pollfd) list" where
  "collect V i [] = []"
| "collect V i (p # ps) = (if V (pfd_fd p) then [] else [(i, p)]) @ collect V (Suc i) ps"

fun copy_back :: "(nat \<times> pollfd) list \<Rightarrow> pollfd list \<Rightarrow> int \<Rightarrow> pollfd list \<times> int" where
  "copy_back [] fds nready = (fds, nready)"
| "copy_back ((i, p) # ps) fds nready =
     copy_back ps (fds[i := (fds ! i)\<lparr>pfd_revents := pfd_revents p\<rparr>])
       (if pfd_revents p \<noteq> 0 then nready + 1 else nready)"

fun report_velox :: "(int \<Rightarrow> bool) \<Rightarrow> pollfd list \<Rightarrow> int \<Rightarrow> pollfd list \<times> int" where
  "report_velox V [] nready = ([], nready)"
| "report_velox V (p # ps) nready =
     (if V (pfd_fd p)
      then (let p' = p\<lparr>pfd_revents := pfd_events p AND velox_events\<rparr>;
                (ps', n) = report_velox V ps (if pfd_revents p' \<noteq> 0 then nready + 1 else nready)
            in (p' # ps', n))
      else (let (ps', n) = report_velox V ps nready in (p # ps', n)))"

definition poll :: "'w env \<Rightarrow> bool \<Rightarrow> pollfd list \<Rightarrow> int \<Rightarrow> ('w, 'x) iproc_scheme \<Rightarrow>
    (int \<times> pollfd list) \<times> ('w, 'x) iproc_scheme" where
  "poll E malloc_ok fds timeout s =
     (if \<not> malloc_ok then ((-1, fds), s\<lparr>errno := ENOMEM\<rparr>)
      else
        let fds0 = map (\<lambda>p. p\<lparr>pfd_revents := 0\<rparr>) fds;
            nv = collect (is_assigned_by_velox s) 0 fds0
        in if length nv = length fds then glibc (g_poll E fds0 timeout) s
           else
             let ((fds1, n1), s1) =
               (if nv = [] then ((fds0, 0), s)
                else (case glibc (g_poll E (map snd nv) 0) s of ((r, kfds), s1) \<Rightarrow>
                  (if r > 0 then copy_back (zip (map fst nv) kfds) fds0 0 else (fds0, 0), s1)));
               (fds2, n2) = report_velox (is_assigned_by_velox s) fds1 n1
             in ((n2, fds2), s1))"

subsection \<open>select\<close>

definition FD_SETSIZE :: int where "FD_SETSIZE = 1024"

definition fd_zero :: fd_set where "fd_zero = (\<lambda>_. False)"

definition fd_isset :: "int \<Rightarrow> fd_set \<Rightarrow> bool res" where
  "fd_isset fd S = (if 0 \<le> fd \<and> fd < FD_SETSIZE then Inr (S fd) else Inl OutOfBounds)"

definition orig_set :: "fd_set option \<Rightarrow> fd_set" where
  "orig_set p = (case p of None \<Rightarrow> fd_zero | Some S \<Rightarrow> S)"

text \<open>The sets the scan builds for the kernel, whether a Velox descriptor is among the caller's,
  and the greatest other one.\<close>

record scan =
  nv_r :: fd_set
  nv_w :: fd_set
  nv_e :: fd_set
  has_velox :: bool
  max_nv_fd :: int

fun select_scan :: "(int \<Rightarrow> bool) \<Rightarrow> fd_set \<Rightarrow> fd_set \<Rightarrow> fd_set \<Rightarrow> int list \<Rightarrow> scan \<Rightarrow> scan res" where
  "select_scan V r w x [] a = Inr a"
| "select_scan V r w x (fd # fds) a =
     bindr (fd_isset fd r) (\<lambda>ir. bindr (fd_isset fd w) (\<lambda>iw. bindr (fd_isset fd x) (\<lambda>ix.
     select_scan V r w x fds
       (if V fd then (if ir \<or> iw \<or> ix then a\<lparr>has_velox := True\<rparr> else a)
        else \<lparr>nv_r = (if ir then (nv_r a)(fd := True) else nv_r a),
              nv_w = (if iw then (nv_w a)(fd := True) else nv_w a),
              nv_e = (if ix then (nv_e a)(fd := True) else nv_e a),
              has_velox = has_velox a,
              max_nv_fd = (if (ir \<or> iw \<or> ix) \<and> fd > max_nv_fd a then fd else max_nv_fd a)\<rparr>))))"

text \<open>\<open>FD_SET\<close> of the numbers of a list that are in the source set.\<close>

definition set_from :: "fd_set \<Rightarrow> int list \<Rightarrow> fd_set option \<Rightarrow> fd_set option" where
  "set_from S fds p = map_option (fold (\<lambda>fd T. if S fd then T(fd := True) else T) fds) p"

fun count_ready :: "(int \<Rightarrow> bool) \<Rightarrow> (int \<Rightarrow> bool) \<Rightarrow> int list \<Rightarrow> int \<Rightarrow> int" where
  "count_ready V ready [] n = n"
| "count_ready V ready (fd # fds) n =
     count_ready V ready fds (if V fd \<and> ready fd then n + 1 else n)"

definition select :: "'w env \<Rightarrow> int \<Rightarrow> fd_set option \<Rightarrow> fd_set option \<Rightarrow> fd_set option \<Rightarrow> int option \<Rightarrow>
    ('w, 'x) iproc_scheme \<Rightarrow>
    ((int \<times> fd_set option \<times> fd_set option \<times> fd_set option) \<times> ('w, 'x) iproc_scheme) res" where
  "select E nfds readfds writefds exceptfds timeout s =
     (let V = is_assigned_by_velox s; r = orig_set readfds; w = orig_set writefds; x = orig_set exceptfds in
      bindr (select_scan V r w x [0..nfds - 1]
          \<lparr>nv_r = fd_zero, nv_w = fd_zero, nv_e = fd_zero, has_velox = False, max_nv_fd = -1\<rparr>) (\<lambda>a.
      if \<not> has_velox a then Inr (glibc (g_select E nfds readfds writefds exceptfds timeout) s)
      else
        let r0 = map_option (\<lambda>_. fd_zero) readfds; w0 = map_option (\<lambda>_. fd_zero) writefds;
            x0 = map_option (\<lambda>_. fd_zero) exceptfds;
            ((n1, r1, w1, x1), s1) =
              (if max_nv_fd a \<ge> 0
               then (case glibc (g_select E (max_nv_fd a + 1) (Some (nv_r a)) (Some (nv_w a)) (Some (nv_e a)) (Some 0)) s of
                   ((k, kr, kw, kx), s1) \<Rightarrow>
                     if k > 0
                     then ((k, set_from (orig_set kr) [0..max_nv_fd a] r0, set_from (orig_set kw) [0..max_nv_fd a] w0,
                            set_from (orig_set kx) [0..max_nv_fd a] x0), s1)
                     else ((0, r0, w0, x0), s1))
               else ((0, r0, w0, x0), s));
            vfds = filter V [0..nfds - 1];
            ready = (\<lambda>fd. readfds \<noteq> None \<and> r fd \<or> writefds \<noteq> None \<and> w fd \<or> exceptfds \<noteq> None \<and> x fd)
        in Inr ((count_ready V ready [0..nfds - 1] n1,
                 set_from r vfds r1, set_from w vfds w1, set_from x vfds x1), s1)))"

subsection \<open>The reference for poll\<close>

definition ready :: "pollfd \<Rightarrow> bool" where
  "ready p \<longleftrightarrow> pfd_revents p \<noteq> 0"

text \<open>The entries the caller gets back, given the kernel's answers for the ordinary ones in
  order.\<close>

fun merge :: "(int \<Rightarrow> bool) \<Rightarrow> pollfd list \<Rightarrow> u16 list \<Rightarrow> pollfd list" where
  "merge V [] ks = []"
| "merge V (p # ps) ks =
     (if V (pfd_fd p) then p\<lparr>pfd_revents := pfd_events p AND velox_events\<rparr> # merge V ps ks
      else case ks of [] \<Rightarrow> p # merge V ps [] | k # ks' \<Rightarrow> p\<lparr>pfd_revents := k\<rparr> # merge V ps ks')"

lemma length_merge [simp]: "length (merge V ps ks) = length ps"
  by (induction V ps ks rule: merge.induct) (auto split: list.splits)

lemma collect_fst_ge: "x \<in> set (collect V i ps) \<Longrightarrow> i \<le> fst x"
  by (induction V i ps rule: collect.induct) (auto split: if_splits)

lemma length_collect: "length (collect V i ps) = length (filter (\<lambda>p. \<not> V (pfd_fd p)) ps)"
  by (induction V i ps rule: collect.induct) auto

lemma snd_collect: "map snd (collect V i ps) = filter (\<lambda>p. \<not> V (pfd_fd p)) ps"
  by (induction V i ps rule: collect.induct) auto

text \<open>Writing the kernel's answers back by index, then the Velox ones, is merging.\<close>

fun put_back :: "(int \<Rightarrow> bool) \<Rightarrow> pollfd list \<Rightarrow> pollfd list \<Rightarrow> pollfd list" where
  "put_back V [] ks = []"
| "put_back V (p # ps) ks =
     (if V (pfd_fd p) then p # put_back V ps ks
      else case ks of [] \<Rightarrow> p # ps | k # ks' \<Rightarrow> p\<lparr>pfd_revents := pfd_revents k\<rparr> # put_back V ps ks')"

lemma copy_back_put_back:
  assumes "length ks = length (collect V (length pre) ps)"
  shows "copy_back (zip (map fst (collect V (length pre) ps)) ks) (pre @ ps) n =
    (pre @ put_back V ps ks, n + int (length (filter ready ks)))"
  using assms
proof (induction ps arbitrary: pre ks n)
  case (Cons p ps)
  show ?case
  proof (cases "V (pfd_fd p)")
    case True
    then show ?thesis using Cons.IH [of ks "pre @ [p]"] Cons.prems by simp
  next
    case False
    then obtain k ks' where ks: "ks = k # ks'" using Cons.prems by (cases ks) auto
    then show ?thesis
      using False Cons.prems Cons.IH [of ks' "pre @ [p\<lparr>pfd_revents := pfd_revents k\<rparr>]"]
      by (simp add: ready_def)
  qed
qed simp

lemma report_velox_eq:
  "report_velox V ps n =
    (map (\<lambda>p. if V (pfd_fd p) then p\<lparr>pfd_revents := pfd_events p AND velox_events\<rparr> else p) ps,
     n + int (length (filter (\<lambda>p. V (pfd_fd p) \<and> pfd_events p AND velox_events \<noteq> 0) ps)))"
  by (induction V ps n rule: report_velox.induct) (auto simp: Let_def)

lemma report_put_back:
  assumes "length ks = length (filter (\<lambda>p. \<not> V (pfd_fd p)) ps)"
  shows "report_velox V (put_back V ps ks) n =
    (merge V ps (map pfd_revents ks),
     n + int (length (filter ready (merge V ps (map pfd_revents ks)))) - int (length (filter ready ks)))"
  using assms
proof (induction ps arbitrary: ks n)
  case (Cons p ps)
  then show ?case
    by (cases ks) (auto simp: report_velox_eq ready_def split: if_splits)
qed simp

lemma put_back_self: "put_back V ps (filter (\<lambda>p. \<not> V (pfd_fd p)) ps) = ps"
  by (induction ps) auto

lemma select_scan_in_bounds:
  assumes "\<forall>fd\<in>set fds. 0 \<le> fd \<and> fd < FD_SETSIZE \<and> \<not> V fd"
  shows "\<exists>a'. select_scan V r w x fds a = Inr a' \<and> has_velox a' = has_velox a"
  using assms by (induction V r w x fds a rule: select_scan.induct) (auto simp: fd_isset_def)

lemma select_scan_out_of_bounds:
  assumes "\<exists>fd\<in>set fds. \<not> (0 \<le> fd \<and> fd < FD_SETSIZE)"
  shows "select_scan V r w x fds a = Inl OutOfBounds"
  using assms by (induction V r w x fds a rule: select_scan.induct) (auto simp: fd_isset_def)

subsection \<open>Properties\<close>

text \<open>(C11) \<open>poll\<close> with a Velox descriptor among the entries, by index arrays, is the merge of two
  answers: every ordinary entry carries what the kernel says of it without waiting (nothing, when
  the kernel call failed or found none ready), every Velox entry is ready for the requested
  readable, writable and hang-up events; the result is the number of entries with a nonzero
  \<open>revents\<close>. The kernel is only assumed to give back an array of the same length.\<close>

theorem poll_refines_merge:
  fixes s :: "('w, 'x) iproc_scheme"
  assumes kernel: "\<And>ps w. length (snd (fst (g_poll E ps 0 w))) = length ps"
    and velox: "p \<in> set fds" "is_assigned_by_velox s (pfd_fd p)"
  shows "let V = is_assigned_by_velox s; fds0 = map (\<lambda>p. p\<lparr>pfd_revents := 0\<rparr>) fds;
      nv = filter (\<lambda>p. \<not> V (pfd_fd p)) fds0;
      k = fst (g_poll E nv 0 (world s));
      res = merge V fds0 (if nv \<noteq> [] \<and> fst k > 0 then map pfd_revents (snd k) else map (\<lambda>_. 0) nv)
    in fst (poll E True fds timeout s) = (int (length (filter ready res)), res)"
proof -
  define V where "V = is_assigned_by_velox s"
  define fds0 where "fds0 = map (\<lambda>p. p\<lparr>pfd_revents := 0\<rparr>) fds"
  define nv where "nv = filter (\<lambda>p. \<not> V (pfd_fd p)) fds0"
  obtain r kfds e w where k: "g_poll E nv 0 (world s) = ((r, kfds), e, w)" by (metis prod.exhaust)
  have len: "length kfds = length nv" using kernel [of nv "world s"] k by simp
  have "p\<lparr>pfd_revents := 0\<rparr> \<in> set fds0" "V (pfd_fd (p\<lparr>pfd_revents := 0\<rparr>))"
    using velox by (auto simp: fds0_def V_def)
  then have "length nv < length fds0" unfolding nv_def by (metis length_filter_less)
  then have some: "length (collect V 0 fds0) \<noteq> length fds"
    by (simp add: length_collect nv_def fds0_def)
  have empty: "collect V 0 fds0 = [] \<longleftrightarrow> nv = []"
    by (metis length_0_conv length_collect nv_def)
  have zeros: "map pfd_revents nv = map (\<lambda>_. 0) nv" "filter ready nv = []"
    by (auto simp: nv_def fds0_def ready_def filter_empty_conv)
  have copied: "copy_back (zip (map fst (collect V 0 fds0)) kfds) fds0 0 =
      (put_back V fds0 kfds, int (length (filter ready kfds)))"
    using copy_back_put_back [of kfds V "[]" fds0 0] len by (simp add: length_collect nv_def)
  have rep: "report_velox V (put_back V fds0 kfds) (int (length (filter ready kfds))) =
      (merge V fds0 (map pfd_revents kfds), int (length (filter ready (merge V fds0 (map pfd_revents kfds)))))"
    using report_put_back [of kfds V fds0] len by (simp add: nv_def)
  have rep0: "report_velox V fds0 0 =
      (merge V fds0 (map (\<lambda>_. 0) nv), int (length (filter ready (merge V fds0 (map (\<lambda>_. 0) nv)))))"
    using report_put_back [of nv V fds0 0] zeros put_back_self [of V fds0] by (simp add: nv_def [symmetric])
  show ?thesis
    using some k
    by (simp add: poll_def Let_def V_def [symmetric] fds0_def [symmetric] nv_def [symmetric] snd_collect
        empty glibc_def copied rep rep0)
qed

definition echo_env :: "io list env" where
  "echo_env = ok_env\<lparr>g_poll := (\<lambda>ps _ w. ((1, map (\<lambda>p. p\<lparr>pfd_revents := 1\<rparr>) ps), 0, w))\<rparr>"

theorem poll_refines_merge_witness:
  "fst (poll echo_env True
      [\<lparr>pfd_fd = 0, pfd_events = 1, pfd_revents = 0\<rparr>, \<lparr>pfd_fd = 4096, pfd_events = 7, pfd_revents = 0\<rparr>] 100 (proc0 [])) =
   (2, [\<lparr>pfd_fd = 0, pfd_events = 1, pfd_revents = 1\<rparr>, \<lparr>pfd_fd = 4096, pfd_events = 7, pfd_revents = 5\<rparr>])"
  using poll_refines_merge [of echo_env "\<lparr>pfd_fd = 4096, pfd_events = 7, pfd_revents = 0\<rparr>"
      "[\<lparr>pfd_fd = 0, pfd_events = 1, pfd_revents = 0\<rparr>, \<lparr>pfd_fd = 4096, pfd_events = 7, pfd_revents = 0\<rparr>]"
      "proc0 []" 100]
  by (simp add: echo_env_def proc0_def is_assigned_by_velox_def velox_events_def ready_def Let_def)

text \<open>(C37) The numbers the daemon gives out do not fit an \<open>fd_set\<close>: with a range that starts at
  or above \<open>FD_SETSIZE\<close>, \<open>select\<close> either stays below it and is exactly the glibc
  call, or scans past the end of the sets. The code that reports Velox descriptors ready is
  never reached.\<close>

theorem select_never_sees_velox:
  assumes "FD_SETSIZE \<le> g_startfd s"
  shows "select E nfds r w x timeout s =
     (if nfds \<le> FD_SETSIZE then Inr (glibc (g_select E nfds r w x timeout) s) else Inl OutOfBounds)"
proof (cases "nfds \<le> FD_SETSIZE")
  case True
  then have "\<forall>fd\<in>set [0..nfds - 1]. 0 \<le> fd \<and> fd < FD_SETSIZE \<and> \<not> is_assigned_by_velox s fd"
    using assms by (auto simp: is_assigned_by_velox_def)
  note scan = select_scan_in_bounds [OF this, of "orig_set r" "orig_set w" "orig_set x"
      "\<lparr>nv_r = fd_zero, nv_w = fd_zero, nv_e = fd_zero, has_velox = False, max_nv_fd = -1\<rparr>"]
  obtain a where "select_scan (is_assigned_by_velox s) (orig_set r) (orig_set w) (orig_set x) [0..nfds - 1]
      \<lparr>nv_r = fd_zero, nv_w = fd_zero, nv_e = fd_zero, has_velox = False, max_nv_fd = -1\<rparr> = Inr a"
    and "\<not> has_velox a"
    using scan by (auto simp del: select_scan.simps)
  with True show ?thesis by (simp add: select_def Let_def)
next
  case False
  then have "\<exists>fd\<in>set [0..nfds - 1]. \<not> (0 \<le> fd \<and> fd < FD_SETSIZE)"
    by (auto simp: FD_SETSIZE_def intro!: bexI [of _ 1024])
  from select_scan_out_of_bounds [OF this] False show ?thesis
    by (simp add: select_def Let_def)
qed

theorem select_never_sees_velox_witness:
  "select ok_env 4097 (Some (\<lambda>fd. fd = 4096)) None None None (proc0 []) = Inl OutOfBounds"
  using select_never_sees_velox [of "proc0 []" ok_env 4097]
  by (simp add: FD_SETSIZE_def proc0_def)

end
