(* ===== verification/Raw_Mutex.thy ===== *)
theory Raw_Mutex
  imports Velox_Prelude
begin

section \<open>The mutex, and objects behind it (src/veloxd/base: RawMutex.h, RawMutex.cpp)\<close>

text \<open>
  \<open>RawMutex\<close> wraps a mutex of pthreads, of which the documentation says: a thread that locks it while it is
  locked waits, also when it holds it itself; what happens when it is unlocked by another thread than the holder, or destroyed while
  it is locked, is undefined. Threads are numbers, as \<open>pthread_self\<close> gives them.

  The second part is what \<open>MutexScope\<close> is for: an object whose methods hold the mutex from their beginning
  to their end. A method is called, waits for the mutex, reads the object, stores what it computed and leaves; threads are
  interleaved between these steps. The locale \<open>guarded_object\<close> shows that nothing of this can be seen from outside.
\<close>

subsection \<open>RawMutex and MutexScope\<close>

record RawMutex =
  mutex_owner :: "nat option"
  mutex_holder :: nat

definition RawMutex_new :: RawMutex where
  "RawMutex_new = \<lparr>mutex_owner = None, mutex_holder = 0\<rparr>"

definition RawMutex_delete :: "RawMutex \<Rightarrow> unit res" where
  "RawMutex_delete m = (if mutex_owner m = None then Inr () else Inl Undefined)"

definition mutex_lock :: "nat \<Rightarrow> RawMutex \<Rightarrow> RawMutex res" where
  "mutex_lock self m = (if mutex_owner m = None then Inr (m\<lparr>mutex_owner := Some self\<rparr>) else Inl WouldBlock)"

text \<open>The result of \<open>pthread_mutex_trylock\<close> is dropped.\<close>

definition tryLock :: "nat \<Rightarrow> RawMutex \<Rightarrow> RawMutex" where
  "tryLock self m = (if mutex_owner m = None then m\<lparr>mutex_owner := Some self\<rparr> else m)"

definition mutex_unlock :: "nat \<Rightarrow> RawMutex \<Rightarrow> RawMutex res" where
  "mutex_unlock self m = (if mutex_owner m = Some self then Inr (m\<lparr>mutex_owner := None\<rparr>) else Inl Undefined)"

definition isLockedByThisThread :: "nat \<Rightarrow> RawMutex \<Rightarrow> bool" where
  "isLockedByThisThread self m \<longleftrightarrow> self = mutex_holder m"

definition MutexScope_new :: "nat \<Rightarrow> RawMutex \<Rightarrow> RawMutex res" where
  "MutexScope_new = mutex_lock"

definition MutexScope_delete :: "nat \<Rightarrow> RawMutex \<Rightarrow> RawMutex res" where
  "MutexScope_delete = mutex_unlock"

lemma MutexScope_new_Inr [simp]:
  "MutexScope_new t m = Inr m' \<longleftrightarrow> mutex_owner m = None \<and> m' = m\<lparr>mutex_owner := Some t\<rparr>"
  by (auto simp: MutexScope_new_def mutex_lock_def)

lemma MutexScope_delete_Inr [simp]:
  "MutexScope_delete t m = Inr m' \<longleftrightarrow> mutex_owner m = Some t \<and> m' = m\<lparr>mutex_owner := None\<rparr>"
  by (auto simp: MutexScope_delete_def mutex_unlock_def)

text \<open>The member \<open>_holder\<close> is set by the constructor only.\<close>

lemma holder_never_set:
  "mutex_lock t m = Inr m' \<Longrightarrow> mutex_holder m' = mutex_holder m" "mutex_holder (tryLock t m) = mutex_holder m"
  "mutex_unlock t m = Inr m' \<Longrightarrow> mutex_holder m' = mutex_holder m"
  by (auto simp: mutex_lock_def tryLock_def mutex_unlock_def split: if_splits)

subsection \<open>Methods under the mutex\<close>

datatype ('c, 'r, 's) phase = Idle | Entering 'c | Inside 'c | Loaded 'c 's | Leaving 'c 'r

fun in_scope :: "('c, 'r, 's) phase \<Rightarrow> bool" where
  "in_scope (Inside c) = True"
| "in_scope (Loaded c s) = True"
| "in_scope (Leaving c r) = True"
| "in_scope _ = False"

text \<open>\<open>g_done\<close> lists the calls in the order in which they stored.\<close>

record ('c, 'r, 's) guarded =
  g_mutex :: RawMutex
  g_obj :: 's
  g_phase :: "nat \<Rightarrow> ('c, 'r, 's) phase"
  g_done :: "(nat \<times> 'c \<times> 'r) list"

definition guarded_new :: "'s \<Rightarrow> ('c, 'r, 's) guarded" where
  "guarded_new s = \<lparr>g_mutex = RawMutex_new, g_obj = s, g_phase = (\<lambda>_. Idle), g_done = []\<rparr>"

definition at_phase :: "nat \<Rightarrow> ('c, 'r, 's) phase \<Rightarrow> ('c, 'r, 's) guarded \<Rightarrow> ('c, 'r, 's) guarded" where
  "at_phase t p g = g\<lparr>g_phase := (g_phase g)(t := p)\<rparr>"

inductive guarded_step :: "('c \<Rightarrow> 's \<Rightarrow> ('r \<times> 's) res) \<Rightarrow> nat \<Rightarrow> ('c, 'r, 's) guarded \<Rightarrow> ('c, 'r, 's) guarded \<Rightarrow> bool"
  for body where
  call: "g_phase g t = Idle \<Longrightarrow> guarded_step body t g (at_phase t (Entering c) g)"
| enter: "g_phase g t = Entering c \<Longrightarrow> MutexScope_new t (g_mutex g) = Inr m \<Longrightarrow>
    guarded_step body t g (at_phase t (Inside c) (g\<lparr>g_mutex := m\<rparr>))"
| load: "g_phase g t = Inside c \<Longrightarrow> guarded_step body t g (at_phase t (Loaded c (g_obj g)) g)"
| store: "g_phase g t = Loaded c s \<Longrightarrow> body c s = Inr (r, s') \<Longrightarrow>
    guarded_step body t g (at_phase t (Leaving c r) (g\<lparr>g_obj := s', g_done := g_done g @ [(t, c, r)]\<rparr>))"
| leave: "g_phase g t = Leaving c r \<Longrightarrow> MutexScope_delete t (g_mutex g) = Inr m \<Longrightarrow>
    guarded_step body t g (at_phase t Idle (g\<lparr>g_mutex := m\<rparr>))"

text \<open>The calls one after the other, each as a whole.\<close>

fun one_by_one :: "('c \<Rightarrow> 's \<Rightarrow> ('r \<times> 's) res) \<Rightarrow> 's \<Rightarrow> (nat \<times> 'c \<times> 'r) list \<Rightarrow> 's \<Rightarrow> bool" where
  "one_by_one body s [] s' \<longleftrightarrow> s' = s"
| "one_by_one body s ((t, c, r) # cs) s' \<longleftrightarrow> (\<exists>s1. body c s = Inr (r, s1) \<and> one_by_one body s1 cs s')"

lemma one_by_one_append: "one_by_one body s (xs @ ys) s' \<longleftrightarrow> (\<exists>s1. one_by_one body s xs s1 \<and> one_by_one body s1 ys s')"
proof (induction xs arbitrary: s)
  case (Cons x xs)
  then show ?case by (cases x) (simp, blast)
qed simp

lemma one_by_one_snoc [simp]:
  "one_by_one body s (cs @ [(t, c, r)]) s' \<longleftrightarrow> (\<exists>s1. one_by_one body s cs s1 \<and> body c s1 = Inr (r, s'))"
  by (simp add: one_by_one_append)

locale guarded_object =
  fixes body :: "'c \<Rightarrow> 's \<Rightarrow> ('r \<times> 's) res"
    and obj_new :: 's
    and obj_ok :: "'s \<Rightarrow> bool"
  assumes new_ok: "obj_ok obj_new"
    and body_ok: "obj_ok s \<Longrightarrow> body c s = Inr (r, s') \<Longrightarrow> obj_ok s'"

sublocale guarded_object \<subseteq> threads: transition_system "\<lambda>g. g = guarded_new obj_new" "\<lambda>g g'. \<exists>t. guarded_step body t g g'" .

context guarded_object
begin

definition guarded_wf :: "('c, 'r, 's) guarded \<Rightarrow> bool" where
  "guarded_wf g \<longleftrightarrow> (\<forall>t. in_scope (g_phase g t) \<longleftrightarrow> mutex_owner (g_mutex g) = Some t) \<and>
     (\<forall>t c s. g_phase g t = Loaded c s \<longrightarrow> s = g_obj g) \<and> (\<forall>t c r. g_phase g t = Leaving c r \<longrightarrow> (t, c, r) \<in> set (g_done g)) \<and>
     one_by_one body obj_new (g_done g) (g_obj g) \<and> obj_ok (g_obj g)"

lemma guarded_wfD:
  assumes "guarded_wf g"
  shows "in_scope (g_phase g t) \<longleftrightarrow> mutex_owner (g_mutex g) = Some t" "g_phase g t = Loaded c s \<Longrightarrow> s = g_obj g"
    "one_by_one body obj_new (g_done g) (g_obj g)" "obj_ok (g_obj g)" "g_phase g t = Leaving c r \<Longrightarrow> (t, c, r) \<in> set (g_done g)"
  using assms by (simp_all add: guarded_wf_def)

lemma guarded_wf_step:
  assumes wf: "guarded_wf g" and "guarded_step body t g g'"
  shows "guarded_wf g'"
  using assms(2)
proof cases
  case (call c)
  then show ?thesis using wf guarded_wfD(1) [OF wf, of t] by (simp add: guarded_wf_def at_phase_def)
next
  case (enter c m)
  then show ?thesis using wf by (auto simp: guarded_wf_def at_phase_def)
next
  case (load c)
  then show ?thesis using wf guarded_wfD(1) [OF wf, of t] by (simp add: guarded_wf_def at_phase_def)
next
  case (store c s r s')
  have own: "mutex_owner (g_mutex g) = Some t" using guarded_wfD(1) [OF wf, of t] store by simp
  then have out: "\<not> in_scope (g_phase g u)" if "u \<noteq> t" for u using guarded_wfD(1) [OF wf, of u] that by simp
  then have "g_phase g u \<noteq> Loaded c' s''" if "u \<noteq> t" for u c' s'' using that by (metis in_scope.simps(2))
  moreover have s: "body c (g_obj g) = Inr (r, s')" using guarded_wfD(2) [OF wf store(2)] store(3) by simp
  ultimately show ?thesis
    unfolding guarded_wf_def store(1) using own out guarded_wfD(3) [OF wf] body_ok [OF guarded_wfD(4) [OF wf] s] guarded_wfD(5) [OF wf]
    by (simp add: at_phase_def) blast
next
  case (leave c r m)
  then show ?thesis using wf by (simp add: guarded_wf_def at_phase_def)
qed

lemma reachable_wf: "threads.reachable g \<Longrightarrow> guarded_wf g"
proof (erule threads.invariant)
  show "guarded_wf s" if "s = guarded_new obj_new" for s
    using that by (simp add: guarded_wf_def guarded_new_def RawMutex_new_def new_ok)
qed (blast intro: guarded_wf_step)

lemma linearizable: "threads.reachable g \<Longrightarrow> one_by_one body obj_new (g_done g) (g_obj g) \<and> obj_ok (g_obj g)"
  using reachable_wf by (simp add: guarded_wf_def)

lemma one_by_one_ok: "one_by_one body s cs s' \<Longrightarrow> obj_ok s \<Longrightarrow> obj_ok s'"
proof (induction cs arbitrary: s)
  case (Cons x cs)
  then show ?case using body_ok by (cases x) (simp, blast)
qed simp

text \<open>Every call took effect on an object in order.\<close>

lemma done_ok:
  assumes "threads.reachable g" "(t, c, r) \<in> set (g_done g)"
  shows "\<exists>s s'. obj_ok s \<and> body c s = Inr (r, s')"
proof -
  obtain xs ys where "g_done g = xs @ (t, c, r) # ys" using assms(2) by (meson split_list)
  then obtain s s' where "one_by_one body obj_new xs s" "body c s = Inr (r, s')"
    using linearizable [OF assms(1)] by (auto simp: one_by_one_append)
  then show ?thesis using one_by_one_ok new_ok by blast
qed

lemma returned_done: "threads.reachable g \<Longrightarrow> g_phase g t = Leaving c r \<Longrightarrow> (t, c, r) \<in> set (g_done g)"
  using guarded_wfD(5) [OF reachable_wf] .

lemma exclusive:
  assumes "threads.reachable g" "in_scope (g_phase g t)" "in_scope (g_phase g u)"
  shows "t = u"
  using guarded_wfD(1) [OF reachable_wf [OF assms(1)]] assms(2,3) by simp

lemma leaves: "threads.reachable g \<Longrightarrow> g_phase g t = Leaving c r \<Longrightarrow> \<exists>m. MutexScope_delete t (g_mutex g) = Inr m"
  using guarded_wfD(1) [OF reachable_wf, of g t] by simp

text \<open>When no method ends in a fault, somebody who called can always go on.\<close>

lemma progress:
  assumes r: "threads.reachable g" and busy: "g_phase g t \<noteq> Idle"
    and total: "\<And>c s. obj_ok s \<Longrightarrow> \<exists>r s'. body c s = Inr (r, s')"
  shows "\<exists>u g'. g_phase g u \<noteq> Idle \<and> guarded_step body u g g'"
proof -
  have wf: "guarded_wf g" using reachable_wf [OF r] .
  have run: "\<exists>g'. guarded_step body u g g'" if "in_scope (g_phase g u)" for u
  proof (cases "g_phase g u")
    case (Loaded c s)
    then have "obj_ok s" using guarded_wfD(2,4) [OF wf] by metis
    then show ?thesis using total Loaded guarded_step.store [of g u] by blast
  next
    case (Leaving c x)
    then show ?thesis using leaves [OF r Leaving] guarded_step.leave [of g u] by blast
  qed (use that guarded_step.load [of g u] in auto)
  show ?thesis
  proof (cases "mutex_owner (g_mutex g)")
    case None
    have "\<exists>g'. guarded_step body t g g'"
    proof (cases "g_phase g t")
      case (Entering c)
      then show ?thesis using None guarded_step.enter [OF Entering] by (meson MutexScope_new_Inr)
    qed (use run [of t] busy in simp_all)
    then show ?thesis using busy by blast
  next
    case (Some u)
    then have "in_scope (g_phase g u)" using guarded_wfD(1) [OF wf] by simp
    moreover from this have "g_phase g u \<noteq> Idle" by auto
    ultimately show ?thesis using run [of u] by blast
  qed
qed

text \<open>A call without anybody else.\<close>

lemma call_alone:
  assumes r: "threads.reachable g" and idle: "g_phase g = (\<lambda>_. Idle)" and b: "body c (g_obj g) = Inr (x, s')"
  shows "threads.reachable (g\<lparr>g_obj := s', g_done := g_done g @ [(t, c, x)]\<rparr>)"
proof -
  have free: "mutex_owner (g_mutex g) = None"
    using guarded_wfD(1) [OF reachable_wf [OF r]] idle by (cases "mutex_owner (g_mutex g)") auto
  let ?g1 = "at_phase t (Entering c) g" and ?m = "(g_mutex g)\<lparr>mutex_owner := Some t\<rparr>"
  let ?g2 = "at_phase t (Inside c) (?g1\<lparr>g_mutex := ?m\<rparr>)"
  let ?g3 = "at_phase t (Loaded c (g_obj g)) ?g2"
  let ?g4 = "at_phase t (Leaving c x) (?g3\<lparr>g_obj := s', g_done := g_done ?g3 @ [(t, c, x)]\<rparr>)"
  note step = threads.reach_step
  have "threads.reachable ?g1" using step [OF r] guarded_step.call [of g t body c] idle by auto
  then have "threads.reachable ?g2"
    using step guarded_step.enter [of ?g1 t c ?m body] free by (fastforce simp: at_phase_def)
  then have "threads.reachable ?g3"
    using step guarded_step.load [of ?g2 t c body] by (fastforce simp: at_phase_def)
  then have "threads.reachable ?g4"
    using step guarded_step.store [of ?g3 t c "g_obj g" body x s'] b by (fastforce simp: at_phase_def)
  then have "threads.reachable (at_phase t Idle (?g4\<lparr>g_mutex := ?m\<lparr>mutex_owner := None\<rparr>\<rparr>))"
    using step guarded_step.leave [of ?g4 t c x _ body] by (fastforce simp: at_phase_def)
  moreover have "at_phase t Idle (?g4\<lparr>g_mutex := ?m\<lparr>mutex_owner := None\<rparr>\<rparr>) = g\<lparr>g_obj := s', g_done := g_done g @ [(t, c, x)]\<rparr>"
    using idle free by (simp add: at_phase_def fun_upd_idem)
  ultimately show ?thesis by simp
qed

end

end
