(* ===== verification/Reassembler_Lock.thy ===== *)
theory Reassembler_Lock
  imports Raw_Mutex Reassembler
begin

section \<open>The reassembler and its timer (src/veloxd/ip/reassembly/Reassembler.cpp)\<close>








end
