(* ===== verification/Bounded_Deque.thy ===== *)
theory Bounded_Deque
  imports Raw_Mutex
begin

section \<open>The deque with a lock (src/veloxd/base/BoundedDeque.h)\<close>

text \<open>
  \<open>BoundedDeque\<close> is a \<open>std::deque\<close> whose methods hold a mutex. \<open>front\<close> and \<open>back\<close> return references, so the elements
  have an identity: the number that stands with each value. The standard says of \<open>std::deque\<close> that pushing at an
  end leaves references valid, that removing an element ends the references to it, and that \<open>front\<close>, \<open>back\<close> and
  \<open>pop_front\<close> of an empty deque are undefined. The value that \<open>resize\<close> without a value fills in is the argument \<open>dflt\<close>.
\<close>

subsection \<open>std::deque\<close>

record 'a deque =
  dq_cells :: "(nat \<times> 'a) list"
  dq_fresh :: nat

definition deque_new :: "'a deque" where
  "deque_new = \<lparr>dq_cells = [], dq_fresh = 0\<rparr>"

definition dq_push_back :: "'a \<Rightarrow> 'a deque \<Rightarrow> 'a deque" where
  "dq_push_back v d = \<lparr>dq_cells = dq_cells d @ [(dq_fresh d, v)], dq_fresh = Suc (dq_fresh d)\<rparr>"

definition dq_push_front :: "'a \<Rightarrow> 'a deque \<Rightarrow> 'a deque" where
  "dq_push_front v d = \<lparr>dq_cells = (dq_fresh d, v) # dq_cells d, dq_fresh = Suc (dq_fresh d)\<rparr>"

definition dq_resize :: "nat \<Rightarrow> 'a \<Rightarrow> 'a deque \<Rightarrow> 'a deque" where
  "dq_resize n v d =
     (let k = length (dq_cells d) in
      if n \<le> k then d\<lparr>dq_cells := take n (dq_cells d)\<rparr>
      else \<lparr>dq_cells = dq_cells d @ map (\<lambda>i. (dq_fresh d + i, v)) [0..<n - k], dq_fresh = dq_fresh d + (n - k)\<rparr>)"

definition dq_read :: "nat \<Rightarrow> 'a deque \<Rightarrow> 'a res" where
  "dq_read ref d = liver (map_of (dq_cells d) ref)"

subsection \<open>The methods\<close>

datatype 'a deque_call =
    Front | Back | Is_empty | Size_of | Clear | Push_back 'a | Pop_front | Push_front 'a | Resize nat | Resize_with nat 'a

datatype deque_ret = RVoid | RBool bool | RSize nat | RRef nat

text \<open>What each of them does between taking and releasing the mutex.\<close>

fun deque_body :: "'a \<Rightarrow> 'a deque_call \<Rightarrow> 'a deque \<Rightarrow> (deque_ret \<times> 'a deque) res" where
  "deque_body dflt Front d = (if dq_cells d = [] then Inl Undefined else Inr (RRef (fst (hd (dq_cells d))), d))"
| "deque_body dflt Back d = (if dq_cells d = [] then Inl Undefined else Inr (RRef (fst (last (dq_cells d))), d))"
| "deque_body dflt Is_empty d = Inr (RBool (dq_cells d = []), d)"
| "deque_body dflt Size_of d = Inr (RSize (length (dq_cells d)), d)"
| "deque_body dflt Clear d = Inr (RVoid, d\<lparr>dq_cells := []\<rparr>)"
| "deque_body dflt (Push_back v) d = Inr (RVoid, dq_push_back v d)"
| "deque_body dflt Pop_front d = (if dq_cells d = [] then Inl Undefined else Inr (RVoid, d\<lparr>dq_cells := tl (dq_cells d)\<rparr>))"
| "deque_body dflt (Push_front v) d = Inr (RVoid, dq_push_front v d)"
| "deque_body dflt (Resize n) d = Inr (RVoid, dq_resize n dflt d)"
| "deque_body dflt (Resize_with n v) d = Inr (RVoid, dq_resize n v d)"

definition BoundedDeque_new :: "('a deque_call, deque_ret, 'a deque) guarded" where
  "BoundedDeque_new = guarded_new deque_new"

subsection \<open>Identities are kept apart\<close>

definition deque_ok :: "'a deque \<Rightarrow> bool" where
  "deque_ok d \<longleftrightarrow> distinct (map fst (dq_cells d)) \<and> (\<forall>x \<in> set (dq_cells d). fst x < dq_fresh d)"

lemma deque_ok_push: "deque_ok d \<Longrightarrow> deque_ok (dq_push_back v d)" "deque_ok d \<Longrightarrow> deque_ok (dq_push_front v d)"
  by (fastforce simp: deque_ok_def dq_push_back_def dq_push_front_def)+

lemma deque_ok_resize: "deque_ok d \<Longrightarrow> deque_ok (dq_resize n v d)"
  by (fastforce simp: deque_ok_def dq_resize_def Let_def comp_def distinct_map inj_on_def dest: in_set_takeD
      intro: distinct_take simp flip: take_map)

lemma deque_ok_less: "deque_ok d \<Longrightarrow> deque_ok (d\<lparr>dq_cells := []\<rparr>)" "deque_ok d \<Longrightarrow> deque_ok (d\<lparr>dq_cells := tl (dq_cells d)\<rparr>)"
  by (cases "dq_cells d"; simp add: deque_ok_def)+

lemma deque_body_ok: "deque_ok d \<Longrightarrow> deque_body dflt c d = Inr (r, d') \<Longrightarrow> deque_ok d'"
  by (cases c) (auto simp: deque_ok_push deque_ok_resize deque_ok_less split: if_splits)

interpretation bd: guarded_object "deque_body dflt" deque_new deque_ok
  for dflt
  by unfold_locales (simp add: deque_ok_def deque_new_def, rule deque_body_ok)

subsection \<open>References\<close>

text \<open>The calls that remove nothing.\<close>

fun keeps_cells :: "'a deque_call \<Rightarrow> bool" where
  "keeps_cells Clear = False"
| "keeps_cells Pop_front = False"
| "keeps_cells (Resize n) = False"
| "keeps_cells (Resize_with n v) = False"
| "keeps_cells _ = True"

lemma dq_read_kept:
  assumes "deque_ok d" "keeps_cells c" "deque_body dflt c d = Inr (r, d')" "dq_read ref d = Inr v"
  shows "dq_read ref d' = Inr v"
proof -
  have "map_of (dq_cells d) ref = Some v" using assms(4) by (simp add: dq_read_def)
  moreover from this have "ref \<noteq> dq_fresh d" using assms(1) by (fastforce simp: deque_ok_def dest: map_of_SomeD)
  ultimately show ?thesis using assms(2,3)
    by (cases c) (auto simp: dq_read_def dq_push_back_def dq_push_front_def map_add_def split: if_splits option.split)
qed

lemma dq_read_kept_all:
  assumes "deque_ok d" "\<forall>x \<in> set cs. keeps_cells (fst (snd x))" "one_by_one (deque_body dflt) d cs d'" "dq_read ref d = Inr v"
  shows "dq_read ref d' = Inr v"
  using assms
proof (induction cs arbitrary: d)
  case (Cons x cs)
  obtain t c r where x: "x = (t, c, r)" by (cases x)
  then obtain d1 where "deque_body dflt c d = Inr (r, d1)" "one_by_one (deque_body dflt) d1 cs d'" using Cons.prems(3) by auto
  then show ?case
    using Cons.IH [of d1] Cons.prems x dq_read_kept [of d c dflt r d1 ref v] deque_body_ok [of d dflt c r d1] by simp
qed simp

lemma front_reads: "deque_ok d \<Longrightarrow> deque_body dflt Front d = Inr (RRef ref, d') \<Longrightarrow> dq_read ref d' = Inr (snd (hd (dq_cells d)))"
  by (cases "dq_cells d") (auto simp: dq_read_def)

subsection \<open>What the deque holds\<close>
















text \<open>(C35) What \<open>front\<close> returns outlives the lock. The reference reads the first element, and goes on doing so through all calls that remove
  nothing; but the mutex is released when it is returned, and there is a run of two threads in which one of them has got
  the reference, the other has removed the element, and reading is a use of freed memory.\<close>

theorem front_reference:
  "(deque_ok d \<and> deque_body dflt Front d = Inr (RRef ref, d1) \<and> one_by_one (deque_body dflt) d1 cs d2 \<and>
      (\<forall>x \<in> set cs. keeps_cells (fst (snd x))) \<longrightarrow> dq_read ref d2 = Inr (snd (hd (dq_cells d)))) \<and>
   (\<exists>g ref. bd.threads.reachable dflt g \<and> g_done g = [(2, Push_back v, RVoid), (1, Front, RRef ref), (2, Pop_front, RVoid)] \<and>
      g_phase g 1 = Idle \<and> dq_read ref (g_obj g) = Inl UseAfterFree)"
proof (intro conjI impI)
  assume a: "deque_ok d \<and> deque_body dflt Front d = Inr (RRef ref, d1) \<and> one_by_one (deque_body dflt) d1 cs d2 \<and>
    (\<forall>x \<in> set cs. keeps_cells (fst (snd x)))"
  then have "dq_read ref d1 = Inr (snd (hd (dq_cells d)))" "deque_ok d1"
    using front_reads [of d dflt ref d1] deque_body_ok [of d dflt Front _ d1] by blast+
  then show "dq_read ref d2 = Inr (snd (hd (dq_cells d)))" using a dq_read_kept_all [of d1 cs dflt d2] by blast
next
  let ?g0 = "BoundedDeque_new"
  let ?d = "dq_push_back v deque_new"
  let ?g1 = "?g0\<lparr>g_obj := ?d, g_done := [(2, Push_back v, RVoid)]\<rparr>"
  let ?g2 = "?g1\<lparr>g_done := [(2, Push_back v, RVoid), (1, Front, RRef 0)]\<rparr>"
  let ?g3 = "?g2\<lparr>g_obj := ?d\<lparr>dq_cells := []\<rparr>, g_done := [(2, Push_back v, RVoid), (1, Front, RRef 0), (2, Pop_front, RVoid)]\<rparr>"
  note defs = BoundedDeque_new_def guarded_new_def dq_push_back_def deque_new_def
  have "bd.threads.reachable dflt ?g0" by (rule bd.threads.reach_init) (simp add: BoundedDeque_new_def)
  from bd.call_alone [OF this, of "Push_back v" RVoid _ 2] have "bd.threads.reachable dflt ?g1" by (simp add: defs)
  from bd.call_alone [OF this, of Front "RRef 0" ?d 1] have "bd.threads.reachable dflt ?g2" by (simp add: defs)
  from bd.call_alone [OF this, of Pop_front RVoid "?d\<lparr>dq_cells := []\<rparr>" 2] have "bd.threads.reachable dflt ?g3" by (simp add: defs)
  moreover have "dq_read 0 (g_obj ?g3) = Inl UseAfterFree" "g_phase ?g3 1 = Idle" by (simp_all add: dq_read_def defs)
  ultimately show "\<exists>g ref. bd.threads.reachable dflt g \<and> g_done g = [(2, Push_back v, RVoid), (1, Front, RRef ref), (2, Pop_front, RVoid)] \<and>
      g_phase g 1 = Idle \<and> dq_read ref (g_obj g) = Inl UseAfterFree"
    by (intro exI [of _ ?g3] exI [of _ "0 :: nat"]) simp
qed

theorem front_reference_witness:
  "dq_read 0 (dq_push_back 8 (dq_push_back (7 :: int) deque_new)) = Inr 7"
  using front_reference [of "dq_push_back (7 :: int) deque_new" 0 0 "dq_push_back 7 deque_new" "[(2, Push_back 8, RVoid)]"
      "dq_push_back 8 (dq_push_back 7 deque_new)" "0 :: int"]
  by (simp add: dq_push_back_def deque_new_def deque_ok_def)

end
