(* ===== verification/Daemon_Quiet.thy ===== *)
theory Daemon_Quiet
  imports Daemon_Safe
begin

section \<open>What happens to a socket its client does not touch\<close>

text \<open>
  Between two requests of a client the daemon reads packets, runs callbacks and serves nobody on this
  channel. The addresses of a session, the way from the channel to it and the channel's
  registration stay as they are, and each such step writes at most one response.
\<close>

fun pcb_names :: "pcb \<Rightarrow> u32 \<times> u16 \<times> u32 \<times> u16" where
  "pcb_names (TcpPcb s) = (laddr s, lport s, faddr s, fport s)"
| "pcb_names (UdpPcb s) = (laddr s, lport s, faddr s, fport s)"

definition names_kept :: "daemon \<Rightarrow> daemon \<Rightarrow> bool" where
  "names_kept d d' \<longleftrightarrow> d_chans d' = d_chans d \<and>
     (\<forall>e. map_option ep_pcb (d_eps d' e) = map_option ep_pcb (d_eps d e)) \<and>
     (\<forall>p. map_option pcb_names (d_pcbs d' p) = map_option pcb_names (d_pcbs d p)) \<and>
     (\<forall>c. HChannel c \<in> set (loop_channels (d_loop d)) \<longrightarrow> HChannel c \<in> set (loop_channels (d_loop d')))"

definition one_answer :: "daemon \<Rightarrow> daemon \<Rightarrow> bool" where
  "one_answer d d' \<longleftrightarrow> (\<exists>ms. sent_resps d' = sent_resps d @ ms \<and> length ms \<le> 1)"

text \<open>Writing to a channel whose other end is open does not fail.\<close>

definition writes_ok :: "denv \<Rightarrow> bool" where
  "writes_ok E \<longleftrightarrow> (\<forall>r. nwritten E r \<noteq> -1)"

lemma names_kept_refl [simp, intro]: "names_kept d d"
  by (simp add: names_kept_def)

lemma names_kept_trans [trans]: "names_kept d d' \<Longrightarrow> names_kept d' d'' \<Longrightarrow> names_kept d d''"
  by (simp add: names_kept_def)

lemma one_answer_same [simp]: "sent_resps d' = sent_resps d \<Longrightarrow> one_answer d d'"
  by (simp add: one_answer_def)

lemma names_kept_put_ep: "d_eps d e = Some ep \<Longrightarrow> ep_pcb ep' = ep_pcb ep \<Longrightarrow> names_kept d (put_ep e (Some ep') d)"
  by (simp add: names_kept_def put_ep_def)

lemma names_kept_put_pcb: "d_pcbs d p = Some s \<Longrightarrow> pcb_names s' = pcb_names s \<Longrightarrow> names_kept d (put_pcb p (Some s') d)"
  by (simp add: names_kept_def put_pcb_def)

lemma names_kept_more: "net.more d' = net.more d \<Longrightarrow> names_kept d d'"
  using daemon_more [of d' d] by (simp add: names_kept_def)

lemma names_kept_rx [simp]: "names_kept d (d\<lparr>d_rxQ := q\<rparr>)" "names_kept d (d\<lparr>d_rxQ := q, d_groups := g\<rparr>)"
  by (simp_all add: names_kept_def)

text \<open>Seen from a channel.\<close>

lemma names_kept_session:
  assumes k: "names_kept d d'" and s: "chan_socket c d = Inr (e, ep)" "ep_session ep d = Inr (p, s)"
  shows "\<exists>ep' s'. chan_socket c d' = Inr (e, ep') \<and> ep_session ep' d' = Inr (p, s') \<and> pcb_names s' = pcb_names s"
proof -
  obtain ch where ch: "d_chans d c = Some ch" "ch_socket ch = Some e" "d_eps d e = Some ep" "ep_pcb ep = Some p" "d_pcbs d p = Some s"
    using s by (auto simp: chan_socket_def ep_session_def bindr_eq_Inr)
  have "map_option ep_pcb (d_eps d' e) = map_option ep_pcb (d_eps d e)"
    "map_option pcb_names (d_pcbs d' p) = map_option pcb_names (d_pcbs d p)" "d_chans d' = d_chans d"
    using k by (simp_all add: names_kept_def)
  then show ?thesis using ch by (auto simp: chan_socket_def ep_session_def)
qed

lemma chan_write_quiet:
  assumes "writes_ok E" "chan_write E c resp d = Inr d'"
  shows "d' = d\<lparr>sent_resps := sent_resps d @ [(c, resp)]\<rparr>"
  using assms by (auto simp: chan_write_def bindr_eq_Inr writes_ok_def)

lemma write_kept: "names_kept d (d\<lparr>sent_resps := x\<rparr>)"
  by (simp add: names_kept_def)

lemma conn_established_quiet:
  assumes wf: "daemon_wf d" and E: "writes_ok E" and r: "conn_established E c d = Inr d'"
  shows "names_kept d d' \<and> one_answer d d'"
proof (cases "d_chans d c")
  case None
  then show ?thesis using r by (simp add: conn_established_def)
next
  case (Some ch)
  then obtain e ep p s where so: "chan_socket c d = Inr (e, ep)" "ep_session ep d = Inr (p, s)"
    and k: "(case s of UdpPcb _ \<Rightarrow> Inl NullDeref
      | TcpPcb _ \<Rightarrow> bindr (on_loop (unregisterSelf (HEstab p)) d) (chan_write E c connect_answer)) = Inr d'"
    using r by (auto simp: conn_established_def bindr_eq_Inr)
  then obtain d1 where u: "on_loop (unregisterSelf (HEstab p)) d = Inr d1" and w: "chan_write E c connect_answer d1 = Inr d'"
    by (cases s) (auto simp: bindr_eq_Inr)
  obtain r1 where r1: "unregisterSelf (HEstab p) (d_loop d) = Inr r1" "d1 = d\<lparr>d_loop := r1\<rparr>"
    using u by (auto simp: on_loop_def bindr_eq_Inr)
  obtain i where i: "io_handles (d_loop d) (HEstab p) = Some i"
    using r1(1) by (auto simp: unregisterSelf_def bindr_eq_Inr)
  have "loop_channels r1 = remove1 (HEstab p) (loop_channels (d_loop d))"
    using unregisterSelf_ok [OF objects_wfD(1) [OF daemon_wfD(1) [OF wf]] i] r1(1) by auto
  then have "names_kept d d1" using r1(2) by (auto simp: names_kept_def in_set_remove1)
  then show ?thesis using chan_write_quiet [OF E w] names_kept_trans write_kept r1(2) by (auto simp: one_answer_def)
qed

lemma put_to_socket_quiet:
  assumes "put_to_socket so pk d = Inr d'"
  shows "names_kept d d' \<and> sent_resps d' = sent_resps d"
proof -
  obtain e ep where e: "so = Some e" "d_eps d e = Some ep" "d' = put_ep e (Some (putToRecvQ pk ep)) d"
    using assms by (cases so) (auto simp: put_to_socket_def bindr_eq_Inr)
  then show ?thesis using names_kept_put_ep [OF e(2)] by (simp add: putToRecvQ_def enqueue_def markSChannelAsReadable_def put_ep_def)
qed

lemma tcp_recv_names:
  assumes r: "tcp_recv put estab fb s st = Inr (s', st')"
  shows "pcb_names (TcpPcb s') = pcb_names (TcpPcb s)"
proof -
  consider "conn_state s = TCP_SYN_SENT" | "conn_state s = TCP_ESTABLISHED"
    | "conn_state s \<noteq> TCP_SYN_SENT" "conn_state s \<noteq> TCP_ESTABLISHED" by blast
  then show ?thesis
  proof cases
    case 1
    then show ?thesis using tcp_recv_syn_sent [OF r] by auto
  next
    case 2
    then show ?thesis using tcp_recv_established [OF r] by auto
  next
    case 3
    with r have "s' = s" by (cases "conn_state s") (auto simp: tcp_recv_def Let_def bindr_eq_Inr)
    then show ?thesis by simp
  qed
qed

text \<open>A segment either reaches the callback or the queue, not both.\<close>

lemma tcp_recv_once:
  assumes "tcp_recv put estab fb s st = Inr (s', st')"
  shows "(\<exists>st1 c. net.more st1 = net.more st \<and> estab c st1 = Inr st') \<or>
    (\<exists>f st1. put f st = Inr st1 \<and> net.more st' = net.more st1) \<or> net.more st' = net.more st"
proof -
  consider "conn_state s = TCP_SYN_SENT" | "conn_state s = TCP_ESTABLISHED"
    | "conn_state s \<noteq> TCP_SYN_SENT" "conn_state s \<noteq> TCP_ESTABLISHED" by blast
  then show ?thesis
  proof cases
    case 1
    obtain v s1 st1 where a: "ack2peer v s1 st = Inr st1"
      and e: "(case onConnEstabCB s of None \<Rightarrow> Inr st1 | Some ch \<Rightarrow> estab ch st1) = Inr st'"
      using assms 1 by (auto simp: tcp_recv_def Let_def bindr_eq_Inr)
    then show ?thesis using ack2peer_frame [OF a] by (cases "onConnEstabCB s") auto
  next
    case 2
    then have "st' = st \<or> (\<exists>f x v s2. put f st = Inr x \<and> ack2peer v s2 x = Inr st')"
      using assms by (auto simp: tcp_recv_def Let_def bindr_eq_Inr split: if_splits)
    then show ?thesis using ack2peer_frame by blast
  next
    case 3
    with assms have "st' = st" by (cases "conn_state s") (auto simp: tcp_recv_def Let_def bindr_eq_Inr)
    then show ?thesis by simp
  qed
qed

lemma tcp_rx_quiet:
  assumes wf: "daemon_wf d" and E: "writes_ok E" and r: "tcp_rx E fbs d = Inr d'"
  shows "names_kept d d' \<and> one_answer d d'"
proof (cases "d' = d")
  case False
  then obtain p s s' d1 where p: "d_pcbs d p = Some (TcpPcb s)"
    and rc: "tcp_recv (\<lambda>fb. put_to_socket (socket_of s) (None, fb # tl fbs)) (conn_established E) (hd fbs) s d = Inr (s', d1)"
    and d': "d' = put_pcb p (Some (TcpPcb s')) d1"
    using tcp_rx_cases [OF r] by blast
  have k: "names_kept d d1 \<and> one_answer d d1"
    using tcp_recv_once [OF rc]
  proof (elim disjE exE conjE)
    fix st1 c assume a: "net.more st1 = net.more d" "conn_established E c st1 = Inr d1"
    have "daemon_wf st1" using wf daemon_wf_cong [OF same_objects_more [OF a(1)]] by simp
    from conn_established_quiet [OF this E a(2)] show ?thesis
      using names_kept_trans [OF names_kept_more [OF a(1)]] daemon_more(9) [OF a(1)] by (simp add: one_answer_def)
  next
    fix f st1 assume a: "put_to_socket (socket_of s) (None, f # tl fbs) d = Inr st1" "net.more d1 = net.more st1"
    then show ?thesis using put_to_socket_quiet [OF a(1)] names_kept_trans [OF _ names_kept_more [OF a(2)]] daemon_more(9) [OF a(2)] by simp
  next
    assume a: "net.more d1 = net.more d"
    then show ?thesis using names_kept_more [OF a] daemon_more(9) [OF a] by simp
  qed
  have "map_option pcb_names (d_pcbs d1 p) = map_option pcb_names (d_pcbs d p)" using k by (simp add: names_kept_def)
  then obtain s1 where "d_pcbs d1 p = Some s1" "pcb_names s1 = pcb_names (TcpPcb s)" using p by auto
  then have "names_kept d1 d'" unfolding d' using tcp_recv_names [OF rc] by (intro names_kept_put_pcb) auto
  then show ?thesis using k names_kept_trans d' by (auto simp: one_answer_def put_pcb_def)
qed simp

lemma ip_turn_quiet:
  assumes wf: "daemon_wf d" and E: "writes_ok E" and r: "ip_turn E d = Inr d'"
  shows "names_kept d d' \<and> one_answer d d'"
proof -
  obtain fb q act g where q: "d_rxQ d = fb # q" "ip_rx fb (d_groups d) = Inr (act, g)"
    using r by (auto simp: ip_turn_def bindr_eq_Inr split: list.splits)
  let ?d = "d\<lparr>d_rxQ := q, d_groups := g\<rparr>"
  have "daemon_wf ?d = daemon_wf d" by (rule daemon_wf_cong) (simp add: same_objects_def)
  then have w: "daemon_wf ?d" using wf by simp
  have "names_kept ?d d' \<and> one_answer ?d d'"
  proof (cases act)
    case RxDrop
    then show ?thesis using r q by (simp add: ip_turn_def Let_def)
  next
    case (ToUdp fbs)
    then have "udp_rx fbs ?d = Inr d'" using r q by (simp add: ip_turn_def Let_def)
    then show ?thesis using udp_rx_cases put_to_socket_quiet by fastforce
  next
    case (ToTcp fbs)
    then have "tcp_rx E fbs ?d = Inr d'" using r q by (simp add: ip_turn_def Let_def)
    then show ?thesis using tcp_rx_quiet [OF w E] by blast
  qed
  then show ?thesis using names_kept_trans [of d ?d d'] by (simp add: one_answer_def)
qed

lemma deliver_quiet:
  assumes E: "writes_ok E" and r: "deliver E c ra d = Inr d'"
  shows "names_kept d d' \<and> one_answer d d'"
proof -
  obtain e ep pk ep1 resp where so: "chan_socket c d = Inr (e, ep)" and t: "takeFromRecvQ ep = Inr (pk, ep1)"
    and w: "chan_write E c resp (put_ep e (Some ep1) d) = Inr d'"
    using r by (auto simp: deliver_def bindr_eq_Inr)
  have "d_eps d e = Some ep" using so by (auto simp: chan_socket_def bindr_eq_Inr)
  then have "names_kept d (put_ep e (Some ep1) d)" using same_ep_take_wait [OF t] by (intro names_kept_put_ep) (simp_all add: same_ep_def)
  then show ?thesis using chan_write_quiet [OF E w] names_kept_trans write_kept by (auto simp: one_answer_def put_ep_def)
qed

lemma sChannelReadCb_quiet:
  assumes E: "writes_ok E" and r: "sChannelReadCb E e d = Inr d'"
  shows "names_kept d d' \<and> one_answer d d'"
proof -
  obtain ep where e: "d_eps d e = Some ep" using r by (auto simp: sChannelReadCb_def bindr_eq_Inr)
  let ?d0 = "put_ep e (Some (drain_pipe ep)) d"
  have k0: "names_kept d ?d0" using e same_ep_flags(2) [of ep] by (intro names_kept_put_ep) (simp_all add: same_ep_def)
  show ?thesis
  proof (cases "ep_waiting (drain_pipe ep)")
    case False
    then have "d' = ?d0" using r e by (simp add: sChannelReadCb_def Let_def)
    then show ?thesis using k0 by (simp add: put_ep_def)
  next
    case True
    then obtain d1 ep1 where d1: "(case calls_back (drain_pipe ep) of None \<Rightarrow> Inr ?d0
        | Some (OnAsyncNewUdpPacket c ra) \<Rightarrow> onAsyncNewUdpPacket E c ra ?d0
        | Some (OnAsyncNewTcpPacket c) \<Rightarrow> onAsyncNewTcpPacket E c ?d0) = Inr d1" "d_eps d1 e = Some ep1"
      "d' = put_ep e (Some (setWaiting False ep1)) d1"
      using r e by (auto simp: sChannelReadCb_def bindr_eq_Inr Let_def)
    have "d1 = ?d0 \<or> (\<exists>c ra. deliver E c ra ?d0 = Inr d1)"
      using d1(1) by (auto simp: onAsyncNewUdpPacket_def onAsyncNewTcpPacket_def split: option.splits async_cb.splits if_splits)
    then have k1: "names_kept ?d0 d1 \<and> one_answer ?d0 d1" using deliver_quiet [OF E] by auto
    have "names_kept d1 d'" unfolding d1(3) using d1(2) same_ep_flags(1) [of ep1] by (intro names_kept_put_ep) (auto simp: same_ep_def)
    then have "names_kept d d'" using names_kept_trans [OF names_kept_trans [OF k0]] k1 by blast
    moreover have "sent_resps d' = sent_resps d1" "sent_resps ?d0 = sent_resps d" by (simp_all add: d1(3) put_ep_def)
    ultimately show ?thesis using k1 by (simp add: one_answer_def)
  qed
qed

lemma estabReadCb_quiet:
  assumes wf: "daemon_wf d" and E: "writes_ok E" and r: "estabReadCb E p d = Inr d'"
  shows "names_kept d d' \<and> one_answer d d'"
proof -
  obtain s where "d_pcbs d p = Some s" using r by (auto simp: estabReadCb_def bindr_eq_Inr)
  then show ?thesis using r conn_established_quiet [OF wf E]
    by (cases s) (auto simp: estabReadCb_def split: option.splits)
qed

text \<open>No connection to accept, nothing to read from the channels.\<close>

lemma callback_quiet:
  assumes "daemon_wf d" "writes_ok E" "accepted E = []" "\<And>c. read_msg E c = RdError True"
    and "daemon_cb E h OnRead = Some f" "f d = Inr d'"
  shows "names_kept d d' \<and> one_answer d d'"
  using assms sChannelReadCb_quiet estabReadCb_quiet
  by (cases h) (auto simp: onReadReady_def bindr_eq_Inr)

end
