(* ===== verification/End_To_End.thy ===== *)
theory End_To_End
  imports Whole_System Daemon_Quiet
begin

unbundle bit_operations_syntax

section \<open>A client that waits\<close>

text \<open>
  While a client waits for its response, the daemon goes through the schedule. None of it touches what the
  client's socket is connected to, and the one response a step may write is read before the next.
\<close>

text \<open>The response that makes a client wait.\<close>

definition wait_answer :: Response where
  "wait_answer = \<lparr>retcode = Some RC_WAIT_NEXT, returning = ReturningNotSet\<rparr>"

subsection \<open>While a client waits\<close>

lemma sys_writes_ok [simp]: "writes_ok (sys_denv C K rd acc d)"
  by (simp add: writes_ok_def)

lemma names_kept_marked: "names_kept d (marked h d)" "names_kept d (unmarked h d)"
  by (simp_all add: names_kept_def)

lemma run_event_quiet:
  assumes K: "kernel_ok K" and r: "dmn.reachable d" and e: "run_event C K ev d = Inr d'"
  shows "dmn.reachable d' \<and> names_kept d d' \<and> one_answer d d'"
proof -
  have "names_kept d d' \<and> one_answer d d'"
  proof (cases ev)
    case (Net rd)
    then show ?thesis using e by (auto simp: interface_turn_def bindr_eq_Inr)
  next
    case Packet
    then show ?thesis using e ip_turn_quiet [OF daemon_reachable_wf [OF r], of "sys_denv C K quiet [] d" d'] by (auto split: if_splits)
  next
    case (Ready h)
    let ?E = "sys_denv C K quiet [] d"
    show ?thesis
    proof (cases "h \<in> set (loop_channels (d_loop d))")
      case True
      obtain f where f: "daemon_cb ?E h OnRead = Some f" using OnRead_callback by blast
      obtain d1 where d1: "f (marked h d) = Inr d1" "d' = unmarked h d1"
        using e Ready True marked_turn [OF registered_live(1) [OF r True] f] by (auto simp: loop_event_def bindr_eq_Inr split: if_splits)
      have "names_kept (marked h d) d1 \<and> one_answer (marked h d) d1"
        using callback_quiet [OF daemon_reachable_wf [OF reachable_marked [OF r]] _ _ _ f d1(1)] by (simp add: quiet_def)
      moreover have "names_kept d' d'" ..
      ultimately show ?thesis unfolding d1(2)
        using names_kept_trans [OF names_kept_trans [OF names_kept_marked(1)] names_kept_marked(2)] by (auto simp: one_answer_def)
    qed (use e Ready in \<open>simp add: loop_event_def\<close>)
  qed
  then show ?thesis using run_event_reachable [OF K r e] by blast
qed

text \<open>The daemon is alive, or has failed; alive, it knows the sockets of \<open>d\<close>.\<close>

definition tracks :: "daemon \<Rightarrow> 'k world \<Rightarrow> bool" where
  "tracks d w \<longleftrightarrow> (\<forall>x. w_daemon w = Inr x \<longrightarrow> dmn.reachable x \<and> names_kept d x)"

lemma advance_quiet:
  assumes K: "kernel_ok K" and t: "tracks d w" and u: "w_unread w c = []" and w': "w' = advance C (run_event C K ev) w"
  shows "tracks d w' \<and> w_conn w' = w_conn w \<and> length (w_unread w' c) \<le> 1 \<and> (w_unread w' c \<noteq> [] \<longrightarrow> (\<exists>x. w_daemon w' = Inr x))"
proof (cases "w_daemon w")
  case (Inl x)
  then show ?thesis using w' t u by simp
next
  case (Inr x)
  then have x: "dmn.reachable x" "names_kept d x" using t by (simp_all add: tracks_def)
  show ?thesis
  proof (cases "run_event C K ev x")
    case (Inl y)
    then show ?thesis using w' u Inr by (simp add: advance_def tracks_def)
  next
    case step: (Inr x')
    note q = run_event_quiet [OF K x(1) step]
    obtain ms where ms: "sent_resps x' = sent_resps x @ ms" "length ms \<le> 1" using q by (auto simp: one_answer_def)
    have "length (filter (\<lambda>m. fst m = c) ms) \<le> 1" using ms(2) length_filter_le le_trans by blast
    then show ?thesis using w' u Inr step ms(1) q names_kept_trans [OF x(2)] by (simp add: advance_def tracks_def)
  qed
qed

lemma await_quiet:
  assumes "kernel_ok K" "tracks d w" "w_unread w c = []" "w' = await C K c evs w"
  shows "tracks d w' \<and> w_conn w' = w_conn w \<and> length (w_unread w' c) \<le> 1 \<and> (w_unread w' c \<noteq> [] \<longrightarrow> (\<exists>x. w_daemon w' = Inr x))"
  using assms(2-4)
proof (induction evs arbitrary: w)
  case Nil
  then show ?case by (simp add: tracks_def)
next
  case (Cons ev evs)
  let ?w = "advance C (run_event C K ev) w"
  have a: "tracks d ?w \<and> w_conn ?w = w_conn w \<and> length (w_unread ?w c) \<le> 1 \<and> (w_unread ?w c \<noteq> [] \<longrightarrow> (\<exists>x. w_daemon ?w = Inr x))"
    using advance_quiet [OF assms(1) Cons.prems(1,2) refl] .
  have w': "w' = await C K c evs ?w" using Cons.prems(2,3) by simp
  show ?case
  proof (cases "w_unread ?w c = []")
    case True
    then show ?thesis using Cons.IH [OF _ True w'] a by simp
  next
    case False
    then have "w' = ?w\<lparr>w_sched := evs\<rparr>" using w' by (cases evs) simp_all
    then show ?thesis using a by (simp add: tracks_def)
  qed
qed

lemma read_quiet:
  assumes K: "kernel_ok K" and t: "tracks d (world s)" and c: "w_conn (world s) ch = Some (Accepted c)" "w_unread (world s) c = []"
    and r: "glibc (sys_read C K B ch buf n) s = (x, s')"
  shows "tracks d (world s') \<and> w_conn (world s') = w_conn (world s) \<and> w_unread (world s') c = [] \<and>
    (io_ret x = -1 \<or> io_ret x = 0 \<or> (\<exists>y. w_daemon (world s') = Inr y))"
proof -
  let ?w = "await C K c (w_sched (world s)) (world s)"
  have a: "tracks d ?w \<and> w_conn ?w = w_conn (world s) \<and> length (w_unread ?w c) \<le> 1 \<and> (w_unread ?w c \<noteq> [] \<longrightarrow> (\<exists>x. w_daemon ?w = Inr x))"
    using await_quiet [OF K t c(2) refl] .
  show ?thesis
  proof (cases "w_unread ?w c")
    case Nil
    then show ?thesis using r a c(1)
      by (cases "w_daemon ?w") (auto simp: glibc_def sys_read_def Let_def io_plain_def split: if_splits)
  next
    case (Cons m ms)
    then show ?thesis using r a c(1) by (auto simp: glibc_def sys_read_def Let_def tracks_def)
  qed
qed

lemma while_eintr_quiet:
  assumes K: "kernel_ok K"
  shows "tracks d (world s) \<Longrightarrow> w_conn (world s) ch = Some (Accepted c) \<Longrightarrow> w_unread (world s) c = [] \<Longrightarrow>
    while_eintr (sys_env C K B) ch n s = Inr (x, s') \<Longrightarrow> tracks d (world s') \<and> w_conn (world s') = w_conn (world s) \<and>
    w_unread (world s') c = [] \<and> (io_ret x = 0 \<or> (\<exists>y. w_daemon (world s') = Inr y))"
proof (induction n arbitrary: s)
  case (Suc n)
  obtain y s1 where y: "glibc (sys_read C K B ch (Some RPC_MESSAGE_MAX_SIZE) RPC_MESSAGE_MAX_SIZE) s = (y, s1)" by fastforce
  note q = read_quiet [OF K Suc.prems(1-3) y]
  show ?case
  proof (cases "io_ret y = -1")
    case True
    then have "while_eintr (sys_env C K B) ch n s1 = Inr (x, s')" using Suc.prems(4) y by simp
    then show ?thesis using Suc.IH [of s1] q Suc.prems(2) by simp
  next
    case False
    then have "y = x" "s1 = s'" using Suc.prems(4) y by simp_all
    then show ?thesis using q False by auto
  qed
qed simp

lemma recv_loop_quiet:
  assumes K: "kernel_ok K"
  shows "tracks d (world s) \<Longrightarrow> w_conn (world s) ch = Some (Accepted c) \<Longrightarrow> w_unread (world s) c = [] \<Longrightarrow>
    chan_recv_loop (sys_env C K B) ch n s = Inr (resp, s') \<Longrightarrow> w_conn (world s') = w_conn (world s) \<and> w_unread (world s') c = [] \<and>
    (\<exists>x. w_daemon (world s') = Inr x \<and> dmn.reachable x \<and> names_kept d x)"
proof (induction n arbitrary: s)
  case (Suc n)
  obtain x s1 r where x: "while_eintr (sys_env C K B) ch (recv_fuel B) s = Inr (x, s1)" "io_ret x \<noteq> 0"
    "(if retcode r = Some RC_WAIT_NEXT then chan_recv_loop (sys_env C K B) ch n s1 else Inr (r, s1)) = Inr (resp, s')"
    using Suc.prems(4) by (auto simp: bindr_eq_Inr)
  note q = while_eintr_quiet [OF K Suc.prems(1-3) x(1)]
  show ?case
  proof (cases "retcode r = Some RC_WAIT_NEXT")
    case True
    then show ?thesis using Suc.IH [of s1] q x(3) Suc.prems(2) by simp
  next
    case False
    then show ?thesis using q x(2,3) by (auto simp: tracks_def)
  qed
qed simp

lemma dead_never_answers:
  assumes K: "kernel_ok K" and s: "w_daemon (world s) = Inl x" "w_conn (world s) ch = Some (Accepted c)" "w_unread (world s) c = []"
  shows "chan_recv_loop (sys_env C K B) ch n s \<noteq> Inr (resp, s')"
proof
  assume r: "chan_recv_loop (sys_env C K B) ch n s = Inr (resp, s')"
  have t: "tracks d (world s)" for d using s(1) by (simp add: tracks_def)
  have k: "\<exists>y. w_daemon (world s') = Inr y \<and> names_kept d y" for d using recv_loop_quiet [OF K t s(2,3) r, of d] by blast
  from k [of "d\<lparr>d_chans := \<lambda>_. None\<rparr>"] k [of "d\<lparr>d_chans := \<lambda>_. Some ch'\<rparr>"] show False
    by (auto simp: names_kept_def dest: fun_cong)
qed

text \<open>A transaction that returned was served.\<close>

lemma returned_call:
  assumes daemon: "w_daemon (world s) = Inr d" "dmn.reachable d" "kernel_ok K"
    and conn: "w_conn (world s) ch = Some (Accepted c)" "w_unread (world s) c = []" "HChannel c \<in> set (loop_channels (d_loop d))"
    and msg: "carries_request C req" "recv_fuel B = Suc n"
    and E: "E = sys_denv C K (quiet(c := RdBytes (pack_request C req))) [] d"
    and t: "transact (sys_env C K B) ch req s = Inr (resp', s')"
  shows "\<exists>resp d1. handleRequest E c req (marked (HChannel c) d) = Inr (resp, d1) \<and> retcode resp \<noteq> None"
proof (cases "handleRequest E c req (marked (HChannel c) d)")
  case (Inl x)
  let ?f = "\<lambda>d. loop_event (sys_denv C K (quiet(c := RdBytes (pack_request C req))) [] d) (HChannel c) POLLIN d"
  have "x = WouldBlock" using failed_call [OF daemon conn msg E, of x] Inl t by auto
  have "parse_request C (Some (pack_request C req)) = req" using msg(1) by (simp add: carries_request_def)
  then have "?f d = Inl x" using request_turn [OF daemon(3,2) conn(3) E] Inl unfolding E by (simp add: bindr_def)
  then have "advance C ?f (world s) = (world s)\<lparr>w_daemon := Inl x\<rparr>" using daemon(1) by (simp add: advance_def)
  then show ?thesis
    using t transact_sends [OF daemon(1) conn(1) msg(1), of K B] dead_never_answers [OF daemon(3), of _ x ch c C B "recv_fuel B" resp' s'] conn
    by simp
next
  case (Inr z)
  obtain resp d1 where "z = (resp, d1)" by (cases z)
  then show ?thesis using failed_call [OF daemon conn msg E, of _ resp d1] Inr t by auto
qed

subsection \<open>Reading after events\<close>

lemma advance_silent:
  assumes "w_daemon w = Inr d" "f d = Inr d'" "sent_resps d' = sent_resps d"
  shows "advance C f w = w\<lparr>w_daemon := Inr d'\<rparr>"
  using assms by (simp add: advance_def)

lemma await_ready: "w_unread w c \<noteq> [] \<Longrightarrow> await C K c evs w = w\<lparr>w_sched := evs\<rparr>"
  by (cases evs) simp_all

text \<open>The events before the one that answers are silent.\<close>

fun silent_run :: "codec \<Rightarrow> kernel \<Rightarrow> daemon_event list \<Rightarrow> daemon \<Rightarrow> daemon \<Rightarrow> bool" where
  "silent_run C K [] d d' \<longleftrightarrow> d' = d"
| "silent_run C K (ev # evs) d d' \<longleftrightarrow>
     (\<exists>d1. run_event C K ev d = Inr d1 \<and> sent_resps d1 = sent_resps d \<and> silent_run C K evs d1 d')"

lemma await_answer:
  assumes "silent_run C K evs d d1" "w_daemon w = Inr d" "w_unread w c = []"
    and "run_event C K ev d1 = Inr d'" "sent_resps d' = sent_resps d1 @ [(c, resp)]"
  shows "await C K c (evs @ ev # evs') w =
    w\<lparr>w_daemon := Inr d', w_unread := (w_unread w)(c := [serialize_response C resp]), w_sched := evs'\<rparr>"
  using assms
proof (induction evs arbitrary: w d)
  case Nil
  then show ?case using advance_answer [of w d "run_event C K ev" d' c resp C] by (simp add: await_ready fun_upd_def)
next
  case (Cons x evs)
  then obtain d2 where d2: "run_event C K x d = Inr d2" "sent_resps d2 = sent_resps d" "silent_run C K evs d2 d1" by auto
  have "advance C (run_event C K x) w = w\<lparr>w_daemon := Inr d2\<rparr>" using advance_silent [of w d "run_event C K x"] Cons.prems(2) d2 by simp
  moreover have "await C K c (evs @ ev # evs') (w\<lparr>w_daemon := Inr d2\<rparr>) =
      w\<lparr>w_daemon := Inr d', w_unread := (w_unread w)(c := [serialize_response C resp]), w_sched := evs'\<rparr>"
    using Cons.IH [OF d2(3), of "w\<lparr>w_daemon := Inr d2\<rparr>"] Cons.prems(3-5) by (simp add: fun_upd_def)
  moreover have "await C K c ((x # evs) @ ev # evs') w = await C K c (evs @ ev # evs') (advance C (run_event C K x) w)"
    using Cons.prems(3) by simp
  ultimately show ?case by (simp only:)
qed

lemma recv_after_events:
  assumes run: "silent_run C K evs d d1" "run_event C K ev d1 = Inr d'" "sent_resps d' = sent_resps d1 @ [(c, resp)]"
    and s: "w_daemon (world s) = Inr d" "w_conn (world s) ch = Some (Accepted c)" "w_unread (world s) c = []"
      "w_sched (world s) = evs @ ev # evs'"
    and resp: "carries_response C resp" "retcode resp \<noteq> Some RC_WAIT_NEXT" and fuel: "0 < recv_fuel B"
  shows "chan_recv_loop (sys_env C K B) ch (Suc n) s =
    Inr (resp, s\<lparr>errno := 0, world := (world s)\<lparr>w_daemon := Inr d', w_sched := evs'\<rparr>\<rparr>)"
proof -
  let ?b = "serialize_response C resp"
  obtain m where m: "recv_fuel B = Suc m" using fuel gr0_implies_Suc by blast
  have "(w_unread (world s))(c := []) = w_unread (world s)" using s(3) by auto
  then have "glibc (sys_read C K B ch (Some RPC_MESSAGE_MAX_SIZE) RPC_MESSAGE_MAX_SIZE) s =
      (\<lparr>io_ret = int (length ?b), io_buf = ?b, io_addr = [], io_addrlen = None\<rparr>,
       s\<lparr>errno := 0, world := (world s)\<lparr>w_daemon := Inr d', w_sched := evs'\<rparr>\<rparr>)"
    using await_answer [OF run(1) s(1,3) run(2,3), of evs'] s(2,4) resp(1)
    by (simp add: glibc_def sys_read_def Let_def carries_response_def)
  then show ?thesis using m resp by (simp add: carries_response_def)
qed

end
