(* ===== verification/System_Inv.thy ===== *)
theory System_Inv
  imports End_To_End
begin

unbundle bit_operations_syntax

section \<open>What every program keeps of the system\<close>

text \<open>
  A program makes any calls, in any order. The locale \<open>kept_world\<close> holds for an environment each call
  of which keeps a predicate of the world; then so does every intercepted call and every sequence
  of them. It is interpreted on the environment built from the daemon, with the predicate
  \<open>sys_inv\<close>: the daemon is in a reachable state and listens to every client connected to it, each on a
  channel of its own.
\<close>

definition keeps :: "('w \<Rightarrow> bool) \<Rightarrow> ('w \<Rightarrow> 'r \<times> int \<times> 'w) \<Rightarrow> bool" where
  "keeps P f \<longleftrightarrow> (\<forall>w. P w \<longrightarrow> P (snd (snd (f w))))"

lemma keeps_glibc: "keeps P f \<Longrightarrow> glibc f s = (r, s') \<Longrightarrow> P (world s) \<Longrightarrow> P (world s')"
  unfolding keeps_def glibc_def by (drule spec [of _ "world s"]) (auto split: prod.splits)

subsection \<open>Programs over an environment that keeps something\<close>

locale kept_world =
  fixes E :: "'w env" and P :: "'w \<Rightarrow> bool"
  assumes keeps_calls: "keeps P (g_socket E a t p)" "keeps P (g_connect E fd b n)" "keeps P (g_close E fd)"
      "keeps P (g_read E fd m n)" "keeps P (g_write E fd b n)" "keeps P (g_send E fd b n f)"
      "keeps P (g_sendto E fd b n f b' n')" "keeps P (g_recv E fd m n f)" "keeps P (g_recvfrom E fd m n f m' m'')"
    and keeps_names: "keeps P (g_getpeername E fd m m')" "keeps P (g_getsockname E fd m m')"
      "keeps P (g_getsockopt E fd l k m m')" "keeps P (g_setsockopt E fd l k b n)" "keeps P (g_fcntl E fd l k)"
begin

lemmas glibc_kept = keeps_calls [THEN keeps_glibc] keeps_names [THEN keeps_glibc]

lemma while_eintr_kept: "while_eintr E ch n s = Inr (r, s') \<Longrightarrow> P (world s) \<Longrightarrow> P (world s')"
proof (induction n arbitrary: s)
  case (Suc n)
  then show ?case by (auto split: prod.splits if_splits dest: glibc_kept(4))
qed simp

lemma chan_recv_loop_kept: "chan_recv_loop E ch n s = Inr (r, s') \<Longrightarrow> P (world s) \<Longrightarrow> P (world s')"
proof (induction n arbitrary: s)
  case (Suc n)
  then show ?case by (auto simp: bindr_eq_Inr split: if_splits dest: while_eintr_kept)
qed simp

lemma transact_kept: "transact E ch req s = Inr (r, s') \<Longrightarrow> P (world s) \<Longrightarrow> P (world s')"
  by (auto simp: transact_def chan_send_def chan_recv_def Let_def bindr_eq_Inr split: prod.splits
      dest: glibc_kept(5) chan_recv_loop_kept)

lemma open_chan_kept: "open_chan E s = Inr (r, s') \<Longrightarrow> P (world s) \<Longrightarrow> P (world s')"
  by (auto simp: open_chan_def split: prod.splits if_splits dest: glibc_kept(1,2))

lemma table_kept:
  "next_avail_fd s = Inr (r, s') \<Longrightarrow> world s' = world s" "set_fd_chanmap fd ch s = Inr s'' \<Longrightarrow> world s'' = world s"
  "unset_fd_chanmap fd ch s = Inr s'' \<Longrightarrow> world s'' = world s" "ret_and_errno c s = Inr (r', s') \<Longrightarrow> world s' = world s"
  by (auto simp: next_avail_fd_def set_fd_chanmap_def unset_fd_chanmap_def ret_and_errno_def bindr_eq_Inr split: if_splits option.splits)

lemma close_kept:
  "close n E fd s = Inr (r, s') \<Longrightarrow> P (world s) \<Longrightarrow> P (world s')"
  "close_chan n E fd s = Inr s'' \<Longrightarrow> P (world s) \<Longrightarrow> P (world s'')"
proof (induction n E\<equiv>E fd s and n E\<equiv>E fd s arbitrary: r s' and s'' rule: close_close_chan.induct)
  case (2 n fd s)
  show ?case
  proof (cases "is_assigned_by_velox s fd")
    case True
    obtain ch0 resp s1 c ch s2 s3 where c: "fd_chanmap s fd = Inr ch0" "transact E ch0 (request s CallClose) s = Inr (resp, s1)"
      "fd_chanmap s1 fd = Inr ch" "unset_fd_chanmap fd ch s1 = Inr s2" "close_chan n E ch s2 = Inr s3"
      "ret_and_errno c s3 = Inr (r, s')" "returning resp = RetClose c"
      using 2(2) True by (auto simp: bindr_eq_Inr returning_Inr simp del: close_chan.simps)
    show ?thesis using 2(1) [OF _ c(7) c(5)] True table_kept(3) [OF c(4)] table_kept(4) [OF c(6)] transact_kept [OF c(2)] 2(3)
      by auto
  qed (use 2 in \<open>auto dest: glibc_kept(3)\<close>)
qed (auto simp: bindr_eq_Inr)

lemma socket_kept: "socket E a t p s = Inr (r, s') \<Longrightarrow> P (world s) \<Longrightarrow> P (world s')"
  by (auto simp: socket_def bindr_eq_Inr returning_Inr split: if_splits option.splits
      dest!: glibc_kept(1) table_kept open_chan_kept transact_kept)

lemma connect_kept: "connect E fd a l s = Inr (r, s') \<Longrightarrow> P (world s) \<Longrightarrow> P (world s')"
  by (auto simp: connect_def bindr_eq_Inr returning_Inr split: if_splits dest!: glibc_kept(2) table_kept transact_kept)

lemma sendto_kept: "sendto E fd b l f a al s = Inr (r, s') \<Longrightarrow> P (world s) \<Longrightarrow> P (world s')"
  by (auto simp: sendto_def bindr_eq_Inr returning_Inr split: if_splits dest!: glibc_kept(7) table_kept transact_kept)

lemma recvfrom_kept: "recvfrom E fd m l f a al s = Inr (x, s') \<Longrightarrow> P (world s) \<Longrightarrow> P (world s')"
  by (auto simp: recvfrom_def bindr_eq_Inr returning_Inr Let_def split: if_splits dest!: glibc_kept(9) table_kept transact_kept)

lemma names_calls_kept:
  "getpeername E fd a al s = Inr (x, s') \<Longrightarrow> P (world s) \<Longrightarrow> P (world s')"
  "getsockname E fd a al s = Inr (x, s') \<Longrightarrow> P (world s) \<Longrightarrow> P (world s')"
  by (auto simp: getpeername_def getsockname_def bindr_eq_Inr returning_Inr Let_def split: if_splits
      dest!: glibc_kept(10,11) table_kept transact_kept)

lemma options_kept:
  "getsockopt E fd lv m v k s = Inr (x, s') \<Longrightarrow> P (world s) \<Longrightarrow> P (world s')"
  "setsockopt E fd lv m b n s = Inr (r, s') \<Longrightarrow> P (world s) \<Longrightarrow> P (world s')"
  "fcntl E fd c i s = Inr (r, s') \<Longrightarrow> P (world s) \<Longrightarrow> P (world s')"
  by (auto simp: getsockopt_def setsockopt_def fcntl_def bindr_eq_Inr split: if_splits option.splits dest!: glibc_kept(12-14))

lemma run_call_kept: "run_call n E call s = Inr (x, s') \<Longrightarrow> P (world s) \<Longrightarrow> P (world s')"
  by (cases call)
    (auto simp: plain_def bindr_eq_Inr send_def fd_write_def recv_def fd_read_def split: if_splits
      dest!: socket_kept connect_kept close_kept sendto_kept recvfrom_kept names_calls_kept options_kept glibc_kept(4-6,8))

lemma run_calls_kept: "run_calls n E calls s = Inr (xs, s') \<Longrightarrow> P (world s) \<Longrightarrow> P (world s')"
  by (induction calls arbitrary: s xs) (auto simp: bindr_eq_Inr dest: run_call_kept)

end

subsection \<open>The invariant\<close>

definition sys_inv :: "'k world \<Rightarrow> bool" where
  "sys_inv w \<longleftrightarrow> (\<forall>d. w_daemon w = Inr d \<longrightarrow> dmn.reachable d \<and>
     (\<forall>fd c. w_conn w fd = Some (Accepted c) \<longrightarrow> HChannel c \<in> set (loop_channels (d_loop d))) \<and>
     (\<forall>fd fd' c. w_conn w fd = Some (Accepted c) \<longrightarrow> w_conn w fd' = Some (Accepted c) \<longrightarrow> fd = fd'))"

lemma sys_invD:
  assumes "sys_inv w" "w_daemon w = Inr d"
  shows "dmn.reachable d" "w_conn w fd = Some (Accepted c) \<Longrightarrow> HChannel c \<in> set (loop_channels (d_loop d))"
    "w_conn w fd = Some (Accepted c) \<Longrightarrow> w_conn w fd' = Some (Accepted c) \<Longrightarrow> fd = fd'"
  using assms by (auto simp: sys_inv_def)

definition still_listens :: "daemon \<Rightarrow> daemon \<Rightarrow> bool" where
  "still_listens d d' \<longleftrightarrow> dmn.reachable d' \<and>
     (\<forall>c. HChannel c \<in> set (loop_channels (d_loop d)) \<longrightarrow> HChannel c \<in> set (loop_channels (d_loop d')))"

lemma sys_inv_advance:
  assumes "sys_inv w" "\<And>d d'. w_daemon w = Inr d \<Longrightarrow> f d = Inr d' \<Longrightarrow> still_listens d d'"
  shows "sys_inv (advance C f w)"
proof (cases "w_daemon w")
  case (Inr d)
  then show ?thesis using assms(1) assms(2) [OF Inr]
    by (cases "f d") (auto simp: advance_def sys_inv_def still_listens_def)
qed (use assms(1) in simp)

lemma sys_inv_await:
  assumes "kernel_ok K"
  shows "sys_inv w \<Longrightarrow> sys_inv (await C K c evs w)"
proof (induction evs arbitrary: w)
  case Nil
  then show ?case by (simp add: sys_inv_def)
next
  case (Cons ev evs)
  have "still_listens d d'" if "w_daemon w = Inr d" "run_event C K ev d = Inr d'" for d d'
    using run_event_quiet [OF assms sys_invD(1) [OF Cons.prems that(1)] that(2)] by (simp add: still_listens_def names_kept_def)
  from Cons.IH [OF sys_inv_advance [OF Cons.prems this]] Cons.prems show ?case by (auto simp: sys_inv_def)
qed

lemma request_still_listens:
  assumes K: "kernel_ok K" and r: "dmn.reachable d"
    and e: "loop_event (sys_denv C K (quiet(c := RdBytes bs)) [] d) (HChannel c) POLLIN d = Inr d'"
  shows "still_listens d d'"
proof (cases "HChannel c \<in> set (loop_channels (d_loop d))")
  case True
  let ?E = "sys_denv C K (quiet(c := RdBytes bs)) [] d" and ?d = "marked (HChannel c) d"
  obtain resp d1 where d1: "handleRequest ?E c (parse_request C (Some bs)) ?d = Inr (resp, d1)"
    "d' = unmarked (HChannel c) (d1\<lparr>sent_resps := sent_resps d1 @ [(c, resp)]\<rparr>)"
    using e request_turn [OF K r True refl, of C bs] by (auto simp: bindr_eq_Inr split: if_splits)
  have "served ?d c d1"
    using handleRequest_served [OF daemon_reachable_wf [OF reachable_marked [OF r]] _ _ d1(1)] kernel_env_ok [OF K r] registered_live(2) [OF r True] by simp
  moreover have "dmn.reachable d'" using loop_event_reachable [OF r kernel_env_ok [OF K r] _ e] by simp
  ultimately show ?thesis using d1(2) by (simp add: still_listens_def served_def)
qed (use e r in \<open>simp add: loop_event_def still_listens_def\<close>)

text \<open>The daemon accepts a connection.\<close>

lemma accept_turn:
  assumes K: "kernel_ok K" and r: "dmn.reachable d" and l: "HListener \<in> set (loop_channels (d_loop d))"
  shows "\<exists>d'. loop_event (sys_denv C K quiet [accept_fd K d] d) HListener POLLIN d = Inr d' \<and> dmn.reachable d' \<and>
    loop_channels (d_loop d') = loop_channels (d_loop d) @ [HChannel (d_fresh d)] \<and> sent_resps d' = sent_resps d \<and>
    d_chans d' = (d_chans d)(d_fresh d := Some \<lparr>ch_peer = [], ch_peerPid = None, ch_socket = None\<rparr>)"
proof -
  let ?E = "sys_denv C K quiet [accept_fd K d] d" and ?d = "marked HListener d"
  have u: "unused_fd (accept_fd K d) ?d" using K r by (auto simp: kernel_ok_def unused_fd_def marked_def set_loop_def put_handle_def split: option.splits)
  have f: "d_fresh ?d = d_fresh d" by (simp add: marked_def set_loop_def split: option.split)
  obtain d1 where d1: "onNewConnection (accept_fd K d) ?d = Inr d1" "daemon_wf d1" "sent_resps d1 = sent_resps d"
    "loop_channels (d_loop d1) = loop_channels (d_loop d) @ [HChannel (d_fresh d)]"
    "d_chans d1 = (d_chans d)(d_fresh d := Some \<lparr>ch_peer = [], ch_peerPid = None, ch_socket = None\<rparr>)"
    using onNewConnection_ok [OF daemon_reachable_wf [OF reachable_marked [OF r]] u] f by auto
  have "HListener \<in> set (loop_channels (d_loop d1))" using l d1(4) by simp
  then have "io_handles (d_loop d1) HListener \<noteq> None"
    using reactor_wfD(2) [OF objects_wfD(1) [OF daemon_wfD(1) [OF d1(2)]], of HListener] by auto
  then have e: "loop_event ?E HListener POLLIN d = Inr (unmarked HListener d1)"
    using l d1(1) marked_turn [OF registered_live(1) [OF r l], of ?E "hub_onReadReady [accept_fd K d]"] by (simp add: loop_event_def)
  have "dmn.reachable (unmarked HListener d1)" using loop_event_reachable [OF r kernel_env_ok [OF K r] _ e] u by simp
  then show ?thesis using e d1 by (intro exI [of _ "unmarked HListener d1"]) simp
qed

subsection \<open>Every call keeps it\<close>

lemma rest_kept [simp]: "sys_inv (snd (snd (on_rest f w))) \<longleftrightarrow> sys_inv w"
  by (auto simp: on_rest_def sys_inv_def split: prod.split)

lemma keeps_rest: "keeps sys_inv (on_rest f)"
  by (simp add: keeps_def)

lemma keeps_sys_read:
  assumes "kernel_ok K"
  shows "keeps sys_inv (sys_read C K B fd m n)"
proof -
  have "sys_inv (snd (snd (sys_read C K B fd m n w)))" if w: "sys_inv w" for w
  proof (cases "w_conn w fd")
    case None
    then show ?thesis using w by (simp add: sys_read_def)
  next
    case (Some a)
    have k: "sys_inv (await C K c evs w)" for c evs using sys_inv_await [OF assms w] .
    then have "sys_inv ((await C K c evs w)\<lparr>w_unread := u\<rparr>)" for c evs u using k [of c evs] by (simp add: sys_inv_def)
    then show ?thesis using w k Some by (auto simp: sys_read_def Let_def split: connection.split list.split sum.split)
  qed
  then show ?thesis by (simp add: keeps_def)
qed

lemma keeps_sys_write:
  assumes "kernel_ok K"
  shows "keeps sys_inv (sys_write C K B fd b n)"
proof -
  have "sys_inv (snd (snd (sys_write C K B fd b n w)))" if w: "sys_inv w" for w
  proof (cases "w_conn w fd")
    case None
    then show ?thesis using w by (simp add: sys_write_def)
  next
    case (Some a)
    have "sys_inv (advance C (\<lambda>d. loop_event (sys_denv C K (quiet(c := RdBytes bs)) [] d) (HChannel c) POLLIN d) w)" for c bs
      by (rule sys_inv_advance [OF w]) (use request_still_listens [OF assms sys_invD(1) [OF w]] in blast)
    then show ?thesis using w Some by (auto simp: sys_write_def split: connection.split sum.split)
  qed
  then show ?thesis by (simp add: keeps_def)
qed

lemma sys_inv_connected:
  assumes K: "kernel_ok K" and w: "sys_inv w" "w_daemon w = Inr d" and l: "HListener \<in> set (loop_channels (d_loop d))"
  shows "sys_inv (advance C (\<lambda>d. loop_event (sys_denv C K quiet [accept_fd K d] d) HListener POLLIN d)
    (w\<lparr>w_conn := (w_conn w)(fd := Some (Accepted (d_fresh d))), w_unread := u\<rparr>))"
proof -
  note r = sys_invD(1) [OF w]
  obtain d' where d': "loop_event (sys_denv C K quiet [accept_fd K d] d) HListener POLLIN d = Inr d'" "dmn.reachable d'"
    "loop_channels (d_loop d') = loop_channels (d_loop d) @ [HChannel (d_fresh d)]" using accept_turn [OF K r l] by blast
  have "d_chans d (d_fresh d) = None" using objects_wfD(3) [OF daemon_wfD(1) [OF daemon_reachable_wf [OF r]]] by simp
  then have n: "w_conn w x \<noteq> Some (Accepted (d_fresh d))" for x using registered_live(2) [OF r sys_invD(2) [OF w, of x]] by auto
  show ?thesis using w(2) d' n sys_invD(2,3) [OF w] by (auto simp: advance_def sys_inv_def)
qed

lemma keeps_sys_connect:
  assumes "kernel_ok K"
  shows "keeps sys_inv (sys_connect C K B fd b n)"
proof -
  have "sys_inv (snd (snd (sys_connect C K B fd b n w)))" if w: "sys_inv w" for w
  proof (cases "b = Some master_sockaddr")
    case False
    then show ?thesis using w by (simp add: sys_connect_def)
  next
    case True
    have "sys_inv (w\<lparr>w_conn := (w_conn w)(fd := Some Backlog)\<rparr>)" using w by (auto simp: sys_inv_def)
    then show ?thesis using True w sys_inv_connected [OF assms w] by (auto simp: sys_connect_def split: sum.split)
  qed
  then show ?thesis by (simp add: keeps_def)
qed

text \<open>A client that closes its end ends the daemon.\<close>

lemma keeps_sys_close: "keeps sys_inv (sys_close C K B fd)"
proof -
  have "sys_inv (snd (snd (sys_close C K B fd w)))" if w: "sys_inv w" for w
  proof (cases "w_conn w fd")
    case None
    then show ?thesis using w by (simp add: sys_close_def)
  next
    case (Some a)
    have gone: "sys_inv (w\<lparr>w_conn := (w_conn w)(fd := None)\<rparr>)" using w by (auto simp: sys_inv_def)
    have dead: "loop_event (sys_denv C K (quiet(c := RdEof)) [] d) (HChannel c) (POLLIN OR POLLHUP) d = Inl UseAfterFree"
      if ac: "a = Accepted c" "w_daemon w = Inr d" for c d
    proof -
      have l: "HChannel c \<in> set (loop_channels (d_loop d))" using sys_invD(2) [OF w ac(2)] Some ac(1) by blast
      obtain ch where "d_chans d c = Some ch" using registered_live(2) [OF sys_invD(1) [OF w ac(2)] l] by auto
      from channel_close_uses_freed_handle [OF sys_invD(1) [OF w ac(2)] this, of "sys_denv C K (quiet(c := RdEof)) [] d" "POLLIN OR POLLHUP"]
      show ?thesis using l by (simp add: loop_event_def poll_defs)
    qed
    show ?thesis
    proof (cases a)
      case (Accepted c)
      show ?thesis
      proof (cases "w_daemon w")
        case (Inl x)
        then show ?thesis using gone Some Accepted by (simp add: sys_close_def)
      next
        case (Inr d)
        then show ?thesis using Some Accepted dead [OF Accepted Inr] by (simp add: sys_close_def advance_def sys_inv_def)
      qed
    qed (use gone Some in \<open>simp add: sys_close_def\<close>)
  qed
  then show ?thesis by (simp add: keeps_def)
qed

lemma sys_env_keeps:
  assumes "kernel_ok K"
  shows "kept_world (sys_env C K B) sys_inv"
  by unfold_locales
    (simp_all add: sys_env_def keeps_rest keeps_sys_close keeps_sys_read [OF assms] keeps_sys_write [OF assms] keeps_sys_connect [OF assms])

interpretation counted: kept_world "sys_env C counting_kernel B" sys_inv for C B
  by (rule sys_env_keeps [OF counting_kernel_ok])

end
