(* ===== verification/Client_Socket.thy ===== *)
theory Client_Socket
  imports System_Inv
begin

unbundle bit_operations_syntax

section \<open>A client opens a socket\<close>

text \<open>
  The connection to the daemon, the daemon's accept, the request, the objects the daemon makes.
\<close>

definition socket_ok :: Response where
  "socket_ok = answer_ok (RetSocket (plain_ret 0)) Response_new"

lemma open_chan_accepted:
  assumes K: "kernel_ok K" and d: "w_daemon (world s) = Inr d" "dmn.reachable d" "HListener \<in> set (loop_channels (d_loop d))"
    and sock: "g_socket B 1 5 0 (w_rest (world s)) = (ch, e, k)" "ch \<noteq> -1"
  shows "\<exists>d'. open_chan (sys_env C K B) s = Inr (ch, s\<lparr>errno := 0, world := (world s)\<lparr>w_rest := k,
      w_conn := (w_conn (world s))(ch := Some (Accepted (d_fresh d))), w_unread := (w_unread (world s))(d_fresh d := []), w_daemon := Inr d'\<rparr>\<rparr>) \<and>
    dmn.reachable d' \<and> HChannel (d_fresh d) \<in> set (loop_channels (d_loop d')) \<and>
    d_chans d' (d_fresh d) = Some \<lparr>ch_peer = [], ch_peerPid = None, ch_socket = None\<rparr>"
proof -
  let ?f = "\<lambda>d. loop_event (sys_denv C K quiet [accept_fd K d] d) HListener POLLIN d"
  obtain d' where d': "?f d = Inr d'" "dmn.reachable d'" "loop_channels (d_loop d') = loop_channels (d_loop d) @ [HChannel (d_fresh d)]"
    "sent_resps d' = sent_resps d" "d_chans d' = (d_chans d)(d_fresh d := Some \<lparr>ch_peer = [], ch_peerPid = None, ch_socket = None\<rparr>)"
    using accept_turn [OF K d(2,3)] by blast
  let ?w = "(world s)\<lparr>w_rest := k, w_conn := (w_conn (world s))(ch := Some (Accepted (d_fresh d))), w_unread := (w_unread (world s))(d_fresh d := [])\<rparr>"
  have "advance C ?f ?w = ?w\<lparr>w_daemon := Inr d'\<rparr>" using advance_silent [of ?w d ?f d' C] d(1) d'(1,4) by simp
  then have "open_chan (sys_env C K B) s = Inr (ch, s\<lparr>errno := 0, world := ?w\<lparr>w_daemon := Inr d'\<rparr>\<rparr>)"
    using sock d(1,3) by (simp add: open_chan_def glibc_def on_rest_def sys_connect_def)
  then show ?thesis using d'(2,3,5) by (intro exI [of _ d']) simp
qed

lemma socket_run:
  assumes daemon: "w_daemon (world s) = Inr d" "dmn.reachable d" "kernel_ok K"
    and fd: "fd_wf s" "fd = last_fd_assigned s + 1" "fd < g_startfd s + g_fd_count s"
    and type: "type AND SOCK_STREAM \<noteq> 0 \<or> type AND SOCK_DGRAM \<noteq> 0"
    and sock: "g_socket B 1 5 0 (w_rest (world s)) = (ch, err, k)" "ch \<noteq> -1"
    and codec: "carries_request C \<lparr>req_pid = getpid s, req_calling = CallSocket AF_INET type proto\<rparr>" "carries_response C socket_ok"
      "recv_fuel B = Suc n"
  shows "\<exists>s' d' e. socket (sys_env C K B) AF_INET type proto s = Inr (fd, s') \<and> fd_wf s' \<and> fd_chanmap s' fd = Inr ch \<and>
    w_conn (world s') = (w_conn (world s))(ch := Some (Accepted (d_fresh d))) \<and> w_unread (world s') (d_fresh d) = [] \<and>
    w_daemon (world s') = Inr d' \<and> dmn.reachable d' \<and> HChannel (d_fresh d) \<in> set (loop_channels (d_loop d')) \<and>
    chan_socket (d_fresh d) d' = Inr (e, fresh_ep (d_fresh d) (Suc e) (type AND SOCK_STREAM \<noteq> 0) (type AND SOCK_NONBLOCK \<noteq> 0))"
proof -
  let ?q = "\<lparr>req_pid = getpid s, req_calling = CallSocket AF_INET type proto\<rparr>" let ?s1 = "s\<lparr>last_fd_assigned := fd\<rparr>"
  let ?c = "d_fresh d" let ?h = "HChannel ?c"
  have l: "HListener \<in> set (loop_channels (d_loop d))" using daemon_wfD(11) [OF daemon_reachable_wf [OF daemon(2)]] by (simp add: hasChannel_def)
  obtain d1 where o': "open_chan (sys_env C K B) ?s1 = Inr (ch, ?s1\<lparr>errno := 0, world := (world s)\<lparr>w_rest := k,
      w_conn := (w_conn (world s))(ch := Some (Accepted ?c)), w_unread := (w_unread (world s))(?c := []), w_daemon := Inr d1\<rparr>\<rparr>)"
    and d1: "dmn.reachable d1" "?h \<in> set (loop_channels (d_loop d1))" "d_chans d1 ?c = Some \<lparr>ch_peer = [], ch_peerPid = None, ch_socket = None\<rparr>"
    using open_chan_accepted [OF daemon(3), of ?s1 d B ch err k] daemon l sock by auto
  let ?s2 = "?s1\<lparr>errno := 0, world := (world s)\<lparr>w_rest := k, w_conn := (w_conn (world s))(ch := Some (Accepted ?c)),
      w_unread := (w_unread (world s))(?c := []), w_daemon := Inr d1\<rparr>\<rparr>"
  let ?s3 = "?s2\<lparr>g_chan_table := (g_chan_table s)[nat (fd - g_startfd s) := ch]\<rparr>"
  let ?E = "sys_denv C K (quiet(?c := RdBytes (pack_request C ?q))) [] d1"
  note wf1 = daemon_reachable_wf [OF reachable_marked [OF d1(1), of ?h]]
  have env: "env_ok ?E (marked ?h d1)" using kernel_env_ok [OF daemon(3) d1(1)] by simp
  obtain d2 e where d2: "socketCall ?E ?c AF_INET type Response_new (marked ?h d1) = Inr (socket_ok, d2)"
    "d_chans d2 ?c = Some \<lparr>ch_peer = [], ch_peerPid = None, ch_socket = Some e\<rparr>"
    "d_eps d2 e = Some (fresh_ep ?c (Suc e) (type AND SOCK_STREAM \<noteq> 0) (type AND SOCK_NONBLOCK \<noteq> 0))"
    using socketCall_ok [OF wf1 env _ _ refl refl refl, of ?c "\<lparr>ch_peer = [], ch_peerPid = None, ch_socket = None\<rparr>" type Response_new] d1(3) type
    by (auto simp: SOCK_STREAM_BIT_def SOCK_DGRAM_BIT_def SOCK_STREAM_def SOCK_DGRAM_def socket_ok_def)
  have h: "handleRequest ?E ?c ?q (marked ?h d1) = Inr (socket_ok, d2)" using d2(1) by (simp add: handleRequest_def)
  have sv: "served (marked ?h d1) ?c d2" using handleRequest_served [OF wf1 env _ h] d1(3) by simp
  have rc: "retcode socket_ok = Some RC_OK" "returning socket_ok = RetSocket (plain_ret 0)" by (simp_all add: socket_ok_def answer_ok_def)
  let ?d = "unmarked ?h (d2\<lparr>sent_resps := sent_resps d1 @ [(?c, socket_ok)]\<rparr>)"
  let ?s4 = "?s3\<lparr>errno := 0, world := (world ?s3)\<lparr>w_daemon := Inr ?d\<rparr>\<rparr>"
  have ac: "transact (sys_env C K B) ch ?q ?s3 = Inr (socket_ok, ?s4)" "dmn.reachable ?d"
    using answered_call [where s = ?s3, OF _ d1(1) daemon(3) _ _ d1(2) codec(1,3) refl h _ codec(2) refl, of ch] rc by simp_all
  have "socket (sys_env C K B) AF_INET type proto s = Inr (fd, ?s4) \<and> fd_wf ?s4 \<and> fd_chanmap ?s4 fd = Inr ch"
    using socket_outcome [OF fd(1) type fd(2,3) o' refl ac(1) rc(2)] by (simp add: plain_ret_def)
  then show ?thesis using ac(2) sv d1(2) d2(2,3)
    by (intro exI [of _ ?s4] exI [of _ ?d] exI [of _ e]) (auto simp: served_def chan_socket_def)
qed

text \<open>(C18) \<open>socket\<close> works from end to end. When the daemon is in any reachable state, a number is left in the
  client's range and the kernel gives it a Unix socket, a call of \<open>socket\<close> for a stream or datagram socket returns the next
  number; this number leads to the new Unix socket, that to a channel the daemon listens to, and the
  channel to an endpoint of the type asked for, with an empty queue and a session of its own.\<close>

theorem socket_completes:
  assumes daemon: "w_daemon (world s) = Inr d" "dmn.reachable d" "kernel_ok K"
    and fd: "fd_wf s" "fd = last_fd_assigned s + 1" "fd < g_startfd s + g_fd_count s"
    and type: "type AND SOCK_STREAM \<noteq> 0 \<or> type AND SOCK_DGRAM \<noteq> 0"
    and sock: "g_socket B 1 5 0 (w_rest (world s)) = (ch, err, k)" "ch \<noteq> -1"
    and codec: "carries_request C \<lparr>req_pid = getpid s, req_calling = CallSocket AF_INET type proto\<rparr>" "carries_response C socket_ok"
      "recv_fuel B = Suc n"
  shows "\<exists>s' d' c e ep p pcb. socket (sys_env C K B) AF_INET type proto s = Inr (fd, s') \<and> fd_wf s' \<and> fd_chanmap s' fd = Inr ch \<and>
    w_conn (world s') ch = Some (Accepted c) \<and> w_unread (world s') c = [] \<and> w_daemon (world s') = Inr d' \<and> dmn.reachable d' \<and>
    HChannel c \<in> set (loop_channels (d_loop d')) \<and> chan_socket c d' = Inr (e, ep) \<and> ep_recvQ ep = [] \<and>
    ep_type ep = (if type AND SOCK_STREAM \<noteq> 0 then EP_TCP else EP_UDP) \<and> ep_session ep d' = Inr (p, pcb) \<and> pcb_so pcb = Some e"
proof -
  obtain s' d' e where r: "socket (sys_env C K B) AF_INET type proto s = Inr (fd, s')" "fd_wf s'" "fd_chanmap s' fd = Inr ch"
    "w_conn (world s') = (w_conn (world s))(ch := Some (Accepted (d_fresh d)))" "w_unread (world s') (d_fresh d) = []"
    "w_daemon (world s') = Inr d'" "dmn.reachable d'" "HChannel (d_fresh d) \<in> set (loop_channels (d_loop d'))"
    "chan_socket (d_fresh d) d' = Inr (e, fresh_ep (d_fresh d) (Suc e) (type AND SOCK_STREAM \<noteq> 0) (type AND SOCK_NONBLOCK \<noteq> 0))"
    using socket_run [OF assms] by blast
  note wf = daemon_reachable_wf [OF r(7)]
  obtain pcb where "d_pcbs d' (Suc e) = Some pcb" "pcb_so pcb = Some e"
    using objects_wfD(6) [OF daemon_wfD(1) [OF wf] chan_socketD(1) [OF wf r(9)]] by auto
  then show ?thesis using r
    by (intro exI [of _ s'] exI [of _ d'] exI [of _ "d_fresh d"] exI [of _ e] exI) (auto simp: ep_session_def new_type_def)
qed

definition socket_client :: "daemon \<Rightarrow> io list world iproc" where
  "socket_client d = proc0 (sample_world d)"

definition socket_codec :: codec where
  "socket_codec = numbering_codec [\<lparr>req_pid = 1, req_calling = CallSocket 2 2 0\<rparr>] [socket_ok]"

definition socket_kernel :: "io list env" where
  "socket_kernel = ok_env\<lparr>g_socket := \<lambda>_ _ _ w. (8, 0, w)\<rparr>"

lemma socket_client_facts:
  "w_daemon (world (socket_client d)) = Inr d" "fd_wf (socket_client d)" "last_fd_assigned (socket_client d) = 4095"
  "g_startfd (socket_client d) + g_fd_count (socket_client d) = 4100" "g_socket socket_kernel 1 5 0 (w_rest (world (socket_client d))) = (8, 0, [])"
  "carries_request socket_codec \<lparr>req_pid = getpid (socket_client d), req_calling = CallSocket AF_INET 2 0\<rparr>"
  "carries_response socket_codec socket_ok" "recv_fuel socket_kernel = Suc 0" "w_conn (world (socket_client d)) 9 = Some (Accepted 0)"
proof -
  show "carries_request socket_codec \<lparr>req_pid = getpid (socket_client d), req_calling = CallSocket AF_INET 2 0\<rparr>" "carries_response socket_codec socket_ok"
    unfolding socket_codec_def by (rule numbering_codec_carries; simp add: socket_client_def proc0_def AF_INET_def)+
qed (use fd_wf_proc0 in \<open>simp_all add: socket_client_def proc0_def sample_world_def socket_kernel_def ok_env_def script_env_def\<close>)

theorem socket_completes_witness:
  "\<exists>d s' d' c e ep. dmn.reachable d \<and> socket (sys_env socket_codec counting_kernel socket_kernel) AF_INET 2 0 (socket_client d) = Inr (4096, s') \<and>
     fd_chanmap s' 4096 = Inr 8 \<and> w_conn (world s') 8 = Some (Accepted c) \<and> w_daemon (world s') = Inr d' \<and>
     chan_socket c d' = Inr (e, ep) \<and> ep_type ep = EP_UDP"
proof -
  obtain d where d: "dmn.reachable d" using sample_channel by blast
  note f = socket_client_facts
  from socket_completes [OF f(1) d counting_kernel_ok f(2) _ _ _ f(5) _ f(6-8), of 4096] d f(3,4) show ?thesis
    by (auto simp: SOCK_STREAM_def SOCK_DGRAM_def)
qed

subsection \<open>Clients are kept apart\<close>

lemma sys_inv_start: "daemon_init d \<Longrightarrow> w_daemon w = Inr d \<Longrightarrow> w_conn w = (\<lambda>_. None) \<Longrightarrow> sys_inv w"
  by (simp add: sys_inv_def dmn.reach_init)

lemma sockets_apart:
  assumes r: "dmn.reachable d" and s: "chan_socket c d = Inr (e, ep)" "chan_socket c' d = Inr (e', ep')" and n: "c \<noteq> c'"
  shows "e \<noteq> e' \<and> ep_pcb ep \<noteq> ep_pcb ep'"
proof -
  note wf = daemon_reachable_wf [OF r]
  note a = chan_socketD [OF wf s(1)] and b = chan_socketD [OF wf s(2)]
  have e: "e \<noteq> e'" using a(1,2) b(1,2) n by auto
  then show ?thesis using objects_wfD(6) [OF daemon_wfD(1) [OF wf] a(1)] objects_wfD(6) [OF daemon_wfD(1) [OF wf] b(1)] by auto
qed

text \<open>(C5) Clients are kept apart, whatever they do. A process makes any sequence of socket calls in a system
  where the invariant \<open>sys_inv\<close> holds, as it does when the daemon has just started. Then it holds afterwards, for the next
  process to start from; and as long as the daemon is alive, it is in a reachable state, it listens to every connected
  client, no two connections share a channel, and neither an endpoint nor a session is reached from two of them.\<close>

theorem clients_kept_apart:
  assumes "kernel_ok K" and start: "sys_inv (world s)" and run: "run_calls n (sys_env C K B) calls s = Inr (rs, s')"
    and d: "w_daemon (world s') = Inr d"
    and conn: "w_conn (world s') fd = Some (Accepted c)" "w_conn (world s') fd' = Some (Accepted c')" "fd \<noteq> fd'"
  shows "sys_inv (world s') \<and> dmn.reachable d \<and> HChannel c \<in> set (loop_channels (d_loop d)) \<and> c \<noteq> c' \<and>
    (\<forall>e ep e' ep'. chan_socket c d = Inr (e, ep) \<longrightarrow> chan_socket c' d = Inr (e', ep') \<longrightarrow> e \<noteq> e' \<and> ep_pcb ep \<noteq> ep_pcb ep')"
proof -
  have inv: "sys_inv (world s')" by (rule kept_world.run_calls_kept [OF sys_env_keeps [OF assms(1)] run start])
  have "c \<noteq> c'" using sys_invD(3) [OF inv d conn(1)] conn(2,3) by blast
  then show ?thesis using inv sys_invD(1,2) [OF inv d] conn(1) sockets_apart [of d c _ _ c'] by blast
qed

theorem clients_kept_apart_witness:
  "\<exists>d s' d' c. dmn.reachable d \<and>
     run_calls 1 (sys_env socket_codec counting_kernel socket_kernel) [Socket AF_INET 2 0] (socket_client d) = Inr ([io_plain 4096], s') \<and>
     w_daemon (world s') = Inr d' \<and> w_conn (world s') 9 = Some (Accepted 0) \<and> w_conn (world s') 8 = Some (Accepted c) \<and>
     dmn.reachable d' \<and> HChannel 0 \<in> set (loop_channels (d_loop d')) \<and> 0 \<noteq> c"
proof -
  obtain d where d: "dmn.reachable d" "HChannel 0 \<in> set (loop_channels (d_loop d))" using sample_channel by blast
  note f = socket_client_facts
  obtain s' d' where r: "socket (sys_env socket_codec counting_kernel socket_kernel) AF_INET 2 0 (socket_client d) = Inr (4096, s')"
    "w_conn (world s') = (w_conn (world (socket_client d)))(8 := Some (Accepted (d_fresh d)))" "w_daemon (world s') = Inr d'"
    using socket_run [OF f(1) d(1) counting_kernel_ok f(2) _ _ _ f(5) _ f(6-8), of 4096] f(3,4) by (auto simp: SOCK_STREAM_def SOCK_DGRAM_def)
  have inv: "sys_inv (world (socket_client d))" using d by (simp add: socket_client_def proc0_def sample_world_def sys_inv_def)
  have run: "run_calls 1 (sys_env socket_codec counting_kernel socket_kernel) [Socket AF_INET 2 0] (socket_client d) = Inr ([io_plain 4096], s')"
    using r(1) by (simp add: plain_def)
  have "w_conn (world s') 9 = Some (Accepted 0)" "w_conn (world s') 8 = Some (Accepted (d_fresh d))" using r(2) f(9) by simp_all
  with clients_kept_apart [OF counting_kernel_ok inv run r(3) this] d(1) run r(3) show ?thesis by auto
qed

end
