(* ===== verification/Client_Tcp.thy ===== *)
theory Client_Tcp
  imports End_To_End
begin

unbundle bit_operations_syntax

section \<open>A client connects\<close>

text \<open>
  \<open>connect\<close> on a blocking TCP socket, from the client's call through the daemon, the SYN, the peer's answer
  and back; and \<open>getpeername\<close> after it.
\<close>

subsection \<open>\<open>connect\<close> and \<open>getpeername\<close>\<close>

lemma tcp_send_faddr: "tcp_send buf s st = Inr (n, s', st') \<Longrightarrow> faddr s' = faddr s \<and> fport s' = fport s"
  by (auto simp: tcp_send_def session_send_def session_bind_def nextAvailPort_def Let_def bindr_eq_Inr split: TcpState.splits if_splits)

lemma tcp_connect_faddr: "tcp_connect fa fp s st = Inr (n, s', st') \<Longrightarrow> faddr s' = fa \<and> fport s' = fp"
  by (auto simp: tcp_connect_def session_connect_def session_bind_def nextAvailPort_def Let_def bindr_eq_Inr split: if_splits
      dest: tcp_send_faddr)

lemma connectCall_tcp:
  assumes wf: "daemon_wf d" and so: "chan_socket c d = Inr (e, ep)" "ep_type ep = EP_TCP" "\<not> ep_nonblocking ep"
    and a: "length (sin_zero a) = 8" and r: "connectCall E c (sockaddr_bytes a) Response_new d = Inr (resp, d')"
  shows "resp = wait_answer \<and> loop_channels (d_loop d') = loop_channels (d_loop d) \<and> chan_socket c d' = Inr (e, ep) \<and>
    (\<exists>p t. ep_session ep d' = Inr (p, TcpPcb t) \<and> faddr t = sin_addr a \<and> fport t = sin_port a)"
proof -
  have ep: "d_eps d e = Some ep" using chan_socketD(1) [OF wf so(1)] .
  have dest: "sockaddr_of_c_str (sockaddr_bytes a) = Inr a" using a by (simp add: sockaddr_of_c_str_def sockaddr_bytes_def)
  obtain p s n s' d1 where s: "ep_session ep d = Inr (p, s)" and c: "pcb_connect (sin_addr a) (sin_port a) (pcb_setOnConnEstabCB c s) d = Inr (n, s', d1)"
    and d': "d' = put_pcb p (Some s') d1" and resp: "resp = wait_answer"
    using r so dest by (auto simp: connectCall_def bindr_eq_Inr wait_answer_def Response_new_def)
  have "pcb_type s = EP_TCP" using objects_wfD(6) [OF daemon_wfD(1) [OF wf] ep] s so(2) by (auto simp: ep_session_def bindr_eq_Inr)
  then obtain t where t: "s = TcpPcb t" by (cases s) auto
  then obtain t' where t': "s' = TcpPcb t'" "faddr t' = sin_addr a" "fport t' = sin_port a" "net.more d1 = net.more d"
    using c pcb_op_links(1) [OF c] by (auto simp: bindr_eq_Inr dest: tcp_connect_faddr)
  have "ep_pcb ep = Some p" using s by (auto simp: ep_session_def bindr_eq_Inr)
  then show ?thesis using t' d' resp so(1) daemon_more [OF t'(4)]
    by (auto simp: chan_socket_def ep_session_def put_pcb_def bindr_eq_Inr)
qed

lemma connect_returned:
  assumes "connect E fd (Some bs) sockaddr_in_size s = Inr (0, s1)" "is_assigned_by_velox s fd" "fd_chanmap s fd = Inr ch"
    and "length bs = sockaddr_in_size"
  shows "\<exists>resp. transact E ch (request s (CallConnect bs)) s = Inr (resp, s1)"
proof -
  obtain resp s2 where t: "transact E ch (request s (CallConnect bs)) s = Inr (resp, s2)"
    and k: "(case returning resp of RetConnect c \<Rightarrow> ret_and_errno c s2 | _ \<Rightarrow> Inl AssertFailed) = Inr (0, s1)"
    using assms by (auto simp: connect_def mem_read_def bindr_eq_Inr)
  then show ?thesis by (cases "returning resp") (auto simp: ret_and_errno_def split: if_splits option.splits)
qed

lemma getpeername_answers:
  assumes daemon: "w_daemon (world s) = Inr d" "dmn.reachable d" "kernel_ok K"
    and conn: "w_conn (world s) ch = Some (Accepted c)" "w_unread (world s) c = []" "HChannel c \<in> set (loop_channels (d_loop d))"
    and msg: "carries_request C (request s CallGetpeername)" "recv_fuel B = Suc n"
      "carries_response C (answer_ok (RetGetpeername (name_of fa fp)) Response_new)"
    and fd: "is_assigned_by_velox s fd" "fd_chanmap s fd = Inr ch" "sockaddr_in_size \<le> len"
    and names: "chan_socket c d = Inr (e, ep)" "ep_session ep d = Inr (p, x)" "pcb_names x = (la, lp, fa, fp)"
  shows "\<exists>s'. getpeername (sys_env C K B) fd (Some len) (Some m) s =
    Inr (\<lparr>io_ret = 0, io_buf = [], io_addr = sockaddr_bytes \<lparr>sin_family = 2, sin_port = fp, sin_addr = fa, sin_zero = replicate 8 0\<rparr>,
      io_addrlen = Some sockaddr_in_size\<rparr>, s')"
proof -
  let ?h = "HChannel c" let ?r = "answer_ok (RetGetpeername (name_of fa fp)) Response_new"
  have "chan_socket c (marked ?h d) = Inr (e, ep)" "ep_session ep (marked ?h d) = Inr (p, x)"
    using names(1,2) by (simp_all add: chan_socket_def ep_session_def)
  moreover have "faddr (pcb_session x) = fa" "fport (pcb_session x) = fp" using names(3) by (cases x; simp add: Session.truncate_def)+
  ultimately have "handleRequest E c (request s CallGetpeername) (marked ?h d) = Inr (?r, marked ?h d)" for E
    by (simp add: handleRequest_def getpeernameCall_def request_def)
  then obtain s' where "transact (sys_env C K B) ch (request s CallGetpeername) s = Inr (?r, s')"
    using answered_call(1) [OF daemon conn msg(1,2) refl _ _ msg(3) refl] by simp
  then show ?thesis using fd by (simp add: getpeername_def name_of_def mem_write_def ret_and_errno_def sockaddr_in_size_def sockaddr_bytes_def)
qed

text \<open>(C17) The address given to \<open>connect\<close> comes back from \<open>getpeername\<close>. A client connects a blocking TCP socket to an
  address; while it waits, packets and events reach the daemon as the schedule has them. If \<open>connect\<close>
  returns 0, a following \<open>getpeername\<close> on the descriptor returns the bytes of that address, with the family
  AF_INET and zero padding, and its length.\<close>

theorem connect_getpeername:
  assumes daemon: "w_daemon (world s) = Inr d" "dmn.reachable d" "kernel_ok K"
    and conn: "w_conn (world s) ch = Some (Accepted c)" "w_unread (world s) c = []" "HChannel c \<in> set (loop_channels (d_loop d))"
    and fd: "is_assigned_by_velox s fd" "fd_chanmap s fd = Inr ch" "sockaddr_in_size \<le> len"
    and tcp: "chan_socket c d = Inr (e, ep)" "ep_type ep = EP_TCP" "\<not> ep_nonblocking ep"
    and codec: "carries_request C (request s (CallConnect (sockaddr_bytes a)))" "carries_request C (request s CallGetpeername)"
      "carries_response C wait_answer"
      "carries_response C (answer_ok (RetGetpeername (name_of (sin_addr a) (sin_port a))) Response_new)"
    and a: "length (sin_zero a) = 8" and fuel: "recv_fuel B = Suc n"
    and returned: "connect (sys_env C K B) fd (Some (sockaddr_bytes a)) sockaddr_in_size s = Inr (0, s1)"
  shows "\<exists>s2. getpeername (sys_env C K B) fd (Some len) (Some m) s1 =
    Inr (\<lparr>io_ret = 0, io_buf = [], io_addr = sockaddr_bytes (a\<lparr>sin_family := 2, sin_zero := replicate 8 0\<rparr>),
      io_addrlen = Some sockaddr_in_size\<rparr>, s2)"
proof -
  let ?h = "HChannel c" let ?q = "request s (CallConnect (sockaddr_bytes a))" let ?m = "marked ?h d"
  let ?E = "sys_denv C K (quiet(c := RdBytes (pack_request C ?q))) [] d"
  obtain resp where t: "transact (sys_env C K B) ch ?q s = Inr (resp, s1)"
    using connect_returned [OF returned fd(1,2)] a by (auto simp: sockaddr_in_size_def)
  obtain resp0 d1 where h: "handleRequest ?E c ?q ?m = Inr (resp0, d1)"
    using returned_call [OF daemon conn codec(1) fuel refl t] by blast
  have wf: "daemon_wf ?m" using daemon_reachable_wf [OF reachable_marked [OF daemon(2)]] .
  have "connectCall ?E c (sockaddr_bytes a) Response_new ?m = Inr (resp0, d1)" using h by (simp add: handleRequest_def request_def)
  moreover have "chan_socket c ?m = Inr (e, ep)" using tcp(1) by (simp add: chan_socket_def)
  ultimately obtain p x where c: "resp0 = wait_answer" "loop_channels (d_loop d1) = loop_channels (d_loop d)" "chan_socket c d1 = Inr (e, ep)"
    "ep_session ep d1 = Inr (p, TcpPcb x)" "faddr x = sin_addr a" "fport x = sin_port a"
    using connectCall_tcp [OF wf _ tcp(2,3) a, of c e ?E resp0 d1] by auto
  let ?d = "unmarked ?h (d1\<lparr>sent_resps := sent_resps d @ [(c, resp0)]\<rparr>)"
  let ?s = "s\<lparr>errno := 0, world := (world s)\<lparr>w_daemon := Inr ?d\<rparr>\<rparr>"
  have w: "retcode resp0 \<noteq> None" "retcode resp0 = Some RC_WAIT_NEXT" "carries_response C resp0"
    using c(1) codec(3) by (simp_all add: wait_answer_def)
  note ac = answered_call [OF daemon conn codec(1) fuel refl h w(1,3) refl]
  have l: "chan_recv_loop (sys_env C K B) ch n ?s = Inr (resp, s1)" using ac(1) w(2) t by simp
  have tr: "tracks ?d (world ?s)" using ac(2) by (simp add: tracks_def)
  obtain y where y: "w_daemon (world s1) = Inr y" "dmn.reachable y" "names_kept ?d y" "w_conn (world s1) = w_conn (world s)"
    "w_unread (world s1) c = []"
    using recv_loop_quiet [OF daemon(3) tr _ _ l, of c] conn(1,2) by auto
  have so: "chan_socket c ?d = Inr (e, ep)" "ep_session ep ?d = Inr (p, TcpPcb x)" using c(3,4) by (simp_all add: chan_socket_def ep_session_def)
  obtain ep' x' where n': "chan_socket c y = Inr (e, ep')" "ep_session ep' y = Inr (p, x')" "pcb_names x' = (laddr x, lport x, sin_addr a, sin_port a)"
    using names_kept_session [OF y(3) so] c(5,6) by auto
  have reg: "HChannel c \<in> set (loop_channels (d_loop y))" using y(3) conn(3) c(2) by (simp add: names_kept_def)
  have ow: "only_world s s1" using only_world_transact [OF t] .
  have "request s1 CallGetpeername = request s CallGetpeername" "is_assigned_by_velox s1 fd" "fd_chanmap s1 fd = Inr ch"
    using only_world_table [OF ow] fd by (simp_all add: request_def is_assigned_by_velox_def)
  from getpeername_answers [OF y(1,2) daemon(3) _ y(5) reg _ fuel codec(4) this(2,3) fd(3) n'] this(1) codec(2) y(4) conn(1)
  show ?thesis by (cases a) simp
qed

subsection \<open>The handshake, from call to return\<close>

lemma conn_established_answers:
  assumes wf: "daemon_wf d" and so: "chan_socket c d = Inr (e, ep)" "ep_session ep d = Inr (p, TcpPcb t)"
    and E: "writes_ok E" "byte_size E connect_answer \<le> RPC_MESSAGE_MAX_SIZE"
  shows "\<exists>r. conn_established E c d = Inr (d\<lparr>d_loop := r, sent_resps := sent_resps d @ [(c, connect_answer)]\<rparr>)"
proof -
  obtain ch where ch: "d_chans d c = Some ch" using chan_socketD(3) [OF wf so(1)] by blast
  have "live d (HEstab p)" using ep_sessionD(2) [OF wf chan_socketD(1) [OF wf so(1)] so(2)] by auto
  from unregister_ok [OF wf this] obtain r where r: "on_loop (unregisterSelf (HEstab p)) d = Inr (d\<lparr>d_loop := r\<rparr>)" by auto
  have "chan_write E c connect_answer (d\<lparr>d_loop := r\<rparr>) = Inr (d\<lparr>d_loop := r, sent_resps := sent_resps d @ [(c, connect_answer)]\<rparr>)"
    using ch E by (simp add: chan_write_def writes_ok_def IsInitialized_def connect_answer_def)
  then show ?thesis using ch so r by (intro exI [of _ r]) (simp add: conn_established_def)
qed

lemma synack_answers:
  assumes wf: "daemon_wf d" and so: "chan_socket c d = Inr (e, ep)" "ep_session ep d = Inr (p, TcpPcb t)"
    and t: "conn_state t = TCP_SYN_SENT" "send_unack t = Some su" "send_next t = Some sn" "onConnEstabCB t = Some c"
    and E: "writes_ok E" "byte_size E connect_answer \<le> RPC_MESSAGE_MAX_SIZE"
    and fb: "rawBytes fb = r" "network_hdr fb = Raw 0" "transport_hdr fb = Raw 20" "tcp_syn r 20" "tcp_ack r 20"
    and best: "demux (d_pcbs d) (tcp_pcbs d) r 0 20 = Some p"
  shows "\<exists>d' t' pkt. tcp_rx E [fb] d = Inr d' \<and> sent_resps d' = sent_resps d @ [(c, connect_answer)] \<and>
    d_pcbs d' p = Some (TcpPcb t') \<and> conn_state t' = TCP_ESTABLISHED \<and> recv_next t' = Some (bswap32 (tcp_seq r 20) + 1) \<and>
    wire d' = wire d @ [pkt] \<and> valid_tcp_packet (laddr t) (faddr t) pkt \<and> segment_of pkt = seg t sn (bswap32 (tcp_seq r 20) + 1) 16 []"
proof -
  let ?isn = "bswap32 (tcp_seq r 20)"
  let ?t = "t\<lparr>irs := Some ?isn, recv_next := Some (?isn + 1), send_unack := Some (su + 1), conn_state := TCP_ESTABLISHED\<rparr>"
  obtain st where st: "ack2peer (?isn + 1) ?t d = Inr st" "sends ?t (seg ?t sn (?isn + 1) 16 []) d st"
    using ack2peer_sends [of ?t sn "?isn + 1" d] t(3) by auto
  note m = ack2peer_frame [OF st(1)]
  have w: "daemon_wf st" using wf daemon_wf_cong [OF same_objects_more [OF m]] by simp
  have "chan_socket c st = Inr (e, ep)" "ep_session ep st = Inr (p, TcpPcb t)"
    using so daemon_more [OF m] by (simp_all add: chan_socket_def ep_session_def)
  from conn_established_answers [OF w this E] obtain l
    where l: "conn_established E c st = Inr (st\<lparr>d_loop := l, sent_resps := sent_resps st @ [(c, connect_answer)]\<rparr>)" by blast
  have p: "d_pcbs d p = Some (TcpPcb t)" using so(2) by (auto simp: ep_session_def bindr_eq_Inr)
  have "tcp_rx E [fb] d = Inr (put_pcb p (Some (TcpPcb ?t)) (st\<lparr>d_loop := l, sent_resps := sent_resps st @ [(c, connect_answer)]\<rparr>))"
    using fb best p t st(1) l by (simp add: tcp_rx_def tcp_recv_def Let_def)
  moreover obtain pkt where "wire st = wire d @ [pkt]" "valid_tcp_packet (laddr t) (faddr t) pkt" "segment_of pkt = seg t sn (?isn + 1) 16 []"
    using st(2) by (auto simp: sends_def seg_def)
  ultimately show ?thesis using daemon_more(9) [OF m] by (simp add: put_pcb_def)
qed

text \<open>The session after the SYN.\<close>

definition local_port :: "daemon \<Rightarrow> TcpSession \<Rightarrow> u16" where
  "local_port d t = (if lport t = 0 then bswap16 (tcp_port d + 1) else lport t)"

definition connecting :: "nat \<Rightarrow> sockaddr_in \<Rightarrow> daemon \<Rightarrow> TcpSession \<Rightarrow> TcpSession" where
  "connecting c a d t = t\<lparr>onConnEstabCB := Some c, faddr := sin_addr a, fport := sin_port a, lport := local_port d t,
     send_unack := Some iss, send_next := Some (iss + 1), conn_state := TCP_SYN_SENT\<rparr>"

lemma connectCall_sends:
  assumes so: "chan_socket c d = Inr (e, ep)" "ep_type ep = EP_TCP" "\<not> ep_nonblocking ep"
    and t: "ep_session ep d = Inr (p, TcpPcb t)" "conn_state t = TCP_CLOSED" "local_port d t \<noteq> 0" and a: "length (sin_zero a) = 8"
  shows "\<exists>d1 pkt. connectCall E c (sockaddr_bytes a) Response_new d = Inr (wait_answer, put_pcb p (Some (TcpPcb (connecting c a d t))) d1) \<and>
    net.more d1 = net.more d \<and> wire d1 = wire d @ [pkt] \<and> valid_tcp_packet (laddr t) (sin_addr a) pkt \<and>
    segment_of pkt = seg (connecting c a d t) iss 0 2 []"
proof -
  let ?u = "t\<lparr>onConnEstabCB := Some c\<rparr>" let ?t = "?u\<lparr>faddr := sin_addr a, fport := sin_port a, lport := local_port d t\<rparr>"
  let ?port = "if lport t = 0 then tcp_port d + 1 else tcp_port d"
  have dest: "sockaddr_of_c_str (sockaddr_bytes a) = Inr a" using a by (simp add: sockaddr_of_c_str_def sockaddr_bytes_def)
  have c: "session_connect (sin_addr a) (sin_port a) ?u (tcp_port d) = (?t, ?port)"
    by (cases t) (simp add: session_connect_def session_bind_def nextAvailPort_def local_port_def Let_def)
  obtain st where st: "tcp_send [] ?t (d\<lparr>tcp_port := ?port\<rparr>) =
      Inr (0, ?t\<lparr>send_unack := Some iss, send_next := Some (iss + 1), conn_state := TCP_SYN_SENT\<rparr>, st)"
    "sends ?t (seg ?t iss 0 2 []) (d\<lparr>tcp_port := ?port\<rparr>) st"
    using tcp_send_closed [of ?t "[]" "d\<lparr>tcp_port := ?port\<rparr>"] t(2,3) by auto
  have co: "connecting c a d t = ?t\<lparr>send_unack := Some iss, send_next := Some (iss + 1), conn_state := TCP_SYN_SENT\<rparr>"
    by (cases t) (simp add: connecting_def)
  have "tcp_connect (sin_addr a) (sin_port a) ?u d = Inr (0, connecting c a d t, st)"
    unfolding tcp_connect_def c co using st(1) by simp
  then have "connectCall E c (sockaddr_bytes a) Response_new d = Inr (wait_answer, put_pcb p (Some (TcpPcb (connecting c a d t))) st)"
    using so t(1) dest by (simp add: connectCall_def wait_answer_def Response_new_def)
  moreover obtain pkt where "wire st = wire d @ [pkt]" "valid_tcp_packet (laddr t) (sin_addr a) pkt" "segment_of pkt = seg ?t iss 0 2 []"
    using st(2) by (auto simp: sends_def)
  moreover have "net.more st = net.more d" using tcp_send_links [OF st(1)] by simp
  moreover have "seg ?t iss 0 2 [] = seg (connecting c a d t) iss 0 2 []" by (simp add: seg_def connecting_def)
  ultimately show ?thesis by auto
qed

text \<open>The daemon after the client's request, and after the peer's answer.\<close>

lemma connect_request:
  assumes daemon: "w_daemon (world s) = Inr d" "dmn.reachable d" "kernel_ok K"
    and conn: "w_conn (world s) ch = Some (Accepted c)" "w_unread (world s) c = []" "HChannel c \<in> set (loop_channels (d_loop d))"
    and tcp: "chan_socket c d = Inr (e, ep)" "ep_type ep = EP_TCP" "\<not> ep_nonblocking ep"
    and t: "ep_session ep d = Inr (p, TcpPcb t)" "conn_state t = TCP_CLOSED" "local_port d t \<noteq> 0" and a: "length (sin_zero a) = 8"
    and msg: "carries_request C (request s (CallConnect (sockaddr_bytes a)))" "carries_response C wait_answer" "recv_fuel B = Suc n"
  shows "\<exists>x syn. transact (sys_env C K B) ch (request s (CallConnect (sockaddr_bytes a))) s =
      chan_recv_loop (sys_env C K B) ch n (s\<lparr>errno := 0, world := (world s)\<lparr>w_daemon := Inr x\<rparr>\<rparr>) \<and>
    dmn.reachable x \<and> d_rxQ x = d_rxQ d \<and> tcp_pcbs x = tcp_pcbs d \<and> d_pcbs x = (d_pcbs d)(p := Some (TcpPcb (connecting c a d t))) \<and>
    chan_socket c x = Inr (e, ep) \<and> wire x = wire d @ [syn] \<and> valid_tcp_packet (laddr t) (sin_addr a) syn \<and>
    segment_of syn = seg (connecting c a d t) iss 0 2 []"
proof -
  let ?h = "HChannel c" let ?m = "marked ?h d" let ?q = "request s (CallConnect (sockaddr_bytes a))"
  let ?E = "sys_denv C K (quiet(c := RdBytes (pack_request C ?q))) [] d" let ?t = "connecting c a d t"
  have m: "chan_socket c ?m = Inr (e, ep)" "ep_session ep ?m = Inr (p, TcpPcb t)" "local_port ?m t = local_port d t" "connecting c a ?m t = ?t"
    using tcp(1) t(1) by (simp_all add: chan_socket_def ep_session_def local_port_def connecting_def marked_def set_loop_def split: option.split)
  obtain d1 syn where d1: "connectCall ?E c (sockaddr_bytes a) Response_new ?m = Inr (wait_answer, put_pcb p (Some (TcpPcb ?t)) d1)"
    "net.more d1 = net.more ?m" "wire d1 = wire d @ [syn]" "valid_tcp_packet (laddr t) (sin_addr a) syn" "segment_of syn = seg ?t iss 0 2 []"
    using connectCall_sends [OF m(1) tcp(2,3) m(2) t(2) _ a, of ?E] m(3,4) t(3) by auto
  have h: "handleRequest ?E c ?q ?m = Inr (wait_answer, put_pcb p (Some (TcpPcb ?t)) d1)"
    using d1(1) by (simp add: handleRequest_def request_def)
  let ?x = "unmarked ?h ((put_pcb p (Some (TcpPcb ?t)) d1)\<lparr>sent_resps := sent_resps d @ [(c, wait_answer)]\<rparr>)"
  note ac = answered_call [OF daemon conn msg(1,3) refl h _ msg(2) refl]
  have "chan_socket c ?x = Inr (e, ep)" using tcp(1) daemon_more [OF d1(2)] by (simp add: chan_socket_def put_pcb_def)
  then show ?thesis using ac daemon_more [OF d1(2)] d1(3-5)
    by (intro exI [of _ ?x] exI [of _ syn]) (simp add: wait_answer_def put_pcb_def)
qed

lemma connect_run:
  assumes daemon: "w_daemon (world s) = Inr d" "dmn.reachable d" "kernel_ok K"
    and conn: "w_conn (world s) ch = Some (Accepted c)" "w_unread (world s) c = []" "HChannel c \<in> set (loop_channels (d_loop d))"
    and tcp: "chan_socket c d = Inr (e, ep)" "ep_type ep = EP_TCP" "\<not> ep_nonblocking ep"
    and t: "ep_session ep d = Inr (p, TcpPcb t)" "conn_state t = TCP_CLOSED" "local_port d t \<noteq> 0" and a: "length (sin_zero a) = 8"
    and codec: "carries_request C (request s (CallConnect (sockaddr_bytes a)))" "carries_response C wait_answer"
      "carries_response C connect_answer" "recv_fuel B = Suc (Suc n)"
    and sched: "w_sched (world s) = Net (Some pkt) # Packet # evs" "d_rxQ d = []"
    and pkt: "valid_ip_packet 6 (sin_addr a) (laddr t) pkt" "length pkt \<le> maxRawBytesSize"
      "get16 (raw_of pkt) 20 = sin_port a" "get16 (raw_of pkt) 22 = local_port d t" "tcp_syn (raw_of pkt) 20" "tcp_ack (raw_of pkt) 20"
    and best: "find_session ((\<lambda>i. map_option pcb_session (d_pcbs d i))(p := Some (Session.truncate (connecting c a d t)))) (tcp_pcbs d)
      (sin_addr a) (sin_port a) (laddr t) (local_port d t) = Some p"
  shows "\<exists>s1 x t1 syn ack. transact (sys_env C K B) ch (request s (CallConnect (sockaddr_bytes a))) s = Inr (connect_answer, s1) \<and>
    w_daemon (world s1) = Inr x \<and> dmn.reachable x \<and> d_pcbs x p = Some (TcpPcb t1) \<and> conn_state t1 = TCP_ESTABLISHED \<and>
    recv_next t1 = Some (bswap32 (tcp_seq (raw_of pkt) 20) + 1) \<and> wire x = wire d @ [syn, ack] \<and>
    valid_tcp_packet (laddr t) (sin_addr a) syn \<and> segment_of syn = seg (connecting c a d t) 1 0 2 [] \<and>
    valid_tcp_packet (laddr t) (sin_addr a) ack \<and>
    segment_of ack = seg (connecting c a d t) 2 (bswap32 (tcp_seq (raw_of pkt) 20) + 1) 16 []"
proof -
  let ?q = "request s (CallConnect (sockaddr_bytes a))" let ?t = "connecting c a d t" let ?r = "raw_of pkt"
  obtain x syn where x: "transact (sys_env C K B) ch ?q s = chan_recv_loop (sys_env C K B) ch (Suc n) (s\<lparr>errno := 0, world := (world s)\<lparr>w_daemon := Inr x\<rparr>\<rparr>)"
    "dmn.reachable x" "d_rxQ x = []" "tcp_pcbs x = tcp_pcbs d" "d_pcbs x = (d_pcbs d)(p := Some (TcpPcb ?t))" "chan_socket c x = Inr (e, ep)"
    "wire x = wire d @ [syn]" "valid_tcp_packet (laddr t) (sin_addr a) syn" "segment_of syn = seg ?t iss 0 2 []"
    using connect_request [OF daemon conn tcp t a codec(1,2,4)] sched(2) by auto
  obtain fb q where fb: "interface_turn (Some pkt) x = Inr (x\<lparr>d_rxQ := q\<rparr>)" "q \<noteq> []" "\<And>E. ip_turn E (x\<lparr>d_rxQ := q\<rparr>) = tcp_rx E [fb] x"
    "rawBytes fb = ?r" "network_hdr fb = Raw 0" "transport_hdr fb = Raw 20"
    using arrives_whole [OF pkt(1) _ pkt(2) x(3)] by auto
  let ?E = "sys_denv C K quiet [] (x\<lparr>d_rxQ := q\<rparr>)"
  have "(\<lambda>i. map_option pcb_session (d_pcbs x i)) = (\<lambda>i. map_option pcb_session (d_pcbs d i))(p := Some (Session.truncate ?t))"
    using x(5) by auto
  then have dm: "demux (d_pcbs x) (tcp_pcbs x) ?r 0 20 = Some p"
    using best x(4) valid_ip_fields(5,6) [OF pkt(1)] pkt(3,4) by (simp add: demux_def)
  have so: "ep_session ep x = Inr (p, TcpPcb ?t)" using t(1) x(5) by (auto simp: ep_session_def bindr_eq_Inr)
  have st: "conn_state ?t = TCP_SYN_SENT" "send_unack ?t = Some iss" "send_next ?t = Some (iss + 1)" "onConnEstabCB ?t = Some c"
    "laddr ?t = laddr t" "faddr ?t = sin_addr a" by (simp_all add: connecting_def)
  have sz: "byte_size ?E connect_answer \<le> RPC_MESSAGE_MAX_SIZE" using codec(3) by (simp add: carries_response_def)
  obtain y t1 ack where y: "tcp_rx ?E [fb] x = Inr y" "sent_resps y = sent_resps x @ [(c, connect_answer)]"
    "d_pcbs y p = Some (TcpPcb t1)" "conn_state t1 = TCP_ESTABLISHED" "recv_next t1 = Some (bswap32 (tcp_seq ?r 20) + 1)"
    "wire y = wire x @ [ack]" "valid_tcp_packet (laddr t) (sin_addr a) ack" "segment_of ack = seg ?t (iss + 1) (bswap32 (tcp_seq ?r 20) + 1) 16 []"
    using synack_answers [OF daemon_reachable_wf [OF x(2)] x(6) so st(1-4) sys_writes_ok sz fb(4-6) pkt(5,6) dm] st(5,6) by auto
  have e: "run_event C K Packet (x\<lparr>d_rxQ := q\<rparr>) = Inr y" using fb(2,3) y(1) by simp
  have l: "silent_run C K [Net (Some pkt)] x (x\<lparr>d_rxQ := q\<rparr>)" using fb(1) by simp
  have ry: "dmn.reachable y"
    using run_event_reachable [OF daemon(3) _ e] run_event_reachable [OF daemon(3) x(2), of C "Net (Some pkt)"] fb(1) by simp
  let ?s = "s\<lparr>errno := 0, world := (world s)\<lparr>w_daemon := Inr x\<rparr>\<rparr>"
  have "chan_recv_loop (sys_env C K B) ch (Suc n) ?s =
      Inr (connect_answer, ?s\<lparr>errno := 0, world := (world ?s)\<lparr>w_daemon := Inr y, w_sched := evs\<rparr>\<rparr>)"
    by (rule recv_after_events [OF l e, where c = c]) (use y(2) conn sched(1) codec(3,4) in \<open>simp_all add: connect_answer_def\<close>)
  then obtain s1 where s1: "transact (sys_env C K B) ch ?q s = Inr (connect_answer, s1)" "w_daemon (world s1) = Inr y"
    unfolding x(1) by auto
  then show ?thesis using ry y(3-8) x(7-9) by (auto simp: iss_def)
qed

lemma connect_of_answer:
  assumes "is_assigned_by_velox s fd" "fd_chanmap s fd = Inr ch" "length (sin_zero a) = 8"
    and "transact E ch (request s (CallConnect (sockaddr_bytes a))) s = Inr (connect_answer, s1)"
  shows "connect E fd (Some (sockaddr_bytes a)) sockaddr_in_size s = Inr (0, s1)"
  using assms by (simp add: connect_def mem_read_def sockaddr_in_size_def connect_answer_def ret_and_errno_def sockaddr_bytes_def)

text \<open>(C4) A TCP connection from call to return. A client calls \<open>connect\<close> on a fresh blocking TCP socket; while it
  waits, a packet with SYN and ACK from the address it named arrives for the port its session was bound to,
  which no other session claims. Then \<open>connect\<close> returns 0; the daemon is in a reachable state with the
  session established and expecting the byte after the peer's initial sequence number; and exactly two packets
  went out, valid and addressed to the peer: the SYN and the acknowledgement of the peer's SYN.\<close>

theorem connect_completes:
  assumes daemon: "w_daemon (world s) = Inr d" "dmn.reachable d" "kernel_ok K"
    and conn: "w_conn (world s) ch = Some (Accepted c)" "w_unread (world s) c = []" "HChannel c \<in> set (loop_channels (d_loop d))"
    and fd: "is_assigned_by_velox s fd" "fd_chanmap s fd = Inr ch"
    and tcp: "chan_socket c d = Inr (e, ep)" "ep_type ep = EP_TCP" "\<not> ep_nonblocking ep"
    and t: "ep_session ep d = Inr (p, TcpPcb t)" "conn_state t = TCP_CLOSED" "local_port d t \<noteq> 0" and a: "length (sin_zero a) = 8"
    and codec: "carries_request C (request s (CallConnect (sockaddr_bytes a)))" "carries_response C wait_answer"
      "carries_response C connect_answer" "recv_fuel B = Suc (Suc n)"
    and sched: "w_sched (world s) = Net (Some pkt) # Packet # evs" "d_rxQ d = []"
    and pkt: "valid_ip_packet 6 (sin_addr a) (laddr t) pkt" "length pkt \<le> maxRawBytesSize"
      "get16 (raw_of pkt) 20 = sin_port a" "get16 (raw_of pkt) 22 = local_port d t" "tcp_syn (raw_of pkt) 20" "tcp_ack (raw_of pkt) 20"
    and best: "find_session ((\<lambda>i. map_option pcb_session (d_pcbs d i))(p := Some (Session.truncate (connecting c a d t)))) (tcp_pcbs d)
      (sin_addr a) (sin_port a) (laddr t) (local_port d t) = Some p"
  shows "\<exists>s1 x t1 syn ack. connect (sys_env C K B) fd (Some (sockaddr_bytes a)) sockaddr_in_size s = Inr (0, s1) \<and>
    w_daemon (world s1) = Inr x \<and> dmn.reachable x \<and> d_pcbs x p = Some (TcpPcb t1) \<and> conn_state t1 = TCP_ESTABLISHED \<and>
    recv_next t1 = Some (bswap32 (tcp_seq (raw_of pkt) 20) + 1) \<and> wire x = wire d @ [syn, ack] \<and>
    valid_tcp_packet (laddr t) (sin_addr a) syn \<and> segment_of syn = seg (connecting c a d t) 1 0 2 [] \<and>
    valid_tcp_packet (laddr t) (sin_addr a) ack \<and>
    segment_of ack = seg (connecting c a d t) 2 (bswap32 (tcp_seq (raw_of pkt) 20) + 1) 16 []"
  using connect_run [OF daemon conn tcp t a codec sched pkt best] connect_of_answer [OF fd a] by blast

subsection \<open>An example\<close>

definition tcp_sample_env :: denv where
  "tcp_sample_env = sample_env\<lparr>ParseFromArray := (\<lambda>_. \<lparr>req_pid = 1, req_calling = CallSocket 2 1 0\<rparr>)\<rparr>"

definition tcp_sample_ep :: Endpoint where
  "tcp_sample_ep = setAgentChannel 0 (setSession 2 (Endpoint_new EP_TCP False))"

definition tcp_sample :: TcpSession where
  "tcp_sample = (TcpSession_new 1)\<lparr>socket_of := Some 1\<rparr>"

lemma sample_tcp:
  "\<exists>d. dmn.reachable d \<and> HChannel 0 \<in> set (loop_channels (d_loop d)) \<and> chan_socket 0 d = Inr (1, tcp_sample_ep) \<and>
     ep_session tcp_sample_ep d = Inr (2, TcpPcb tcp_sample) \<and> tcp_pcbs d = [2] \<and> tcp_port d = 1024 \<and> d_rxQ d = []"
proof -
  have "\<exists>d0 d1 d2. daemon_start 1 3 = Inr d0 \<and> onNewConnection 4 d0 = Inr d1 \<and> onReadReady tcp_sample_env 0 d1 = Inr d2 \<and>
     unused_fd 4 d0 \<and> env_ok sample_env d0 \<and> env_ok tcp_sample_env d1 \<and> io_handles (d_loop d0) HListener \<noteq> None \<and>
     io_handles (d_loop d1) (HChannel 0) \<noteq> None \<and> HChannel 0 \<in> set (loop_channels (d_loop d2)) \<and>
     d_chans d2 0 = Some \<lparr>ch_peer = [], ch_peerPid = None, ch_socket = Some 1\<rparr> \<and> d_eps d2 1 = Some tcp_sample_ep \<and>
     d_pcbs d2 2 = Some (TcpPcb tcp_sample) \<and> tcp_pcbs d2 = [2] \<and> tcp_port d2 = 1024 \<and> d_rxQ d2 = []"
    by (simp add: start_defs serve_defs tcp_newSession_def env_ok_def unused_fd_def sample_env_def tcp_sample_env_def tcp_sample_ep_def
        tcp_sample_def numeral_2_eq_2)
  then obtain d0 d1 d2 where s: "daemon_start 1 3 = Inr d0" "onNewConnection 4 d0 = Inr d1" "onReadReady tcp_sample_env 0 d1 = Inr d2"
    "unused_fd 4 d0" "env_ok sample_env d0" "env_ok tcp_sample_env d1" "io_handles (d_loop d0) HListener \<noteq> None"
    "io_handles (d_loop d1) (HChannel 0) \<noteq> None" "HChannel 0 \<in> set (loop_channels (d_loop d2))"
    "d_chans d2 0 = Some \<lparr>ch_peer = [], ch_peerPid = None, ch_socket = Some 1\<rparr>" "d_eps d2 1 = Some tcp_sample_ep"
    "d_pcbs d2 2 = Some (TcpPcb tcp_sample)" "tcp_pcbs d2 = [2]" "tcp_port d2 = 1024" "d_rxQ d2 = []" by blast
  have "dmn.reachable d0" using s(1) by (intro dmn.reach_init) (auto simp: daemon_init_def)
  moreover have "daemon_step d0 d1" using s(2,4,5)
    by (intro daemon_step.event [OF s(7), of "sample_env\<lparr>accepted := [4]\<rparr>" OnRead "hub_onReadReady [4]"]) (simp_all add: env_ok_def)
  moreover have "daemon_step d1 d2" using s(3)
    by (intro daemon_step.event [OF s(8,6), of OnRead "onReadReady tcp_sample_env 0"]) (simp_all add: sample_env_def tcp_sample_env_def)
  ultimately have "dmn.reachable d2" by (meson dmn.reach_step)
  moreover have "ep_pcb tcp_sample_ep = Some 2" by (simp add: tcp_sample_ep_def setAgentChannel_def setSession_def Endpoint_new_def)
  ultimately show ?thesis using s(9-15) by (intro exI [of _ d2]) (simp add: chan_socket_def ep_session_def)
qed

text \<open>A SYN and ACK from address 2, port 80, to address 1, port 1025.\<close>

definition synack :: "byte list" where
  "synack = [69, 0, 0, 40, 0, 0, 0, 0, 64, 6, 119, 209, 2, 0, 0, 0, 1, 0, 0, 0,
     0, 80, 4, 1, 0, 0, 0, 9, 0, 0, 0, 2, 80, 18, 16, 0, 0, 0, 0, 0]"

lemma synack_valid: "valid_ip_packet 6 2 1 synack" "length synack \<le> maxRawBytesSize"
  "get16 (raw_of synack) 20 = 20480" "get16 (raw_of synack) 22 = 260" "tcp_syn (raw_of synack) 20" "tcp_ack (raw_of synack) 20"
proof -
  have "lo16 (checksum (take 20 synack) 0) = 0" by (simp add: synack_def checksum_def le16_def lo16_def fold16.simps)
  moreover have "[synack ! 2, synack ! 3] = be16_bytes (of_nat (length synack))" by (simp add: synack_def be16_bytes_def hi8_def lo8_def)
  moreover have "take 4 (drop 12 synack) = addr_bytes 2" "take 4 (drop 16 synack) = addr_bytes 1"
    by (simp_all add: synack_def addr_bytes_def hi8_def lo8_def lo16_def hi16_def)
  ultimately show "valid_ip_packet 6 2 1 synack" by (simp add: valid_ip_packet_def) (simp add: synack_def)
qed (simp_all add: synack_def maxRawBytesSize_def get16_def raw_of_def le16_def tcp_syn_def tcp_ack_def)

definition tcp_client :: "daemon \<Rightarrow> io list world iproc" where
  "tcp_client d = (proc0 ((sample_world d)\<lparr>w_sched := [Net (Some synack), Packet]\<rparr>))\<lparr>g_chan_table := [9, 0, 0, 0]\<rparr>"

definition tcp_peer :: sockaddr_in where
  "tcp_peer = \<lparr>sin_family = 2, sin_port = 20480, sin_addr = 2, sin_zero = replicate 8 0\<rparr>"

definition tcp_codec :: codec where
  "tcp_codec = numbering_codec [\<lparr>req_pid = 1, req_calling = CallConnect (sockaddr_bytes tcp_peer)\<rparr>, \<lparr>req_pid = 1, req_calling = CallGetpeername\<rparr>]
     [wait_answer, connect_answer, answer_ok (RetGetpeername (name_of (sin_addr tcp_peer) (sin_port tcp_peer))) Response_new]"

lemma tcp_codec_carries:
  "carries_request tcp_codec \<lparr>req_pid = 1, req_calling = CallConnect (sockaddr_bytes tcp_peer)\<rparr>"
  "carries_request tcp_codec \<lparr>req_pid = 1, req_calling = CallGetpeername\<rparr>"
  "carries_response tcp_codec wait_answer" "carries_response tcp_codec connect_answer"
  "carries_response tcp_codec (answer_ok (RetGetpeername (name_of (sin_addr tcp_peer) (sin_port tcp_peer))) Response_new)"
  unfolding tcp_codec_def by (rule numbering_codec_carries; simp)+

lemma tcp_client_ready:
  assumes "tcp_port d = 1024" "tcp_pcbs d = [2]" "ep_session tcp_sample_ep d = Inr (2, TcpPcb tcp_sample)"
  shows "w_daemon (world (tcp_client d)) = Inr d" "w_conn (world (tcp_client d)) 9 = Some (Accepted 0)" "w_unread (world (tcp_client d)) 0 = []"
    "w_sched (world (tcp_client d)) = Net (Some synack) # Packet # []" "is_assigned_by_velox (tcp_client d) 4096"
    "fd_chanmap (tcp_client d) 4096 = Inr 9" "request (tcp_client d) q = \<lparr>req_pid = 1, req_calling = q\<rparr>"
    "ep_type tcp_sample_ep = EP_TCP" "\<not> ep_nonblocking tcp_sample_ep" "conn_state tcp_sample = TCP_CLOSED"
    "local_port d tcp_sample = 260" "laddr tcp_sample = 1" "length (sin_zero tcp_peer) = 8"
    "find_session ((\<lambda>i. map_option pcb_session (d_pcbs d i))(2 := Some (Session.truncate (connecting 0 tcp_peer d tcp_sample))))
      (tcp_pcbs d) (sin_addr tcp_peer) (sin_port tcp_peer) 1 260 = Some 2"
  using assms
  by (simp_all add: tcp_client_def sample_world_def proc0_def is_assigned_by_velox_def fd_chanmap_def slot_def request_def tcp_sample_ep_def
      setAgentChannel_def setSession_def Endpoint_new_def tcp_sample_def TcpSession_new_def Session_new_def Session.defs local_port_def bswap16_def
      hi8_def lo8_def le16_def tcp_peer_def find_session_def match_score_def in_addr_match_def connecting_def Session.truncate_def)

theorem connect_completes_witness:
  "\<exists>d s1 x t1. dmn.reachable d \<and>
     connect (sys_env tcp_codec counting_kernel (ok_env\<lparr>recv_fuel := 2\<rparr>)) 4096 (Some (sockaddr_bytes tcp_peer)) sockaddr_in_size (tcp_client d) =
       Inr (0, s1) \<and> w_daemon (world s1) = Inr x \<and> d_pcbs x 2 = Some (TcpPcb t1) \<and> conn_state t1 = TCP_ESTABLISHED \<and> recv_next t1 = Some 10"
proof -
  obtain d where d: "dmn.reachable d" "HChannel 0 \<in> set (loop_channels (d_loop d))" "chan_socket 0 d = Inr (1, tcp_sample_ep)"
    "ep_session tcp_sample_ep d = Inr (2, TcpPcb tcp_sample)" "tcp_pcbs d = [2]" "tcp_port d = 1024" "d_rxQ d = []"
    using sample_tcp by blast
  note r = tcp_client_ready [OF d(6,5,4)]
  have q: "carries_request tcp_codec (request (tcp_client d) (CallConnect (sockaddr_bytes tcp_peer)))" "local_port d tcp_sample \<noteq> 0"
    "recv_fuel (ok_env\<lparr>recv_fuel := 2\<rparr>) = Suc (Suc 0)" "bswap32 (tcp_seq (raw_of synack) 20) + 1 = 10"
    using tcp_codec_carries(1) r(7,11) by (simp_all add: synack_def tcp_seq_def get32_def get16_def raw_of_def le16_def le32_def bswap32_def
      lo16_def hi16_def hi8_def lo8_def bswap16_def)
  from connect_completes [OF r(1) d(1) counting_kernel_ok r(2,3) d(2) r(5,6) d(3) r(8,9) d(4) r(10) q(2) r(13) q(1) tcp_codec_carries(3,4)
      q(3) r(4) d(7)] synack_valid r(11,12,14) q(4) d(1)
  show ?thesis by (auto simp: tcp_peer_def)
qed

theorem connect_getpeername_witness:
  "\<exists>d s1 s2. dmn.reachable d \<and>
     connect (sys_env tcp_codec counting_kernel (ok_env\<lparr>recv_fuel := 2\<rparr>)) 4096 (Some (sockaddr_bytes tcp_peer)) sockaddr_in_size (tcp_client d) =
       Inr (0, s1) \<and>
     getpeername (sys_env tcp_codec counting_kernel (ok_env\<lparr>recv_fuel := 2\<rparr>)) 4096 (Some 16) (Some 16) s1 =
       Inr (\<lparr>io_ret = 0, io_buf = [], io_addr = sockaddr_bytes tcp_peer, io_addrlen = Some 16\<rparr>, s2)"
proof -
  obtain d where d: "dmn.reachable d" "HChannel 0 \<in> set (loop_channels (d_loop d))" "chan_socket 0 d = Inr (1, tcp_sample_ep)"
    "ep_session tcp_sample_ep d = Inr (2, TcpPcb tcp_sample)" "tcp_pcbs d = [2]" "tcp_port d = 1024" "d_rxQ d = []"
    using sample_tcp by blast
  note r = tcp_client_ready [OF d(6,5,4)]
  have q: "carries_request tcp_codec (request (tcp_client d) (CallConnect (sockaddr_bytes tcp_peer)))" "local_port d tcp_sample \<noteq> 0"
    "recv_fuel (ok_env\<lparr>recv_fuel := 2\<rparr>) = Suc (Suc 0)" "carries_request tcp_codec (request (tcp_client d) CallGetpeername)"
    "sockaddr_in_size \<le> 16"
    using tcp_codec_carries(1,2) r(7,11) by (simp_all add: sockaddr_in_size_def)
  obtain s1 where "transact (sys_env tcp_codec counting_kernel (ok_env\<lparr>recv_fuel := 2\<rparr>)) 9
      (request (tcp_client d) (CallConnect (sockaddr_bytes tcp_peer))) (tcp_client d) = Inr (connect_answer, s1)"
    using connect_run [OF r(1) d(1) counting_kernel_ok r(2,3) d(2) d(3) r(8,9) d(4) r(10) q(2) r(13) q(1) tcp_codec_carries(3,4)
      q(3) r(4) d(7)] synack_valid r(11,12,14) by (auto simp: tcp_peer_def)
  note c = connect_of_answer [OF r(5,6,13) this]
  from connect_getpeername [OF r(1) d(1) counting_kernel_ok r(2,3) d(2) r(5,6) q(5) d(3) r(8,9) q(1,4) tcp_codec_carries(3,5) r(13) q(3) c]
  show ?thesis using c d(1) by (auto simp: tcp_peer_def sockaddr_in_size_def)
qed

end
