(* ===== verification/Client_Udp.thy ===== *)
theory Client_Udp
  imports End_To_End
begin

section \<open>A datagram from one client to another\<close>

text \<open>
  One process calls \<open>sendto\<close>, on another machine a process waits in \<open>recvfrom\<close>; between them two daemons and
  the wire.
\<close>

subsection \<open>Sending\<close>

definition sendto_answer :: "nat \<Rightarrow> Response" where
  "sendto_answer n = answer_ok (RetSendto (plain_ret (int n))) Response_new"

text \<open>An unbound session is bound by its first \<open>sendto\<close>.\<close>

definition udp_local_port :: "daemon \<Rightarrow> Session \<Rightarrow> u16" where
  "udp_local_port d u = (if lport u = 0 then bswap16 (udp_port d + 1) else lport u)"

lemma udp_send_to_datagram_tx:
  assumes "udp_local_port d u \<noteq> 0" "length buf \<le> 65507"
  shows "\<exists>u' d' pkt. udp_send_to fa fp buf u d = Inr (int (length buf), u', d') \<and> wire d' = wire d @ [pkt] \<and>
    valid_ip_packet 17 (laddr u) fa pkt \<and> length pkt = length buf + 28 \<and>
    datagram_of pkt = \<lparr>dg_source = udp_local_port d u, dg_dest = fp, dg_len = of_nat (length buf + 8), dg_check = 0, dg_data = buf\<rparr>"
proof (cases "lport u = 0")
  case True
  let ?u = "u\<lparr>lport := bswap16 (udp_port d + 1)\<rparr>" let ?d = "d\<lparr>udp_port := udp_port d + 1\<rparr>"
  have p: "bswap16 (udp_port d + 1) \<noteq> 0" using assms(1) True by (simp add: udp_local_port_def)
  then have "udp_send_to fa fp buf u d = udp_send_to fa fp buf ?u ?d"
    using True by (simp add: udp_send_to_def session_send_to_def session_bind_def nextAvailPort_def Let_def)
  then show ?thesis using udp_send_to_tx [of ?u buf fa fp ?d] True p assms(2) by (auto simp: udp_local_port_def)
next
  case False
  then show ?thesis using udp_send_to_tx [OF False assms(2), of fa fp d] by (auto simp: udp_local_port_def)
qed

lemma sendto_request:
  assumes daemon: "w_daemon (world s) = Inr d" "dmn.reachable d" "kernel_ok K"
    and conn: "w_conn (world s) ch = Some (Accepted c)" "w_unread (world s) c = []" "HChannel c \<in> set (loop_channels (d_loop d))"
    and udp: "chan_socket c d = Inr (e, ep)" "ep_type ep = EP_UDP" "ep_session ep d = Inr (p, UdpPcb u)" "udp_local_port d u \<noteq> 0"
    and buf: "length buf \<le> 1490" and a: "length (sin_zero a) = 8"
    and msg: "carries_request C (request s (CallSendto buf flags (Some (sockaddr_bytes a))))" "carries_response C (sendto_answer (length buf))"
      "recv_fuel B = Suc n"
  shows "\<exists>s1 x pkt. transact (sys_env C K B) ch (request s (CallSendto buf flags (Some (sockaddr_bytes a)))) s =
      Inr (sendto_answer (length buf), s1) \<and> w_daemon (world s1) = Inr x \<and> dmn.reachable x \<and> wire x = wire d @ [pkt] \<and>
    valid_ip_packet 17 (laddr u) (sin_addr a) pkt \<and> datagram_of pkt = \<lparr>dg_source = udp_local_port d u, dg_dest = sin_port a,
      dg_len = of_nat (length buf + 8), dg_check = 0, dg_data = buf\<rparr> \<and> length pkt = length buf + 28"
proof -
  let ?h = "HChannel c" let ?m = "marked ?h d" let ?q = "request s (CallSendto buf flags (Some (sockaddr_bytes a)))"
  let ?E = "sys_denv C K (quiet(c := RdBytes (pack_request C ?q))) [] d" let ?r = "sendto_answer (length buf)"
  have lp: "udp_local_port ?m u = udp_local_port d u" by (simp add: udp_local_port_def marked_def set_loop_def split: option.split)
  obtain u' d1 pkt where d1: "udp_send_to (sin_addr a) (sin_port a) buf u ?m = Inr (int (length buf), u', d1)" "wire d1 = wire d @ [pkt]"
    "valid_ip_packet 17 (laddr u) (sin_addr a) pkt" "datagram_of pkt = \<lparr>dg_source = udp_local_port d u, dg_dest = sin_port a,
      dg_len = of_nat (length buf + 8), dg_check = 0, dg_data = buf\<rparr>" "length pkt = length buf + 28"
    using udp_send_to_datagram_tx [of ?m u buf "sin_addr a" "sin_port a"] buf udp(4) lp by auto
  have dest: "sockaddr_of_c_str (sockaddr_bytes a) = Inr a" using a by (simp add: sockaddr_of_c_str_def sockaddr_bytes_def)
  have "chan_socket c ?m = Inr (e, ep)" "ep_session ep ?m = Inr (p, UdpPcb u)"
    using udp(1,3) by (simp_all add: chan_socket_def ep_session_def)
  then have h: "handleRequest ?E c ?q ?m = Inr (?r, put_pcb p (Some (UdpPcb u')) d1)"
    using udp(2) dest d1(1) by (simp add: handleRequest_def request_def sendtoCall_def sendto_answer_def)
  let ?x = "unmarked ?h ((put_pcb p (Some (UdpPcb u')) d1)\<lparr>sent_resps := sent_resps d @ [(c, ?r)]\<rparr>)"
  note ac = answered_call [OF daemon conn msg(1,3) refl h _ msg(2) refl]
  show ?thesis using ac d1(2-5) by (simp add: sendto_answer_def put_pcb_def)
qed

subsection \<open>Waiting and receiving\<close>

lemma recvfrom_request:
  assumes daemon: "w_daemon (world s) = Inr d" "dmn.reachable d" "kernel_ok K"
    and conn: "w_conn (world s) ch = Some (Accepted c)" "w_unread (world s) c = []" "HChannel c \<in> set (loop_channels (d_loop d))"
    and udp: "chan_socket c d = Inr (e, ep)" "ep_type ep = EP_UDP" "\<not> ep_nonblocking ep" "ep_recvQ ep = []"
    and msg: "carries_request C (request s (CallRecvfrom len flags True))" "carries_response C wait_answer" "recv_fuel B = Suc n"
    and ep': "ep' = setWaiting True (setOnAsyncNewPacketCB (OnAsyncNewUdpPacket c True) ep)"
  shows "\<exists>x. transact (sys_env C K B) ch (request s (CallRecvfrom len flags True)) s =
      chan_recv_loop (sys_env C K B) ch n (s\<lparr>errno := 0, world := (world s)\<lparr>w_daemon := Inr x\<rparr>\<rparr>) \<and>
    dmn.reachable x \<and> d_rxQ x = d_rxQ d \<and> udp_pcbs x = udp_pcbs d \<and> d_pcbs x = d_pcbs d \<and>
    chan_socket c x = Inr (e, ep') \<and> d_eps x e = Some ep'"
proof -
  let ?h = "HChannel c" let ?m = "marked ?h d" let ?q = "request s (CallRecvfrom len flags True)"
  let ?E = "sys_denv C K (quiet(c := RdBytes (pack_request C ?q))) [] d"
  have ep: "d_eps d e = Some ep" using chan_socketD(1) [OF daemon_reachable_wf [OF daemon(2)] udp(1)] .
  have m: "chan_socket c ?m = Inr (e, ep)" using udp(1) by (simp add: chan_socket_def)
  have h: "handleRequest ?E c ?q ?m = Inr (wait_answer, put_ep e (Some ep') ?m)"
    using m udp(2-4) ep' by (simp add: handleRequest_def request_def recvfromCall_def try_takeFromRecvQ_def wait_answer_def Response_new_def)
  let ?x = "unmarked ?h ((put_ep e (Some ep') ?m)\<lparr>sent_resps := sent_resps d @ [(c, wait_answer)]\<rparr>)"
  note ac = answered_call [OF daemon conn msg(1,3) refl h _ msg(2) refl]
  have "chan_socket c ?x = Inr (e, ep')" using udp(1) by (auto simp: chan_socket_def bindr_eq_Inr put_ep_def)
  then show ?thesis using ac by (intro exI [of _ ?x]) (simp add: wait_answer_def put_ep_def)
qed

text \<open>The three events that bring a packet to a waiting client.\<close>

lemma packet_wakes_client:
  assumes K: "kernel_ok K" and x: "dmn.reachable x" "d_rxQ x = []" "chan_socket c x = Inr (e, ep)" "ep_recvQ ep = []" "ep_session ep x = Inr (p, UdpPcb u)"
    and wait: "ep_waiting ep" "ep_onAsyncNewPacket ep = Some (OnAsyncNewUdpPacket c True)"
    and pkt: "valid_ip_packet 17 src dst pkt" "28 \<le> length pkt" "length pkt \<le> maxRawBytesSize"
    and best: "find_session (\<lambda>i. map_option pcb_session (d_pcbs x i)) (udp_pcbs x) src (dg_source (datagram_of pkt)) dst
      (dg_dest (datagram_of pkt)) = Some p"
    and ans: "ans = datagram_answer (dg_data (datagram_of pkt)) (udp_peer src (dg_source (datagram_of pkt)))"
      "carries_response C ans"
  shows "\<exists>y z. silent_run C K [Net (Some pkt), Packet] x y \<and> run_event C K (Ready (HSocket e)) y = Inr z \<and>
    sent_resps z = sent_resps y @ [(c, ans)]"
proof -
  have wf: "daemon_wf x" using daemon_reachable_wf [OF x(1)] .
  have ep: "d_eps x e = Some ep" using chan_socketD(1) [OF wf x(3)] .
  have u: "d_pcbs x p = Some (UdpPcb u)" "socket_of u = Some e" using ep_sessionD(2,3) [OF wf ep x(5)] by simp_all
  obtain fb q where fb: "interface_turn (Some pkt) x = Inr (x\<lparr>d_rxQ := q\<rparr>)" "q \<noteq> []" "\<And>E. ip_turn E (x\<lparr>d_rxQ := q\<rparr>) = udp_rx [fb] x"
    "rawBytes fb = raw_of pkt" "network_hdr fb = Raw 0" "transport_hdr fb = Raw 20" "user_payload_end fb = Raw (length pkt)"
    using arrives_whole [OF pkt(1) _ pkt(3) x(2)] by auto
  let ?a = "udp_peer src (dg_source (datagram_of pkt))" let ?b = "dg_data (datagram_of pkt)"
  obtain fbs where fbs: "udp_rx [fb] x = Inr (put_ep e (Some (putToRecvQ (Some ?a, fbs) ep)) x)" "drain_skbuf_chain fbs = Inr ?b"
    using udp_rx_queues [OF pkt fb(4-7) best u ep] by blast
  let ?ep = "putToRecvQ (Some ?a, fbs) ep" let ?y = "put_ep e (Some ?ep) x" let ?h = "HSocket e"
  have l: "silent_run C K [Net (Some pkt), Packet] x ?y" using fb(1-3) fbs(1) by (simp add: put_ep_def)
  have y: "dmn.reachable ?y"
    using run_event_reachable [OF K, of "x\<lparr>d_rxQ := q\<rparr>" C Packet ?y] run_event_reachable [OF K x(1), of C "Net (Some pkt)"] fb(1-3) fbs(1) by simp
  have reg: "?h \<in> set (loop_channels (d_loop ?y))"
    using daemon_wfD(12) [OF wf, of e] ep by (simp add: hasChannel_def put_ep_def)
  let ?E = "sys_denv C K quiet [] ?y" let ?m = "marked ?h ?y"
  have q: "ep_recvQ ?ep = [(Some ?a, fbs)]" "ep_waiting ?ep" "ep_onAsyncNewPacket ?ep = Some (OnAsyncNewUdpPacket c True)"
    using x(4) wait by (simp_all add: putToRecvQ_def enqueue_def markSChannelAsReadable_def)
  have so: "chan_socket c ?m = Inr (e, ?ep)" using x(3) by (auto simp: chan_socket_def bindr_eq_Inr put_ep_def)
  have sz: "byte_size ?E (datagram_answer ?b ?a) \<le> RPC_MESSAGE_MAX_SIZE" "nwritten ?E (datagram_answer ?b ?a) \<noteq> -1"
    using ans by (simp_all add: carries_response_def)
  obtain z ep' where z: "sChannelReadCb ?E e ?m = Inr z" "sent_resps z = sent_resps ?y @ [(c, ans)]" "d_eps z e = Some ep'"
    using queued_is_delivered [OF so q(1) fbs(2) q(2,3) sz] ans(1) by auto
  have "daemon_wf z" using sChannelReadCb_wf [OF daemon_reachable_wf [OF reachable_marked [OF y]] z(1)] .
  then have "io_handles (d_loop z) ?h \<noteq> None" using objects_wfD(2) [OF daemon_wfD(1), of z ?h] z(3) by simp
  then have "run_event C K (Ready ?h) ?y = Inr (unmarked ?h z)"
    using reg marked_turn [OF registered_live(1) [OF y reg], of ?E "sChannelReadCb ?E e"] z(1) by (simp add: loop_event_def)
  then show ?thesis using l z(2) by (intro exI [of _ ?y] exI [of _ "unmarked ?h z"]) simp
qed

text \<open>Together: what the call of a waiting client gets when a packet for its socket arrives.\<close>

lemma waiting_client_gets:
  assumes K: "kernel_ok K" and db: "w_daemon (world sb) = Inr db" "dmn.reachable db" "d_rxQ db = []"
    and cb: "w_conn (world sb) hb = Some (Accepted cb)" "w_unread (world sb) cb = []" "HChannel cb \<in> set (loop_channels (d_loop db))"
    and ub: "chan_socket cb db = Inr (eb, epb)" "ep_type epb = EP_UDP" "\<not> ep_nonblocking epb" "ep_recvQ epb = []" "ep_session epb db = Inr (pb, UdpPcb ub)"
    and pkt: "valid_ip_packet 17 src dst pkt" "28 \<le> length pkt" "length pkt \<le> maxRawBytesSize"
    and best: "find_session (\<lambda>i. map_option pcb_session (d_pcbs db i)) (udp_pcbs db) src (dg_source (datagram_of pkt)) dst (dg_dest (datagram_of pkt)) = Some pb"
    and ans: "ans = datagram_answer (dg_data (datagram_of pkt)) (udp_peer src (dg_source (datagram_of pkt)))"
    and mb: "carries_request C (request sb (CallRecvfrom len flags True))" "carries_response C wait_answer"
      "carries_response C ans" "recv_fuel B = Suc (Suc n)"
    and sched: "w_sched (world sb) = Net (Some pkt) # Packet # Ready (HSocket eb) # evs"
  shows "\<exists>s2. transact (sys_env C K B) hb (request sb (CallRecvfrom len flags True)) sb = Inr (ans, s2)"
proof -
  let ?E = "sys_env C K B" let ?q = "request sb (CallRecvfrom len flags True)"
  let ?ep = "setWaiting True (setOnAsyncNewPacketCB (OnAsyncNewUdpPacket cb True) epb)"
  obtain y where y: "transact ?E hb ?q sb = chan_recv_loop ?E hb (Suc n) (sb\<lparr>errno := 0, world := (world sb)\<lparr>w_daemon := Inr y\<rparr>\<rparr>)"
    "dmn.reachable y" "d_rxQ y = []" "udp_pcbs y = udp_pcbs db" "d_pcbs y = d_pcbs db" "chan_socket cb y = Inr (eb, ?ep)"
    using recvfrom_request [OF db(1,2) K cb ub(1-4) mb(1,2,4) refl] db(3) by auto
  have ep: "ep_recvQ ?ep = []" "ep_session ?ep y = Inr (pb, UdpPcb ub)" "ep_waiting ?ep" "ep_onAsyncNewPacket ?ep = Some (OnAsyncNewUdpPacket cb True)"
    using ub(4,5) y(5) by (simp_all add: setWaiting_def setOnAsyncNewPacketCB_def ep_session_def)
  have b': "find_session (\<lambda>i. map_option pcb_session (d_pcbs y i)) (udp_pcbs y) src (dg_source (datagram_of pkt)) dst
      (dg_dest (datagram_of pkt)) = Some pb" using best y(4,5) by simp
  obtain v z where v: "silent_run C K [Net (Some pkt), Packet] y v" "run_event C K (Ready (HSocket eb)) v = Inr z"
    "sent_resps z = sent_resps v @ [(cb, ans)]"
    using packet_wakes_client [OF K y(2,3,6) ep pkt b' ans mb(3)] by blast
  let ?s = "sb\<lparr>errno := 0, world := (world sb)\<lparr>w_daemon := Inr y\<rparr>\<rparr>"
  have "chan_recv_loop ?E hb (Suc n) ?s = Inr (ans, ?s\<lparr>errno := 0, world := (world ?s)\<lparr>w_daemon := Inr z, w_sched := evs\<rparr>\<rparr>)"
    by (rule recv_after_events [OF v]) (use cb sched mb(3,4) ans in \<open>simp_all add: datagram_answer_def\<close>)
  then show ?thesis unfolding y(1) by blast
qed

text \<open>(C2) A datagram from client to client. A process sends between 1 and 1490 bytes from a UDP socket, bound or not, with \<open>sendto\<close>
  (a port assigned on the way must not be 0); the
  call returns their number, and one packet is on the wire. On another machine, whose daemon has no packets waiting, a process waits in \<open>recvfrom\<close> on an empty
  blocking UDP socket that matches the packet best, with a buffer at least as long as the data. If that packet is what the machine's device reads next, and its
  threads take their turns, then \<open>recvfrom\<close> returns exactly those bytes, their number, and the
  sender's address and port. Both daemons may be in any reachable state.\<close>

theorem datagram_between_clients:
  assumes K: "kernel_ok K"
    and da: "w_daemon (world sa) = Inr da" "dmn.reachable da"
    and ca: "w_conn (world sa) ha = Some (Accepted ca)" "w_unread (world sa) ca = []" "HChannel ca \<in> set (loop_channels (d_loop da))"
    and ua: "chan_socket ca da = Inr (ea, epa)" "ep_type epa = EP_UDP" "ep_session epa da = Inr (pa, UdpPcb ua)" "udp_local_port da ua \<noteq> 0"
    and fa: "is_assigned_by_velox sa fa" "fd_chanmap sa fa = Inr ha" and buf: "buf \<noteq> []" "length buf \<le> 1490" "length (sin_zero b) = 8"
    and ma: "carries_request C (request sa (CallSendto buf flags (Some (sockaddr_bytes b))))" "carries_response C (sendto_answer (length buf))"
    and db: "w_daemon (world sb) = Inr db" "dmn.reachable db" "d_rxQ db = []"
    and cb: "w_conn (world sb) hb = Some (Accepted cb)" "w_unread (world sb) cb = []" "HChannel cb \<in> set (loop_channels (d_loop db))"
    and ub: "chan_socket cb db = Inr (eb, epb)" "ep_type epb = EP_UDP" "\<not> ep_nonblocking epb" "ep_recvQ epb = []" "ep_session epb db = Inr (pb, UdpPcb ub)"
    and best: "find_session (\<lambda>i. map_option pcb_session (d_pcbs db i)) (udp_pcbs db) (laddr ua) (udp_local_port da ua) (sin_addr b) (sin_port b) = Some pb"
    and fb: "is_assigned_by_velox sb fb" "fd_chanmap sb fb = Inr hb" "length buf \<le> len" "sockaddr_in_size \<le> asize"
    and peer: "peer = udp_peer (laddr ua) (udp_local_port da ua)"
    and mb: "carries_request C (request sb (CallRecvfrom (int32_of_nat len) flags' True))" "carries_response C wait_answer"
      "carries_response C (datagram_answer buf peer)" "recv_fuel B = Suc (Suc n)"
  shows "\<exists>sa' da' pkt. sendto (sys_env C K B) fa (Some buf) (length buf) flags (Some (sockaddr_bytes b)) sockaddr_in_size sa =
      Inr (int (length buf), sa') \<and> w_daemon (world sa') = Inr da' \<and> wire da' = wire da @ [pkt] \<and>
    (w_sched (world sb) = Net (Some pkt) # Packet # Ready (HSocket eb) # evs \<longrightarrow>
      (\<exists>sb'. recvfrom (sys_env C K B) fb (Some len) len flags' (Some asize) (Some al) sb =
        Inr (\<lparr>io_ret = int (length buf), io_buf = buf, io_addr = sockaddr_bytes peer, io_addrlen = Some sockaddr_in_size\<rparr>, sb')))"
proof -
  let ?E = "sys_env C K B"
  obtain s1 x pkt where s1: "transact ?E ha (request sa (CallSendto buf flags (Some (sockaddr_bytes b)))) sa = Inr (sendto_answer (length buf), s1)"
    "w_daemon (world s1) = Inr x" "wire x = wire da @ [pkt]" and pkt: "valid_ip_packet 17 (laddr ua) (sin_addr b) pkt"
    "datagram_of pkt = \<lparr>dg_source = udp_local_port da ua, dg_dest = sin_port b, dg_len = of_nat (length buf + 8), dg_check = 0, dg_data = buf\<rparr>"
    "length pkt = length buf + 28"
    using sendto_request [OF da K ca ua buf(2,3) ma mb(4)] by blast
  have snd: "sendto ?E fa (Some buf) (length buf) flags (Some (sockaddr_bytes b)) sockaddr_in_size sa = Inr (int (length buf), s1)"
    using fa buf s1(1) by (simp add: sendto_def mem_read_def sendto_answer_def answer_ok_def plain_ret_def ret_and_errno_def sockaddr_in_size_def sockaddr_bytes_def)
  have p: "28 \<le> length pkt" "length pkt \<le> maxRawBytesSize" using pkt(3) buf(2) by (simp_all add: maxRawBytesSize_def)
  have b': "find_session (\<lambda>i. map_option pcb_session (d_pcbs db i)) (udp_pcbs db) (laddr ua) (dg_source (datagram_of pkt)) (sin_addr b)
      (dg_dest (datagram_of pkt)) = Some pb"
    "datagram_answer buf peer = datagram_answer (dg_data (datagram_of pkt)) (udp_peer (laddr ua) (dg_source (datagram_of pkt)))"
    using best pkt(2) peer by simp_all
  have "\<exists>sb'. recvfrom ?E fb (Some len) len flags' (Some asize) (Some al) sb =
      Inr (\<lparr>io_ret = int (length buf), io_buf = buf, io_addr = sockaddr_bytes peer, io_addrlen = Some sockaddr_in_size\<rparr>, sb')"
    if "w_sched (world sb) = Net (Some pkt) # Packet # Ready (HSocket eb) # evs"
    using waiting_client_gets [OF K db cb ub pkt(1) p b' mb that] fb buf(1) peer
    by (auto simp: recvfrom_def datagram_answer_def mem_write_def mem_read_def ret_and_errno_def sockaddr_in_size_def udp_peer_def sockaddr_bytes_def)
  then show ?thesis using snd s1(2,3) by blast
qed

subsection \<open>An example\<close>

lemma sample_udp:
  "\<exists>d. dmn.reachable d \<and> HChannel 0 \<in> set (loop_channels (d_loop d)) \<and> chan_socket 0 d = Inr (1, fresh_ep 0 2 False False) \<and>
     ep_session (fresh_ep 0 2 False False) d = Inr (2, UdpPcb ((Session_new 1)\<lparr>socket_of := Some 1\<rparr>)) \<and> udp_pcbs d = [2] \<and>
     udp_port d = 1024 \<and> d_rxQ d = []"
proof -
  have "\<exists>d0 d1 d2. daemon_start 1 3 = Inr d0 \<and> onNewConnection 4 d0 = Inr d1 \<and> onReadReady sample_env 0 d1 = Inr d2 \<and>
     unused_fd 4 d0 \<and> env_ok sample_env d0 \<and> env_ok sample_env d1 \<and> io_handles (d_loop d0) HListener \<noteq> None \<and>
     io_handles (d_loop d1) (HChannel 0) \<noteq> None \<and> HChannel 0 \<in> set (loop_channels (d_loop d2)) \<and>
     d_chans d2 0 = Some \<lparr>ch_peer = [], ch_peerPid = None, ch_socket = Some 1\<rparr> \<and> d_eps d2 1 = Some (fresh_ep 0 2 False False) \<and>
     d_pcbs d2 2 = Some (UdpPcb ((Session_new 1)\<lparr>socket_of := Some 1\<rparr>)) \<and> udp_pcbs d2 = [2] \<and> udp_port d2 = 1024 \<and> d_rxQ d2 = []"
    by (simp add: start_defs serve_defs env_ok_def unused_fd_def sample_env_def fresh_ep_def new_type_def numeral_2_eq_2)
  then obtain d0 d1 d2 where s: "daemon_start 1 3 = Inr d0" "onNewConnection 4 d0 = Inr d1" "onReadReady sample_env 0 d1 = Inr d2"
    "unused_fd 4 d0" "env_ok sample_env d0" "env_ok sample_env d1" "io_handles (d_loop d0) HListener \<noteq> None"
    "io_handles (d_loop d1) (HChannel 0) \<noteq> None" "HChannel 0 \<in> set (loop_channels (d_loop d2))"
    "d_chans d2 0 = Some \<lparr>ch_peer = [], ch_peerPid = None, ch_socket = Some 1\<rparr>" "d_eps d2 1 = Some (fresh_ep 0 2 False False)"
    "d_pcbs d2 2 = Some (UdpPcb ((Session_new 1)\<lparr>socket_of := Some 1\<rparr>))" "udp_pcbs d2 = [2]" "udp_port d2 = 1024" "d_rxQ d2 = []" by blast
  have "dmn.reachable d0" using s(1) by (intro dmn.reach_init) (auto simp: daemon_init_def)
  moreover have "daemon_step d0 d1" using s(2,4,5)
    by (intro daemon_step.event [OF s(7), of "sample_env\<lparr>accepted := [4]\<rparr>" OnRead "hub_onReadReady [4]"]) (simp_all add: env_ok_def)
  moreover have "daemon_step d1 d2" using s(3)
    by (intro daemon_step.event [OF s(8,6), of OnRead "onReadReady sample_env 0"]) (simp_all add: sample_env_def)
  ultimately have "dmn.reachable d2" by (meson dmn.reach_step)
  then show ?thesis using s(9-15) by (intro exI [of _ d2]) (simp add: chan_socket_def ep_session_def)
qed

text \<open>Sender and receiver in the same state; the receiver's schedule is the packet and the turns it takes.\<close>

definition udp_client :: "daemon_event list \<Rightarrow> daemon \<Rightarrow> io list world iproc" where
  "udp_client evs d = (proc0 ((sample_world d)\<lparr>w_sched := evs\<rparr>))\<lparr>g_chan_table := [9, 0, 0, 0]\<rparr>"

definition udp_dest :: sockaddr_in where
  "udp_dest = \<lparr>sin_family = 2, sin_port = 0, sin_addr = 1, sin_zero = replicate 8 0\<rparr>"

definition udp_codec :: codec where
  "udp_codec = numbering_codec [\<lparr>req_pid = 1, req_calling = CallSendto [7, 8, 9] 0 (Some (sockaddr_bytes udp_dest))\<rparr>,
       \<lparr>req_pid = 1, req_calling = CallRecvfrom (int32_of_nat 100) 0 True\<rparr>, \<lparr>req_pid = 1, req_calling = CallRecvfrom (int32_of_nat 2) 0 True\<rparr>]
     [wait_answer, sendto_answer 3, datagram_answer [7, 8, 9] (udp_peer 1 260)]"

lemma udp_codec_carries:
  "carries_request udp_codec \<lparr>req_pid = 1, req_calling = CallSendto [7, 8, 9] 0 (Some (sockaddr_bytes udp_dest))\<rparr>"
  "carries_request udp_codec \<lparr>req_pid = 1, req_calling = CallRecvfrom (int32_of_nat 100) 0 True\<rparr>"
  "carries_response udp_codec wait_answer" "carries_response udp_codec (sendto_answer 3)"
  "carries_response udp_codec (datagram_answer [7, 8, 9] (udp_peer 1 260))"
  "carries_request udp_codec \<lparr>req_pid = 1, req_calling = CallRecvfrom (int32_of_nat 2) 0 True\<rparr>"
  unfolding udp_codec_def by (rule numbering_codec_carries; simp)+

lemma udp_client_ready:
  assumes "udp_port d = 1024" "udp_pcbs d = [2]" "ep_session (fresh_ep 0 2 False False) d = Inr (2, UdpPcb ((Session_new 1)\<lparr>socket_of := Some 1\<rparr>))"
  shows "w_daemon (world (udp_client evs d)) = Inr d" "w_conn (world (udp_client evs d)) 9 = Some (Accepted 0)"
    "w_unread (world (udp_client evs d)) 0 = []" "w_sched (world (udp_client evs d)) = evs" "is_assigned_by_velox (udp_client evs d) 4096"
    "fd_chanmap (udp_client evs d) 4096 = Inr 9" "request (udp_client evs d) q = \<lparr>req_pid = 1, req_calling = q\<rparr>"
    "ep_type (fresh_ep 0 2 False False) = EP_UDP" "\<not> ep_nonblocking (fresh_ep 0 2 False False)" "ep_recvQ (fresh_ep 0 2 False False) = []"
    "udp_local_port d ((Session_new 1)\<lparr>socket_of := Some 1\<rparr>) = 260" "laddr ((Session_new 1)\<lparr>socket_of := Some 1\<rparr>) = 1" "length (sin_zero udp_dest) = 8"
    "find_session (\<lambda>i. map_option pcb_session (d_pcbs d i)) (udp_pcbs d) 1 260 (sin_addr udp_dest) (sin_port udp_dest) = Some 2"
  using assms
  by (auto simp: udp_client_def sample_world_def proc0_def is_assigned_by_velox_def fd_chanmap_def slot_def request_def fresh_ep_def new_type_def
      setAgentChannel_def setSession_def Endpoint_new_def Session_new_def Session.defs udp_local_port_def bswap16_def ep_session_def bindr_eq_Inr
      hi8_def lo8_def le16_def udp_dest_def find_session_def match_score_def in_addr_match_def)

theorem datagram_between_clients_witness:
  "\<exists>d sa' da' pkt sb'. dmn.reachable d \<and>
     sendto (sys_env udp_codec counting_kernel (ok_env\<lparr>recv_fuel := 2\<rparr>)) 4096 (Some [7, 8, 9]) 3 0 (Some (sockaddr_bytes udp_dest)) sockaddr_in_size
       (udp_client [] d) = Inr (3, sa') \<and> w_daemon (world sa') = Inr da' \<and> wire da' = wire d @ [pkt] \<and>
     recvfrom (sys_env udp_codec counting_kernel (ok_env\<lparr>recv_fuel := 2\<rparr>)) 4096 (Some 100) 100 0 (Some 16) (Some 16)
       (udp_client [Net (Some pkt), Packet, Ready (HSocket 1)] d) =
       Inr (\<lparr>io_ret = 3, io_buf = [7, 8, 9], io_addr = sockaddr_bytes (udp_peer 1 260), io_addrlen = Some 16\<rparr>, sb')"
proof -
  obtain d where d: "dmn.reachable d" "HChannel 0 \<in> set (loop_channels (d_loop d))" "chan_socket 0 d = Inr (1, fresh_ep 0 2 False False)"
    "ep_session (fresh_ep 0 2 False False) d = Inr (2, UdpPcb ((Session_new 1)\<lparr>socket_of := Some 1\<rparr>))" "udp_pcbs d = [2]" "udp_port d = 1024" "d_rxQ d = []"
    using sample_udp by blast
  note r = udp_client_ready [OF d(6,5,4)]
  let ?B = "ok_env\<lparr>recv_fuel := 2\<rparr>" let ?b = "[7, 8, 9 :: byte]" let ?u = "(Session_new 1)\<lparr>socket_of := Some 1\<rparr>"
  have c: "carries_request udp_codec (request (udp_client [] d) (CallSendto ?b 0 (Some (sockaddr_bytes udp_dest))))"
    "carries_response udp_codec (sendto_answer (length ?b))" "recv_fuel ?B = Suc (Suc 0)" "?b \<noteq> []" "length ?b \<le> 1490" "length ?b \<le> 100"
    "sockaddr_in_size \<le> 16" "udp_local_port d ?u \<noteq> 0"
    "carries_request udp_codec (request (udp_client evs d) (CallRecvfrom (int32_of_nat 100) 0 True))" for evs
    using udp_codec_carries r(7,11) by (simp_all add: sockaddr_in_size_def numeral_3_eq_3)
  have best: "find_session (\<lambda>i. map_option pcb_session (d_pcbs d i)) (udp_pcbs d) (laddr ?u) (udp_local_port d ?u) (sin_addr udp_dest) (sin_port udp_dest) = Some 2"
    "carries_response udp_codec (datagram_answer ?b (udp_peer (laddr ?u) (udp_local_port d ?u)))"
    using r(11,12,14) udp_codec_carries(5) by simp_all
  note D = datagram_between_clients [where evs = "[]" and al = 16, OF counting_kernel_ok r(1) d(1) r(2,3) d(2,3) r(8) d(4) c(8) r(5,6) c(4,5) r(13) c(1,2)
      r(1) d(1,7) r(2,3) d(2,3) r(8-10) d(4) best(1) r(5,6) c(6,7) refl c(9) udp_codec_carries(3) best(2) c(3)]
  obtain sa' da' pkt where sent: "sendto (sys_env udp_codec counting_kernel ?B) 4096 (Some ?b) 3 0 (Some (sockaddr_bytes udp_dest)) sockaddr_in_size
       (udp_client [] d) = Inr (3, sa')" "w_daemon (world sa') = Inr da'" "wire da' = wire d @ [pkt]" using D [of "[]"] by (auto simp: numeral_3_eq_3)
  obtain pkt' sb' where "wire da' = wire d @ [pkt']" "recvfrom (sys_env udp_codec counting_kernel ?B) 4096 (Some 100) 100 0 (Some 16) (Some 16)
       (udp_client [Net (Some pkt), Packet, Ready (HSocket 1)] d) =
       Inr (\<lparr>io_ret = 3, io_buf = ?b, io_addr = sockaddr_bytes (udp_peer 1 260), io_addrlen = Some 16\<rparr>, sb')"
    using D [of "[Net (Some pkt), Packet, Ready (HSocket 1)]"] sent r(4,11,12) by (auto simp: sockaddr_in_size_def numeral_3_eq_3)
  then show ?thesis using sent d(1) by (intro exI conjI)
qed

text \<open>(C34) A datagram longer than the buffer overruns it. A process waits in \<open>recvfrom\<close> on an empty blocking UDP socket with a
  buffer of \<open>len\<close> bytes, and any well-formed UDP packet for that socket comes from the network, from whatever host. If it carries more than
  \<open>len\<close> bytes, the call does not truncate it, as POSIX asks, nor fails: the length in the request is not looked at by the daemon, and the library copies what the
  daemon sent past the end of the caller's buffer.\<close>

theorem datagram_overruns_buffer:
  assumes "kernel_ok K" and "w_daemon (world sb) = Inr db" "dmn.reachable db" "d_rxQ db = []"
    and "w_conn (world sb) hb = Some (Accepted cb)" "w_unread (world sb) cb = []" "HChannel cb \<in> set (loop_channels (d_loop db))"
    and "chan_socket cb db = Inr (eb, epb)" "ep_type epb = EP_UDP" "\<not> ep_nonblocking epb" "ep_recvQ epb = []" "ep_session epb db = Inr (pb, UdpPcb ub)"
    and "valid_ip_packet 17 src dst pkt" "28 \<le> length pkt" "length pkt \<le> maxRawBytesSize"
    and "find_session (\<lambda>i. map_option pcb_session (d_pcbs db i)) (udp_pcbs db) src (dg_source (datagram_of pkt)) dst (dg_dest (datagram_of pkt)) = Some pb"
    and "ans = datagram_answer (dg_data (datagram_of pkt)) (udp_peer src (dg_source (datagram_of pkt)))"
    and "carries_request C (request sb (CallRecvfrom (int32_of_nat len) flags True))" "carries_response C wait_answer"
      "carries_response C ans" "recv_fuel B = Suc (Suc n)"
    and "w_sched (world sb) = Net (Some pkt) # Packet # Ready (HSocket eb) # evs"
    and fb: "is_assigned_by_velox sb fb" "fd_chanmap sb fb = Inr hb" and len: "0 < len" "len < length (dg_data (datagram_of pkt))"
  shows "recvfrom (sys_env C K B) fb (Some len) len flags (Some asize) al sb = Inl OutOfBounds"
proof -
  obtain s2 where t: "transact (sys_env C K B) hb (request sb (CallRecvfrom (int32_of_nat len) flags True)) sb = Inr (ans, s2)"
    using waiting_client_gets [OF assms(1-22)] by blast
  have "returning ans = RetRecvfrom c \<Longrightarrow> buf' c = Some (dg_data (datagram_of pkt)) \<and> 0 < ret c" for c
    using assms(17) len by (auto simp: datagram_answer_def)
  moreover have "\<exists>c. returning ans = RetRecvfrom c" using assms(17) by (simp add: datagram_answer_def)
  ultimately show ?thesis using t fb len by (auto simp: recvfrom_def mem_write_def Let_def)
qed

theorem datagram_overruns_buffer_witness:
  "\<exists>d pkt. dmn.reachable d \<and> recvfrom (sys_env udp_codec counting_kernel (ok_env\<lparr>recv_fuel := 2\<rparr>)) 4096 (Some 2) 2 0 (Some 16) (Some 16)
     (udp_client [Net (Some pkt), Packet, Ready (HSocket 1)] d) = Inl OutOfBounds"
proof -
  obtain d where d: "dmn.reachable d" "HChannel 0 \<in> set (loop_channels (d_loop d))" "chan_socket 0 d = Inr (1, fresh_ep 0 2 False False)"
    "ep_session (fresh_ep 0 2 False False) d = Inr (2, UdpPcb ((Session_new 1)\<lparr>socket_of := Some 1\<rparr>))" "udp_pcbs d = [2]" "udp_port d = 1024" "d_rxQ d = []"
    using sample_udp by blast
  note r = udp_client_ready [OF d(6,5,4)]
  let ?B = "ok_env\<lparr>recv_fuel := 2\<rparr>" let ?b = "[7, 8, 9 :: byte]"
  obtain pkt where pkt: "valid_ip_packet 17 1 (sin_addr udp_dest) pkt" "length pkt = 31"
    "datagram_of pkt = \<lparr>dg_source = 260, dg_dest = sin_port udp_dest, dg_len = of_nat (length ?b + 8), dg_check = 0, dg_data = ?b\<rparr>"
    using udp_send_to_datagram_tx [of d "(Session_new 1)\<lparr>socket_of := Some 1\<rparr>" ?b "sin_addr udp_dest" "sin_port udp_dest"] r(11,12) by auto
  let ?s = "udp_client [Net (Some pkt), Packet, Ready (HSocket 1)] d"
  have p: "28 \<le> length pkt" "length pkt \<le> maxRawBytesSize" "recv_fuel ?B = Suc (Suc 0)" "(0 :: nat) < 2" "2 < length (dg_data (datagram_of pkt))"
    "find_session (\<lambda>i. map_option pcb_session (d_pcbs d i)) (udp_pcbs d) 1 (dg_source (datagram_of pkt)) (sin_addr udp_dest) (dg_dest (datagram_of pkt)) = Some 2"
    "datagram_answer ?b (udp_peer 1 260) = datagram_answer (dg_data (datagram_of pkt)) (udp_peer 1 (dg_source (datagram_of pkt)))"
    using pkt r(14) by (simp_all add: maxRawBytesSize_def)
  have q: "carries_request udp_codec (request ?s (CallRecvfrom (int32_of_nat 2) 0 True))" using udp_codec_carries(6) r(7) by simp
  show ?thesis
    using datagram_overruns_buffer [OF counting_kernel_ok r(1) d(1,7) r(2,3) d(2,3) r(8-10) d(4) pkt(1) p(1,2,6,7) q udp_codec_carries(3,5) p(3) r(4) r(5,6) p(4,5)]
      d(1) by blast
qed

end
