(* ===== verification/Client_Close.thy ===== *)
theory Client_Close
  imports End_To_End
begin

unbundle bit_operations_syntax

section \<open>A client closes a socket\<close>

text \<open>
  The request, the release of the descriptor, the end of file at the daemon's side.
\<close>

text \<open>(C38) Closing a socket makes the daemon use freed memory. When a client calls \<open>close\<close> on a Velox descriptor,
  the daemon being in any reachable state, the call returns 0 and the table entry is released; but the
  hang-up of the channel makes the event loop destroy the channel and go on in its destroyed handle.\<close>

theorem close_frees_handle_in_use:
  assumes daemon: "w_daemon (world s) = Inr d" "dmn.reachable d" "kernel_ok K"
    and conn: "w_conn (world s) ch = Some (Accepted c)" "w_unread (world s) c = []" "HChannel c \<in> set (loop_channels (d_loop d))"
    and fd: "is_assigned_by_velox s fd" "fd_chanmap s fd = Inr ch" "\<not> is_assigned_by_velox s ch"
    and codec: "carries_request C (request s CallClose)" "carries_response C (closeCall Response_new)" "recv_fuel B = Suc n"
  shows "\<exists>s'. close (Suc (Suc k)) (sys_env C K B) fd s = Inr (0, s') \<and> fd_chanmap s' fd = Inr 0 \<and>
    w_conn (world s') ch = None \<and> w_daemon (world s') = Inl UseAfterFree"
proof -
  let ?h = "HChannel c" let ?q = "request s CallClose" let ?r = "closeCall Response_new" let ?m = "marked ?h d"
  let ?x = "unmarked ?h (?m\<lparr>sent_resps := sent_resps d @ [(c, ?r)]\<rparr>)" let ?w = "(world s)\<lparr>w_daemon := Inr ?x\<rparr>"
  have h: "handleRequest (sys_denv C K (quiet(c := RdBytes (pack_request C ?q))) [] d) c ?q ?m = Inr (?r, ?m)"
    by (simp add: handleRequest_def request_def)
  have rc: "retcode ?r = Some RC_OK" "returning ?r = RetClose (plain_ret 0)" by (simp_all add: closeCall_def answer_ok_def)
  note ac = answered_call [OF daemon conn codec(1,3) refl h _ codec(2) refl]
  have t: "transact (sys_env C K B) ch ?q s = Inr (?r, s\<lparr>errno := 0, world := ?w\<rparr>)" and x: "dmn.reachable ?x" using ac rc by simp_all
  obtain i where i: "slot s fd = Inr i" "g_chan_table s ! i = ch" using fd(2) by (auto simp: fd_chanmap_def bindr_eq_Inr)
  have len: "i < length (g_chan_table s)" using i(1) by (auto simp: slot_def Let_def split: if_splits)
  obtain chan where chan: "d_chans ?x c = Some chan" using registered_live(2) [OF daemon(2) conn(3)] by auto
  let ?E = "sys_denv C K (quiet(c := RdEof)) [] ?x"
  have "reactor_turn ?E (Some [(?h, POLLIN OR POLLHUP)]) ?x = Inl UseAfterFree"
    by (rule channel_close_uses_freed_handle [OF x chan]) (simp_all add: poll_defs)
  then have "loop_event ?E ?h (POLLIN OR POLLHUP) ?x = Inl UseAfterFree" using conn(3) by (simp add: loop_event_def)
  then have cl: "sys_close C K B ch ?w = (0, 0, ?w\<lparr>w_conn := (w_conn (world s))(ch := None), w_daemon := Inl UseAfterFree\<rparr>)"
    using conn(1) by (simp add: sys_close_def advance_def)
  let ?s = "s\<lparr>errno := 0, world := ?w\<rparr>" let ?s' = "?s\<lparr>g_chan_table := (g_chan_table s)[i := 0]\<rparr>"
  let ?e = "?s'\<lparr>errno := 0, world := ?w\<lparr>w_conn := (w_conn (world s))(ch := None), w_daemon := Inl UseAfterFree\<rparr>\<rparr>"
  have f: "fd_chanmap ?s fd = Inr ch" using fd(2) by (simp add: fd_chanmap_def slot_def)
  have u: "unset_fd_chanmap fd ch ?s = Inr ?s'" using i(1) by (simp add: unset_fd_chanmap_def slot_def)
  have c: "close (Suc k) (sys_env C K B) ch ?s' = Inr (0, ?e)" using fd(3) cl by (simp add: is_assigned_by_velox_def glibc_def)
  have "close (Suc (Suc k)) (sys_env C K B) fd s = Inr (0, ?e)"
    by (subst close.simps(2)) (use fd(1,2) t rc f u c in \<open>simp del: close.simps add: close_chan.simps ret_and_errno_def plain_ret_def\<close>)
  moreover have "fd_chanmap ?e fd = Inr 0" using i(1) len by (simp add: fd_chanmap_def slot_def Let_def split: if_splits)
  ultimately show ?thesis by (intro exI [of _ ?e]) simp
qed

theorem close_frees_handle_in_use_witness:
  "\<exists>d s'. dmn.reachable d \<and>
     close 2 (sys_env (numbering_codec [\<lparr>req_pid = 1, req_calling = CallClose\<rparr>] [closeCall Response_new]) counting_kernel ok_env) 4096
       ((proc0 (sample_world d))\<lparr>g_chan_table := [9, 0, 0, 0]\<rparr>) = Inr (0, s') \<and> w_daemon (world s') = Inl UseAfterFree"
proof -
  obtain d where d: "dmn.reachable d" "HChannel 0 \<in> set (loop_channels (d_loop d))" using sample_channel by blast
  let ?s = "(proc0 (sample_world d))\<lparr>g_chan_table := [9, 0, 0, 0]\<rparr>"
  let ?C = "numbering_codec [\<lparr>req_pid = 1, req_calling = CallClose\<rparr>] [closeCall Response_new]"
  have c: "carries_request ?C (request ?s CallClose)" "carries_response ?C (closeCall Response_new)"
    by (rule numbering_codec_carries; simp add: request_def proc0_def)+
  have s: "w_daemon (world ?s) = Inr d" "w_conn (world ?s) 9 = Some (Accepted 0)" "w_unread (world ?s) 0 = []" "is_assigned_by_velox ?s 4096"
    "fd_chanmap ?s 4096 = Inr 9" "\<not> is_assigned_by_velox ?s 9" "recv_fuel ok_env = Suc 0"
    by (simp_all add: proc0_def sample_world_def is_assigned_by_velox_def fd_chanmap_def slot_def ok_env_def script_env_def)
  from close_frees_handle_in_use [OF s(1) d(1) counting_kernel_ok s(2,3) d(2) s(4-6) c s(7), of 0]
  show ?thesis using d(1) by (auto simp: numeral_2_eq_2)
qed

end
