(* ===== verification/Spec2Isabelle.thy ===== *)
theory Spec2Isabelle
  imports Csum16 Wakeup Tcp_Protocol Thread_Loops Rpc_Messages Wire_System Readiness Reassembler_Lock Bounded_Deque Client_Socket Client_Tcp Client_Udp Client_Close
begin

text \<open>
  \<^bold>\<open>Velox: a user space TCP/IP stack and its socket interceptor\<close>

  \<^bold>\<open>The program.\<close> A client process is started with a preloaded library, the interceptor
  (src/src/interceptor). It replaces the socket calls of glibc: calls on descriptors outside the
  range Velox reserved go to glibc, the others become a request on a Unix socket and wait for the
  response. The daemon (src/src/veloxd) accepts these sockets, one channel for each, and runs three
  threads: the event loop serves requests and delivers packets a client waits for, the interface
  thread reads packets from a TUN device into a queue, the IP thread takes them from there, reassembles
  fragments, and hands them to the session of the TCP or UDP layer, which queues them at an endpoint
  and notifies the event loop through a pipe. Sending runs on the event loop's thread down to the
  device.

  \<^bold>\<open>Theories, and what they model.\<close>

  \<^item> Velox_Prelude: word types, byte order, the faults, the result type and its bind, the counter
    and transition system locales the others share.
  \<^item> Csum16: base/Csum16.cpp, the Internet checksum on 32 bit words.
  \<^item> Rpc_Schema: the messages, src/src/rpc. Rpc_Descriptors and Rpc_Messages: the C code generated for
    them, src/src/rpc/c_out - structs, tables, initial values, wrappers. Rr_Channel: req-resp-channel.c.
  \<^item> Wire_Format: the encoding of fields, the message library as an interface, and the loop of the generated parsers.
    Cpp_Messages: the daemon's generated code, src/src/rpc/cpp_out. Wire_Tables: the bytes the tables of the C
    code describe for a message. Wire_Codec: both sides agree.
  \<^item> Fd_Table: fdpool.c and fdchanmap.c. Interceptor: the intercepted calls of interceptor.c but
    the two that wait for several descriptors, which are in Readiness.
  \<^item> Frame_Buf: FrameBuf.h, buffers with pointers into them. Ip_Header: ip/IpHdr.cpp. Ip_Tx: Ip::tx
    and the output of interface/TunIface.cpp. Reassembler: ip/reassembly. Raw_Mutex: base/RawMutex.cpp, and what
    it gives to objects that threads share; Reassembler_Lock uses it for the reassembler and its timer, Bounded_Deque for
    base/BoundedDeque.h. Ip_Rx: the interface and the IP
    thread.
  \<^item> Sessions: Session.cpp and the demultiplexer of Session.h. Tcp_Session, Tcp_Protocol: tcp/TcpSession.cpp and its
    state machine. Udp_Session: udp/UdpSession.cpp.
  \<^item> Endpoint_Queue: arbiter/Endpoint.cpp. Wakeup: how its queue, its pipe and its waiting flag are used
    by two threads at once.
  \<^item> Reactor: arbiter/reactor, the event loop over epoll.
  \<^item> Daemon: the objects of arbiter/Arbiter.cpp, agent/AgentHub.cpp and agent/AgentChannel.cpp, their creation and
    destruction, and Tcp::rx and Udp::rx. Rpc_Dispatch: arbiter/RpcDispatch.cpp, the reading of requests, and
    the callbacks of the event loop.
  \<^item> Daemon_Inv, Daemon_Serve, Daemon_Steps, Daemon_Safe: the invariant of the daemon's objects, kept
    by creation and destruction, by \<open>socket\<close>, by every request, callback and packet; the daemon as a
    transition system. Rpc_Answers, Udp_Delivery: what clients get. Daemon_Quiet: what the daemon's other work
    leaves alone of a socket.
  \<^item> Whole_System: clients and daemon as one system, the environment of the interceptor being built from the
    daemon's state, the Unix sockets between them and a schedule of what the daemon does while a client waits.
    End_To_End: the waiting client. System_Inv: the invariant of the whole system under any program.
    Client_Socket, Client_Tcp, Client_Udp, Client_Close: single calls followed from the client's
    program through the daemon and back. Wire_System: a remote call with the generated code on the way.
  \<^item> Log_Format, Log_Core: Logging.cpp and Logging.h, the position in a line and the whole log statement. Startup: Conf.h, CfgParser.cpp, Veloxd.cpp, the set-up of
    the TUN device and of the listening socket, main.cpp. Thread_Loops: the loops of the three threads and how they stop.

  \<^bold>\<open>State and effects.\<close> Functions take and return the state of the class or of the whole daemon;
  \<open>daemon\<close> extends the network state \<open>net\<close>, so the operations of the lower layers apply to it as they are.
  Objects of the daemon are numbers into stores, with \<open>None\<close> for what was destroyed. Every assertion,
  null pointer, uninitialised read, access out of bounds, use of a destroyed object, exit and
  blocking read of the sources is a value of \<open>fault\<close>, the left side of the result type. The build that is modelled is the Debug build: CMakeLists.txt
  makes a Release build unless told otherwise, whose flags define \<open>NDEBUG\<close>, and then a failing assertion stops nothing; what a theorem says of
  executions in which none fails holds of both. Machine
  integers are words, and the header fields are the bytes of the buffer.

  \<^bold>\<open>Parameters.\<close> glibc and the kernel behind the interceptor are the record \<open>env\<close>; what the kernel and
  protobuf answer the daemon in one turn is the record \<open>denv\<close>, and at its start the record \<open>startenv\<close>. Of them the theorems assume only what
  they state: that new descriptors are not in use (\<open>env_ok\<close>, \<open>fresh_fds\<close>) and, for single properties,
  that a response fits and is written. In the whole system only the environment of the other calls, the
  descriptors the kernel gives the daemon (\<open>kernel\<close>) and the message library (\<open>codec\<close>) remain, of which the theorems ask that
  the messages at hand get across (\<open>carries_request\<close>, \<open>carries_response\<close>); Wire_System proves the former of the generated code, for
  a library that reads and writes single fields in the documented encoding (\<open>wire_format\<close>, with the instance \<open>base128\<close>), and protobuf-c is asked to pack the request as the
  tables describe it (\<open>packs_as_described\<close>) and to unpack the response from the bytes they describe (\<open>response_fits\<close>). Boost.Log is the record \<open>loglib\<close> with the locale \<open>log_library\<close>; its line numbers are 32 bit words and wrap. The meaning of a sequence of epoll calls is taken from epoll(7).

  \<^bold>\<open>What is shown.\<close> For the checksum: agreement with RFC 1071 and that a packet with its checksum
  verifies. For the interceptor: ordinary descriptors behave as with glibc, Velox descriptors are
  never shared, \<open>poll\<close> is the merge of both worlds, and the outcome of each call. For the stack: the
  packets sent are valid and carry the data, in order, with the sequence numbers of the stream; the
  handshake; the reachable connection states; demultiplexing finds the best session; reassembly
  returns exactly the fragments of one packet, all of them. For the log: lines of different
  threads are not mixed. For objects behind a mutex: calls of any threads are as if one after the other, on a plain list for the deque. For the messages: the daemon parses what the client's tables describe, and writes what
  they describe. For the daemon: the event loop and epoll agree; the
  owner links hold in every reachable state; no step uses a destroyed object; no wakeup is lost; every
  served request is answered once with its own kind of answer; a datagram sent arrives with its data
  and its sender. For the whole system: a remote call is a call of the handler; \<open>socket\<close> gives the client an
  endpoint of its own; \<open>connect\<close> returns when the SYN+ACK arrives and \<open>getpeername\<close> then returns the address given to it; a
  datagram sent by one client is what \<open>recvfrom\<close> returns in another; whatever calls are made, clients are kept
  apart. Several properties state what the code does where this is not what it means to do:
  requests that stop the daemon, the handle used after its channel is closed, a blocked event loop, a reference that outlives its lock,
  fragments that dereference a null pointer, a datagram written past the buffer of \<open>recvfrom\<close>, descriptors that run out, raw sockets taken for streams,
  connections that never close, \<open>select\<close>, protocol 255.

  \<^bold>\<open>Bounds and fuel.\<close> The loops of the interceptor that repeat system calls take the results of those
  calls as a list, and there is a theorem that such a loop returns as soon as the list has a final
  result. The loops of the daemon's threads take their turns as a list. The loop of the generated parsers has one more than the number of remaining bytes as fuel,
  which is enough as every field takes a byte (\<open>enough_fuel\<close>). All other loops are structural. Theorems on sending assume what fits into an IP packet, and
  the delivery theorem what fits into one buffer of 1518 bytes.

  \<^bold>\<open>Not modelled.\<close> The opening of log records, the files of the log and the parsing of the command line belong to
  Boost; the start of a thread is a system call. The accessors and the setters of callbacks are the fields of the model's records and the function \<open>daemon_cb\<close>. ICMP, output fragmentation and TCP timers are empty in the sources. Of the generated C++ message
  code only what the daemon calls is modelled; merging, swapping, arenas and reflection are used by nobody. What the interceptor prints is left out. protobuf and protobuf-c, libev and the concurrent queue are libraries. In the whole system a client's call is
  atomic but for the waits in it, a request is served as soon as it is written, no other client's request is served while a client waits, a descriptor has no copy in a child
  process, and what the daemon wrote in a step that ends in a fault is lost. Of the concurrency between threads, the
  endpoint's queue and flag, what is guarded by a mutex and the log are modelled step by step; the other steps of the daemon are taken to be
  atomic, which is what the sources rely on where they share objects without a lock.
\<close>

end
